(* ===== verification/Relay_Prelude.thy ===== *)
theory Relay_Prelude
  imports Complex_Main "HOL-Library.AList" "HOL-Library.Sublist"
begin

text \<open>
  Shared vocabulary of the development: the Python values the relay reads from
  YAML and JSON, the string and dictionary operations of the language that the
  source uses, the clock, and the exceptions that can leave a handler.

  Strings are lists of \<open>char\<close>, read as Latin-1 code points (the encoding an ASGI
  server decodes header bytes with). A \<open>dict\<close> is an association list with
  distinct keys in insertion order: writing an existing key keeps its position,
  a new key goes to the end, as in CPython. Instants and durations are rationals:
  the model keeps the exact value where the program has a rounded double.
\<close>

named_theorems queue_simps \<open>unfolding rules of the slot queue\<close>
named_theorems store_simps \<open>effects of the store operations\<close>
named_theorems server_simps \<open>frame rules of the server operations\<close>

type_synonym time = rat

declare split_paired_All [simp del] split_paired_Ex [simp del]

section \<open>Dictionaries\<close>

type_synonym ('k, 'v) dict = "('k \<times> 'v) list"

abbreviation dict_get :: "('k, 'v) dict \<Rightarrow> 'k \<Rightarrow> 'v option" where
  "dict_get d k \<equiv> map_of d k"

abbreviation dict_put :: "'k \<Rightarrow> 'v \<Rightarrow> ('k, 'v) dict \<Rightarrow> ('k, 'v) dict" where
  "dict_put k v d \<equiv> AList.update k v d"

abbreviation dict_pop :: "'k \<Rightarrow> ('k, 'v) dict \<Rightarrow> ('k, 'v) dict" where
  "dict_pop k d \<equiv> AList.delete k d"

abbreviation dict_keys :: "('k, 'v) dict \<Rightarrow> 'k list" where
  "dict_keys d \<equiv> map fst d"

definition dict_has :: "('k, 'v) dict \<Rightarrow> 'k \<Rightarrow> bool" where
  "dict_has d k = (map_of d k \<noteq> None)"

definition dict_setdefault :: "'k \<Rightarrow> 'v \<Rightarrow> ('k, 'v) dict \<Rightarrow> ('k, 'v) dict" where
  "dict_setdefault k v d = (if dict_has d k then d else dict_put k v d)"

definition dict_ok :: "('k, 'v) dict \<Rightarrow> bool" where
  "dict_ok d = distinct (map fst d)"

lemma dict_has_iff: "dict_has d k \<longleftrightarrow> k \<in> set (dict_keys d)"
  by (auto simp: dict_has_def map_of_eq_None_iff)

lemma dict_get_put [simp]:
  "dict_get (dict_put k v d) j = (if j = k then Some v else dict_get d j)"
  by (simp add: update_conv')

lemma dict_get_pop [simp]:
  "dict_get (dict_pop k d) j = (if j = k then None else dict_get d j)"
  by (simp add: delete_conv')

lemma setdefault_get:
  "dict_get (dict_setdefault k v d) j = (if j = k \<and> dict_get d k = None then Some v else dict_get d j)"
  by (auto simp: dict_setdefault_def dict_has_def)

lemma dict_has_put [simp]: "dict_has (dict_put k v d) j \<longleftrightarrow> j = k \<or> dict_has d j"
  by (simp add: dict_has_def)

lemma dict_has_pop [simp]: "dict_has (dict_pop k d) j \<longleftrightarrow> j \<noteq> k \<and> dict_has d j"
  by (simp add: dict_has_def)

lemma dict_has_Nil [simp]: "\<not> dict_has [] k"
  by (simp add: dict_has_def)

lemma dict_ok_Nil [simp]: "dict_ok []"
  by (simp add: dict_ok_def)

lemma dict_ok_put [simp]: "dict_ok d \<Longrightarrow> dict_ok (dict_put k v d)"
  by (simp add: dict_ok_def distinct_update)

lemma dict_ok_pop [simp]: "dict_ok d \<Longrightarrow> dict_ok (dict_pop k d)"
  by (simp add: dict_ok_def distinct_delete)

lemma length_dict_put:
  "length (dict_put k v d) = (if dict_has d k then length d else Suc (length d))"
  by (induction d) (auto simp: dict_has_def)

lemma length_dict_pop_le: "length (dict_pop k d) \<le> length d"
  by (rule length_delete_le)

lemma length_dict_pop: "dict_ok d \<Longrightarrow> dict_has d k \<Longrightarrow> Suc (length (dict_pop k d)) = length d"
proof (induction d)
  case (Cons x d)
  then show ?case by (cases x) (auto simp: dict_ok_def dict_has_iff)
qed simp

lemma dict_put_append: "\<not> dict_has d k \<Longrightarrow> dict_put k v d = d @ [(k, v)]"
  by (induction d) (auto simp: dict_has_def split: if_splits)

lemma dict_ok_get: "dict_ok d \<Longrightarrow> dict_get d k = Some v \<longleftrightarrow> (k, v) \<in> set d"
  by (simp add: dict_ok_def)

lemma dict_pop_absent [simp]: "\<not> dict_has d k \<Longrightarrow> dict_pop k d = d"
  by (simp add: dict_has_iff delete_id)

section \<open>Strings\<close>

definition startswith :: "string \<Rightarrow> string \<Rightarrow> bool" where
  "startswith s p = (take (length p) s = p)"

text \<open>\<open>str.lower\<close> on Latin-1: the ASCII capitals and the accented capitals
  (code points 192 to 222, the multiplication sign 215 excepted).\<close>

definition lower_char :: "char \<Rightarrow> char" where
  "lower_char c = (let n = (of_char c :: nat) in
     if 65 \<le> n \<and> n \<le> 90 \<or> 192 \<le> n \<and> n \<le> 222 \<and> n \<noteq> 215 then char_of (n + 32) else c)"

definition lower :: "string \<Rightarrow> string" where
  "lower s = map lower_char s"

text \<open>\<open>str.isspace\<close> on Latin-1, the characters \<open>str.strip()\<close> and \<open>str.split()\<close> drop.\<close>

definition is_space :: "char \<Rightarrow> bool" where
  "is_space c = (let n = (of_char c :: nat) in
     9 \<le> n \<and> n \<le> 13 \<or> 28 \<le> n \<and> n \<le> 32 \<or> n = 133 \<or> n = 160)"

definition lstrip_by :: "(char \<Rightarrow> bool) \<Rightarrow> string \<Rightarrow> string" where
  "lstrip_by P s = dropWhile P s"

definition rstrip_by :: "(char \<Rightarrow> bool) \<Rightarrow> string \<Rightarrow> string" where
  "rstrip_by P s = rev (dropWhile P (rev s))"

definition strip_by :: "(char \<Rightarrow> bool) \<Rightarrow> string \<Rightarrow> string" where
  "strip_by P s = rstrip_by P (lstrip_by P s)"

definition strip :: "string \<Rightarrow> string" where
  "strip s = strip_by is_space s"

text \<open>\<open>s.split(c)\<close>: one field more than there are separators, empty fields kept.\<close>

fun split_on :: "char \<Rightarrow> string \<Rightarrow> string list" where
  "split_on c [] = [[]]"
| "split_on c (x # xs) =
     (if x = c then [] # split_on c xs
      else (case split_on c xs of [] \<Rightarrow> [[x]] | w # ws \<Rightarrow> (x # w) # ws))"

text \<open>\<open>s.split()\<close>: the maximal runs of non-space characters.\<close>

definition split_ws :: "string \<Rightarrow> string list" where
  "split_ws s =
     filter (\<lambda>w. w \<noteq> [])
       (split_on (CHR '' '') (map (\<lambda>c. if is_space c then CHR '' '' else c) s))"

text \<open>\<open>s.rsplit(c, 1)[-1]\<close>: what follows the last separator.\<close>

definition after_last :: "char \<Rightarrow> string \<Rightarrow> string" where
  "after_last c s = rev (takeWhile (\<lambda>x. x \<noteq> c) (rev s))"

definition digit_char :: "nat \<Rightarrow> char" where
  "digit_char n = char_of (48 + n)"

fun show_nat :: "nat \<Rightarrow> string" where
  "show_nat n = (if n < 10 then [digit_char n] else show_nat (n div 10) @ [digit_char (n mod 10)])"

declare show_nat.simps [simp del]

definition show_int :: "int \<Rightarrow> string" where
  "show_int i = (if i < 0 then ''-'' @ show_nat (nat (- i)) else show_nat (nat i))"

definition lower_hex :: "nat \<Rightarrow> char" where
  "lower_hex n = (if n < 10 then char_of (48 + n) else char_of (87 + n))"

text \<open>Rounding as Python does it: to nearest, ties to even.\<close>

definition round_half_even :: "rat \<Rightarrow> int" where
  "round_half_even x = (let f = floor x; d = x - of_int f in
     if d < 1 / 2 then f else if d > 1 / 2 then f + 1 else if even f then f else f + 1)"

definition round1 :: "rat \<Rightarrow> rat" where
  "round1 x = of_int (round_half_even (10 * x)) / 10"

definition fmt_0f :: "rat \<Rightarrow> string" where
  "fmt_0f x = show_int (round_half_even x)"

lemma startswith_Nil [simp]: "startswith s []"
  by (simp add: startswith_def)

lemma startswith_iff: "startswith s p \<longleftrightarrow> (\<exists>t. s = p @ t)"
proof
  assume "startswith s p"
  then have "s = p @ drop (length p) s"
    by (metis append_take_drop_id startswith_def)
  then show "\<exists>t. s = p @ t" by blast
qed (auto simp: startswith_def)

lemma startswith_length: "startswith s p \<Longrightarrow> length p \<le> length s"
  by (auto simp: startswith_iff)

lemma split_on_not_Nil: "split_on c s \<noteq> []"
  by (induction c s rule: split_on.induct) (auto split: list.splits)

section \<open>Values read from YAML and JSON\<close>

text \<open>
  A decoded document. Mapping keys are strings; floating-point numbers are
  finite. \<open>truthy\<close> is Python's truth test.
\<close>

datatype pyval =
    PNone
  | PBool bool
  | PInt int
  | PFloat rat
  | PStr string
  | PList "pyval list"
  | PDict "(string \<times> pyval) list"

fun truthy :: "pyval \<Rightarrow> bool" where
  "truthy PNone = False"
| "truthy (PBool b) = b"
| "truthy (PInt i) = (i \<noteq> 0)"
| "truthy (PFloat r) = (r \<noteq> 0)"
| "truthy (PStr s) = (s \<noteq> [])"
| "truthy (PList xs) = (xs \<noteq> [])"
| "truthy (PDict d) = (d \<noteq> [])"

fun is_dict :: "pyval \<Rightarrow> bool" where
  "is_dict (PDict d) = True"
| "is_dict _ = False"

fun is_str :: "pyval \<Rightarrow> bool" where
  "is_str (PStr s) = True"
| "is_str _ = False"

text \<open>\<open>repr\<close> of a string: single quotes unless it holds a single and no double one; the
  quote, the backslash and what does not print are escaped.\<close>

definition repr_char :: "char \<Rightarrow> char \<Rightarrow> string" where
  "repr_char qt c = (let n = (of_char c :: nat) in
     if c = qt \<or> n = 92 then [char_of (92 :: nat), c]
     else if n = 9 then [char_of (92 :: nat), CHR ''t'']
     else if n = 10 then [char_of (92 :: nat), CHR ''n'']
     else if n = 13 then [char_of (92 :: nat), CHR ''r'']
     else if n < 32 \<or> 127 \<le> n \<and> n \<le> 160 \<or> n = 173
     then [char_of (92 :: nat), CHR ''x'', lower_hex (n div 16), lower_hex (n mod 16)]
     else [c])"

definition py_repr :: "string \<Rightarrow> string" where
  "py_repr s =
     (let single = char_of (39 :: nat); double = char_of (34 :: nat);
          qt = (if single \<in> set s \<and> double \<notin> set s then double else single)
      in [qt] @ concat (map (repr_char qt) s) @ [qt])"

text \<open>\<open>sep.join(xs)\<close>, and \<open>repr\<close> of a value; \<open>fl\<close> is the text of a float.\<close>

definition join :: "string \<Rightarrow> string list \<Rightarrow> string" where
  "join sep xs = (case xs of [] \<Rightarrow> [] | y # ys \<Rightarrow> y @ concat (map (\<lambda>z. sep @ z) ys))"

fun repr_val :: "(rat \<Rightarrow> string) \<Rightarrow> pyval \<Rightarrow> string" where
  "repr_val fl PNone = ''None''"
| "repr_val fl (PBool b) = (if b then ''True'' else ''False'')"
| "repr_val fl (PInt i) = show_int i"
| "repr_val fl (PFloat r) = fl r"
| "repr_val fl (PStr s) = py_repr s"
| "repr_val fl (PList xs) = ''['' @ join '', '' (map (repr_val fl) xs) @ '']''"
| "repr_val fl (PDict d) =
     ''{'' @ join '', '' (map (\<lambda>kv. py_repr (fst kv) @ '': '' @ repr_val fl (snd kv)) d) @ ''}''"

text \<open>\<open>str\<close> of a value: a string is itself.\<close>

definition str_val :: "(rat \<Rightarrow> string) \<Rightarrow> pyval \<Rightarrow> string" where
  "str_val fl v = (case v of PStr s \<Rightarrow> s | _ \<Rightarrow> repr_val fl v)"

section \<open>Exceptions as values\<close>

text \<open>What a fallible operation raises: the error of the configuration loader with its message,
  or any other exception, by its name.\<close>

datatype exn = ConfigError string | OtherExn string

type_synonym 'a res = "exn + 'a"

definition res_bind :: "'e + 'a \<Rightarrow> ('a \<Rightarrow> 'e + 'b) \<Rightarrow> 'e + 'b" where
  "res_bind m f = (case m of Inl x \<Rightarrow> Inl x | Inr v \<Rightarrow> f v)"

lemma res_bind_simps [simp]: "res_bind (Inl x) f = Inl x" "res_bind (Inr v) f = f v"
  by (simp_all add: res_bind_def)

lemma res_bind_Inr: "res_bind m f = Inr v \<longleftrightarrow> (\<exists>u. m = Inr u \<and> f u = Inr v)"
  by (cases m) simp_all

lemma res_bind_Inl: "res_bind m f = Inl x \<longleftrightarrow> m = Inl x \<or> (\<exists>u. m = Inr u \<and> f u = Inl x)"
  by (cases m) simp_all

text \<open>\<open>for x in xs: ...\<close> with a body that may raise, collecting the results.\<close>

fun map_res :: "('a \<Rightarrow> 'e + 'b) \<Rightarrow> 'a list \<Rightarrow> 'e + 'b list" where
  "map_res f [] = Inr []"
| "map_res f (x # xs) = res_bind (f x) (\<lambda>y. res_bind (map_res f xs) (\<lambda>ys. Inr (y # ys)))"

lemma map_res_Inr: "map_res f xs = Inr ys \<longleftrightarrow> list_all2 (\<lambda>x y. f x = Inr y) xs ys"
proof (induction xs arbitrary: ys)
  case (Cons x xs)
  show ?case by (cases ys) (auto simp: res_bind_Inr Cons.IH)
qed auto

section \<open>Handlers of the event loop\<close>

text \<open>
  A handler takes the state it acts on and returns a value or the exception that escapes it,
  with the state it leaves behind either way. \<open>hbind\<close> is the sequence of two handlers.
\<close>

definition hret :: "'a \<Rightarrow> 's \<Rightarrow> 'a res \<times> 's" where
  "hret v s = (Inr v, s)"

definition hbind :: "('s \<Rightarrow> 'a res \<times> 's) \<Rightarrow> ('a \<Rightarrow> 's \<Rightarrow> 'c res \<times> 's) \<Rightarrow> 's \<Rightarrow> 'c res \<times> 's" where
  "hbind m f s = (case m s of (Inl x, s') \<Rightarrow> (Inl x, s') | (Inr v, s') \<Rightarrow> f v s')"

definition hmod :: "('s \<Rightarrow> 's) \<Rightarrow> 's \<Rightarrow> unit res \<times> 's" where
  "hmod f s = (Inr (), f s)"

lemma hbind_simps [simp]:
  "m s = (Inr v, s') \<Longrightarrow> hbind m f s = f v s'"
  "m s = (Inl x, s') \<Longrightarrow> hbind m f s = (Inl x, s')"
  by (simp_all add: hbind_def)

lemma hbind_hmod [simp]: "hbind (hmod g) f s = f () (g s)"
  by (simp add: hmod_def hbind_def)

lemma hbind_hret [simp]: "hbind (hret v) f s = f v s"
  by (simp add: hret_def hbind_def)

lemma snd_hbind: "snd (hbind m f s) = (case fst (m s) of Inl x \<Rightarrow> snd (m s) | Inr v \<Rightarrow> snd (f v (snd (m s))))"
  by (simp add: hbind_def split: prod.split sum.split)

lemma snd_hmod [simp]: "snd (hmod g s) = g s" and fst_hmod [simp]: "fst (hmod g s) = Inr ()"
  by (simp_all add: hmod_def)

lemma snd_hret [simp]: "snd (hret v s) = s" and fst_hret [simp]: "fst (hret v s) = Inr v"
  by (simp_all add: hret_def)

lemma fst_hbind: "fst (hbind m f s) = (case fst (m s) of Inl x \<Rightarrow> Inl x | Inr v \<Rightarrow> fst (f v (snd (m s))))"
  by (simp add: hbind_def split: prod.split sum.split)

lemma hbind_Inr:
  "hbind m f s = (Inr v, s') \<longleftrightarrow> (\<exists>x u. m s = (Inr x, u) \<and> f x u = (Inr v, s'))"
  by (auto simp: hbind_def split: prod.splits sum.splits)

text \<open>What a handler keeps of the state, from start to end, when every step keeps it.\<close>

locale kept_relation =
  fixes P :: "'s \<Rightarrow> 's \<Rightarrow> bool"
  assumes kept_refl: "P s s"
    and kept_trans: "P s t \<Longrightarrow> P t u \<Longrightarrow> P s u"
begin

lemma keeps_bind:
  "(\<And>s. P s (snd (m s))) \<Longrightarrow> (\<And>v s. P s (snd (f v s))) \<Longrightarrow> P s (snd (hbind m f s))"
  using kept_trans by (simp add: snd_hbind split: sum.split) blast

lemma keeps_hret: "P s (snd (hret v s))"
  by (simp add: kept_refl)

lemma keeps_hmod: "(\<And>s. P s (g s)) \<Longrightarrow> P s (snd (hmod g s))"
  by simp

lemma keeps_then_return: "(\<And>s. P s (snd (m s))) \<Longrightarrow> P s (snd (hbind m (\<lambda>_. hret c) s))"
  by (rule keeps_bind, assumption, rule keeps_hret)

end


section \<open>Truthiness of optional strings and list helpers\<close>

fun str_or :: "string option \<Rightarrow> string \<Rightarrow> string" where
  "str_or (Some s) d = (if s = [] then d else s)"
| "str_or None d = d"

definition str_get :: "(string, string) dict \<Rightarrow> string \<Rightarrow> string \<Rightarrow> string" where
  "str_get d k dflt = (case dict_get d k of None \<Rightarrow> dflt | Some v \<Rightarrow> v)"

text \<open>\<open>d.get(k)\<close> used as a condition: present and non-empty.\<close>

definition str_present :: "(string, string) dict \<Rightarrow> string \<Rightarrow> bool" where
  "str_present d k = (case dict_get d k of None \<Rightarrow> False | Some v \<Rightarrow> v \<noteq> [])"

lemma str_present_iff: "str_present d k \<longleftrightarrow> (\<exists>v. dict_get d k = Some v \<and> v \<noteq> [])"
  by (auto simp: str_present_def split: option.splits)

lemma find_None_iff_all: "List.find P xs = None \<longleftrightarrow> (\<forall>x \<in> set xs. \<not> P x)"
  by (auto simp: find_None_iff)

lemma find_SomeD: "List.find P xs = Some x \<Longrightarrow> x \<in> set xs \<and> P x"
  by (auto simp: find_Some_iff)

lemma find_append:
  "List.find P (xs @ ys) = (case List.find P xs of Some y \<Rightarrow> Some y | None \<Rightarrow> List.find P ys)"
  by (induction xs) auto

lemma find_Some_split:
  "List.find P xs = Some x \<Longrightarrow> \<exists>us vs. xs = us @ x # vs \<and> P x \<and> (\<forall>u \<in> set us. \<not> P u)"
proof (induction xs)
  case (Cons y xs)
  show ?case
  proof (cases "P y")
    case True
    with Cons.prems show ?thesis by (intro exI [of _ "[]"] exI [of _ xs]) auto
  next
    case False
    with Cons obtain us vs where "xs = us @ x # vs" "P x" "\<forall>u \<in> set us. \<not> P u" by auto
    with False show ?thesis by (intro exI [of _ "y # us"] exI [of _ vs]) auto
  qed
qed simp

lemma length_remove1_less: "x \<in> set xs \<Longrightarrow> length (remove1 x xs) < length xs"
  using length_pos_if_in_set [of x xs] by (simp add: length_remove1)

section \<open>Runs of a machine\<close>

text \<open>
  Several components are machines driven by events of the event loop. The interface
  is a step function and an invariant its steps keep under a guard on the event; a
  run of guarded events then keeps the invariant.
\<close>

locale machine =
  fixes step :: "'e \<Rightarrow> 's \<Rightarrow> 's"
    and guard :: "'e \<Rightarrow> 's \<Rightarrow> bool"
    and inv :: "'s \<Rightarrow> bool"
  assumes step_inv: "inv s \<Longrightarrow> guard e s \<Longrightarrow> inv (step e s)"
begin

primrec run :: "'e list \<Rightarrow> 's \<Rightarrow> 's" where
  "run [] s = s"
| "run (e # es) s = run es (step e s)"

primrec guarded :: "'e list \<Rightarrow> 's \<Rightarrow> bool" where
  "guarded [] s = True"
| "guarded (e # es) s = (guard e s \<and> guarded es (step e s))"

inductive reach :: "'s \<Rightarrow> 's \<Rightarrow> bool" where
  reach_refl: "reach s s"
| reach_step: "reach s t \<Longrightarrow> guard e t \<Longrightarrow> reach s (step e t)"

lemma run_inv: "inv s \<Longrightarrow> guarded es s \<Longrightarrow> inv (run es s)"
  by (induction es arbitrary: s) (auto intro: step_inv)

lemma reach_inv: "reach s t \<Longrightarrow> inv s \<Longrightarrow> inv t"
  by (induction rule: reach.induct) (auto intro: step_inv)

lemma reach_trans: "reach t u \<Longrightarrow> reach s t \<Longrightarrow> reach s u"
  by (induction rule: reach.induct) (auto intro: reach_step)

lemma run_reach: "guarded es s \<Longrightarrow> reach s (run es s)"
proof (induction es arbitrary: s)
  case (Cons e es)
  then have "reach (step e s) (run es (step e s))" and "reach s (step e s)"
    by (auto intro: reach_refl reach_step)
  then show ?case by (auto intro: reach_trans)
qed (simp add: reach_refl)

end

end
