(* ===== verification/Relay_Models.thy ===== *)
theory Relay_Models
  imports Relay_Prelude
begin

text \<open>
  The configuration dataclasses of relay/models.py as records. String-valued enums
  (routing, wait policy, request mode, server type) stay strings, as in the source.
  A field default of the source is the value the loader (theory \<open>Relay_Config\<close>)
  fills in; the \<open>default_\<close> definitions below are the dataclasses' own defaults,
  where every field has one.
\<close>

record store_config =
  st_path :: string
  st_retention_days :: int

definition default_store_config :: store_config where
  "default_store_config = \<lparr>st_path = ''./relay.db'', st_retention_days = 90\<rparr>"

record proxy_config =
  px_host :: string
  px_port :: int
  px_unknown_path_policy :: string
  px_target_read_timeout :: int
  px_session_id_headers :: "string list"
  px_shutdown_tick :: time
  px_store :: store_config

definition default_proxy_config :: proxy_config where
  "default_proxy_config =
     \<lparr>px_host = ''0.0.0.0'', px_port = 8000, px_unknown_path_policy = ''allow'',
      px_target_read_timeout = 0, px_session_id_headers = [''x-session-id''],
      px_shutdown_tick = 60, px_store = default_store_config\<rparr>"

record readiness_config =
  rd_path :: string
  rd_method :: string
  rd_interval :: time
  rd_timeout :: time
  rd_healthy_statuses :: "int list"

definition default_readiness_config :: readiness_config where
  "default_readiness_config =
     \<lparr>rd_path = ''/health'', rd_method = ''GET'', rd_interval = 5, rd_timeout = 2,
      rd_healthy_statuses = [200]\<rparr>"

record session_config =
  sc_per_session_requests :: int
  sc_request_mode :: string
  sc_busy_window :: time
  sc_expiry :: time
  sc_immediate_idle_release :: bool

definition default_session_config :: session_config where
  "default_session_config =
     \<lparr>sc_per_session_requests = -1, sc_request_mode = ''parallel'', sc_busy_window = 120,
      sc_expiry = 300, sc_immediate_idle_release = True\<rparr>"

record endpoint_config =
  ec_name :: string
  ec_server :: string
  ec_path_prefix :: string
  ec_catch_all :: bool
  ec_readiness :: readiness_config
  ec_wait_policy :: string
  ec_routing :: string
  ec_concurrency :: int
  ec_queue_timeout :: time
  ec_session :: session_config
  ec_session_id_body_fields :: "string list"

definition default_endpoint_config :: "string \<Rightarrow> string \<Rightarrow> string \<Rightarrow> endpoint_config" where
  "default_endpoint_config name server path_prefix =
     \<lparr>ec_name = name, ec_server = server, ec_path_prefix = path_prefix, ec_catch_all = False,
      ec_readiness = default_readiness_config, ec_wait_policy = ''wait'',
      ec_routing = ''queued'', ec_concurrency = 1, ec_queue_timeout = 0,
      ec_session = default_session_config, ec_session_id_body_fields = []\<rparr>"

record redfish_power_config =
  rf_host :: string
  rf_user :: string
  rf_password :: string
  rf_base_url :: "string option"
  rf_system_path :: string
  rf_verify_ssl :: bool

record noop_power_config =
  np_initial_state :: string

record aws_power_config =
  aw_region :: string
  aw_instance_id :: string
  aw_access_key :: "string option"
  aw_secret_key :: "string option"
  aw_session_token :: "string option"
  aw_profile :: "string option"
  aw_off_action :: string

datatype power_config =
    RedfishPowerConfig redfish_power_config
  | NoopPowerConfig noop_power_config
  | AwsEc2PowerConfig aws_power_config

record server_config =
  vc_name :: string
  vc_type :: string
  vc_power :: power_config
  vc_service_url :: string
  vc_idle_timeout :: time
  vc_shutdown_enabled :: bool
  vc_adopt_on_traffic :: bool
  vc_schedule :: "string option"

definition default_server_config :: "string \<Rightarrow> string \<Rightarrow> power_config \<Rightarrow> string \<Rightarrow> server_config" where
  "default_server_config name type pw service_url =
     \<lparr>vc_name = name, vc_type = type, vc_power = pw, vc_service_url = service_url,
      vc_idle_timeout = 3600, vc_shutdown_enabled = True, vc_adopt_on_traffic = True,
      vc_schedule = None\<rparr>"

record match_config =
  mc_ua_prefix :: string
  mc_session_headers :: "string list"
  mc_gated_session_headers :: "string list"

record status_config =
  sx_kind :: string
  sx_port :: int
  sx_password :: string
  sx_poll_interval :: time
  sx_status_path :: string
  sx_session_path :: string
  sx_pending_paths :: "string list"

record children_config =
  ch_kind :: string
  ch_depth :: int

record client_config =
  cc_name :: string
  cc_match :: match_config
  cc_status :: status_config
  cc_children :: children_config

definition default_client_config :: "string \<Rightarrow> client_config" where
  "default_client_config name =
     \<lparr>cc_name = name,
      cc_match = \<lparr>mc_ua_prefix = [], mc_session_headers = [], mc_gated_session_headers = []\<rparr>,
      cc_status = \<lparr>sx_kind = ''opencode'', sx_port = 4096, sx_password = [], sx_poll_interval = 5,
        sx_status_path = ''/session/status'', sx_session_path = ''/session'', sx_pending_paths = []\<rparr>,
      cc_children = \<lparr>ch_kind = ''none'', ch_depth = 10\<rparr>\<rparr>"

record relay_config =
  rc_proxy :: proxy_config
  rc_servers :: "server_config list"
  rc_endpoints :: "endpoint_config list"
  rc_clients :: "client_config list"

end
