(* ===== verification/Relay_Queue.thy ===== *)
theory Relay_Queue
  imports Relay_Models
begin

text \<open>
  The per-endpoint session queue of relay/queue.py: FIFO waiting, spots, promotion,
  the status and release-deadline rules, the 1 s tick, and the monitor snapshot.

  \<open>Session\<close> and \<open>QueueEntry\<close> are mutable objects shared by reference (an entry holds
  its session, the handler keeps its entry after it left the queue), so a queue keeps
  an explicit store: \<open>q_heap\<close> maps session references to sessions, \<open>q_entries\<close>
  entry references to entries. The \<open>request\<close> of an entry is the client connection;
  what the code asks it (has the client gone?) is an argument where it is asked.
  An operation takes the clock reading of its synchronous stretch as \<open>now\<close>.
\<close>

section \<open>Sessions, entries, the queue\<close>

type_synonym skey = "string \<times> string"
type_synonym sref = nat
type_synonym eref = nat

record session =
  s_key :: skey
  s_client :: string
  s_session_id :: string
  s_api :: string
  s_client_ip :: string
  s_user_agent :: string
  s_created_at :: time
  s_last_request_at :: time
  s_last_path :: string
  s_status :: string
  s_status_detail :: string
  s_inflight :: int
  s_waiting :: int
  s_spot_held :: bool
  s_spot_acquired_at :: time
  s_shared_spot_key :: "skey option"
  s_idle_since :: "time option"
  s_client_status :: "string option"
  s_client_status_detail :: string
  s_client_status_at :: time

definition new_session :: "skey \<Rightarrow> string \<Rightarrow> string \<Rightarrow> string \<Rightarrow> string \<Rightarrow> string \<Rightarrow> time \<Rightarrow> session" where
  "new_session key client session_id api client_ip user_agent now =
     \<lparr>s_key = key, s_client = client, s_session_id = session_id, s_api = api,
      s_client_ip = client_ip, s_user_agent = user_agent, s_created_at = now,
      s_last_request_at = now, s_last_path = [], s_status = ''busy'', s_status_detail = [],
      s_inflight = 0, s_waiting = 0, s_spot_held = False, s_spot_acquired_at = 0,
      s_shared_spot_key = None, s_idle_since = None, s_client_status = None,
      s_client_status_detail = [], s_client_status_at = 0\<rparr>"

record entry =
  e_session :: sref
  e_path :: string
  e_body :: string
  e_enqueued_at :: time
  e_go :: bool
  e_done :: bool

definition new_entry :: "sref \<Rightarrow> string \<Rightarrow> string \<Rightarrow> time \<Rightarrow> entry" where
  "new_entry r path body now =
     \<lparr>e_session = r, e_path = path, e_body = body, e_enqueued_at = now, e_go = False, e_done = False\<rparr>"

record equeue =
  q_max_spots :: int
  q_max_inflight_per_session :: int
  q_busy_window :: time
  q_session_expiry :: time
  q_atomic_requests :: bool
  q_inflight_total :: int
  q_immediate_idle_release :: bool
  q_sessions :: "(skey, sref) dict"
  q_spots :: "(skey, time) dict"
  q_queue :: "eref list"
  q_ready :: bool
  q_heap :: "sref \<Rightarrow> session"
  q_entries :: "eref \<Rightarrow> entry"
  q_next_session :: sref
  q_next_entry :: eref

definition init_queue :: "int \<Rightarrow> int \<Rightarrow> time \<Rightarrow> time \<Rightarrow> bool \<Rightarrow> bool \<Rightarrow> equeue" where
  "init_queue max_spots max_inflight_per_session busy_window session_expiry atomic_requests
     immediate_idle_release =
     \<lparr>q_max_spots = max 1 max_spots, q_max_inflight_per_session = max_inflight_per_session,
      q_busy_window = busy_window, q_session_expiry = session_expiry,
      q_atomic_requests = atomic_requests, q_inflight_total = 0,
      q_immediate_idle_release = immediate_idle_release, q_sessions = [], q_spots = [],
      q_queue = [], q_ready = False,
      q_heap = (\<lambda>_. new_session ([], []) [] [] [] [] [] 0),
      q_entries = (\<lambda>_. new_entry 0 [] [] 0), q_next_session = 0, q_next_entry = 0\<rparr>"

abbreviation sess :: "equeue \<Rightarrow> sref \<Rightarrow> session" where
  "sess q r \<equiv> q_heap q r"

abbreviation ent :: "equeue \<Rightarrow> eref \<Rightarrow> entry" where
  "ent q e \<equiv> q_entries q e"

definition upd_sess :: "sref \<Rightarrow> (session \<Rightarrow> session) \<Rightarrow> equeue \<Rightarrow> equeue" where
  "upd_sess r f q = q\<lparr>q_heap := (q_heap q)(r := f (q_heap q r))\<rparr>"

definition upd_entry :: "eref \<Rightarrow> (entry \<Rightarrow> entry) \<Rightarrow> equeue \<Rightarrow> equeue" where
  "upd_entry e f q = q\<lparr>q_entries := (q_entries q)(e := f (q_entries q e))\<rparr>"

section \<open>Session handling\<close>

definition get_or_create_session ::
    "string \<Rightarrow> string \<Rightarrow> string \<Rightarrow> string \<Rightarrow> string \<Rightarrow> time \<Rightarrow> equeue \<Rightarrow> sref \<times> equeue" where
  "get_or_create_session client session_id api client_ip user_agent now q =
     (let key = (client, session_id) in
      case dict_get (q_sessions q) key of
        None \<Rightarrow>
          (let r = q_next_session q in
           (r, q\<lparr>q_heap := (q_heap q)(r := new_session key client session_id api client_ip user_agent now),
                 q_next_session := r + 1,
                 q_sessions := dict_put key r (q_sessions q)\<rparr>))
      | Some r \<Rightarrow>
          (r, upd_sess r (\<lambda>s. s\<lparr>s_api := api, s_client_ip := client_ip,
                                s_last_request_at := now, s_idle_since := None\<rparr>) q))"

text \<open>The \<open>QueueEntry(...)\<close> constructor call: a fresh entry object.\<close>

definition alloc_entry :: "sref \<Rightarrow> string \<Rightarrow> string \<Rightarrow> time \<Rightarrow> equeue \<Rightarrow> eref \<times> equeue" where
  "alloc_entry r path body now q =
     (let e = q_next_entry q in
      (e, q\<lparr>q_entries := (q_entries q)(e := new_entry r path body now), q_next_entry := e + 1\<rparr>))"

section \<open>Promotion\<close>

definition spot_key :: "equeue \<Rightarrow> session \<Rightarrow> skey option" where
  "spot_key q s =
     (if dict_has (q_spots q) (s_key s) then Some (s_key s)
      else case s_shared_spot_key s of
             None \<Rightarrow> None
           | Some shared \<Rightarrow> if dict_has (q_spots q) shared then Some shared else None)"

definition eligible :: "equeue \<Rightarrow> eref \<Rightarrow> bool" where
  "eligible q e =
     (if q_atomic_requests q \<and> 0 < q_inflight_total q then False
      else let s = sess q (e_session (ent q e)) in
        if spot_key q s \<noteq> None then
          (let cap = q_max_inflight_per_session q in
           if cap < 0 then True else s_inflight s < cap)
        else int (length (q_spots q)) < q_max_spots q)"

definition promote :: "time \<Rightarrow> eref \<Rightarrow> equeue \<Rightarrow> equeue" where
  "promote now e q0 =
     (let r = e_session (ent q0 e);
          q = q0\<lparr>q_queue := remove1 e (q_queue q0)\<rparr>;
          q = upd_entry e (\<lambda>x. x\<lparr>e_done := True\<rparr>) q;
          q = upd_sess r (\<lambda>s. s\<lparr>s_waiting := s_waiting s - 1, s_inflight := s_inflight s + 1\<rparr>) q;
          q = q\<lparr>q_inflight_total := q_inflight_total q + 1\<rparr>;
          q = upd_sess r (\<lambda>s. s\<lparr>s_idle_since := None\<rparr>) q;
          q = (if spot_key q (sess q r) = None
               then upd_sess r (\<lambda>s. s\<lparr>s_spot_held := True, s_spot_acquired_at := now\<rparr>)
                      (q\<lparr>q_spots := dict_put (s_key (sess q r)) now (q_spots q)\<rparr>)
               else q);
          q = upd_sess r (\<lambda>s. s\<lparr>s_status := ''busy'', s_status_detail := ''in-flight request''\<rparr>) q
      in upd_entry e (\<lambda>x. x\<lparr>e_go := True\<rparr>) q)"

lemma promote_queue [simp]: "q_queue (promote now e q) = remove1 e (q_queue q)"
  by (simp add: promote_def Let_def upd_sess_def upd_entry_def)

lemma find_eligible_in: "List.find P xs = Some e \<Longrightarrow> e \<in> set xs"
  by (auto simp: find_Some_iff)

text \<open>The \<open>while True\<close> of \<open>_try_promote\<close>: every turn shortens the waiting queue.\<close>

function promote_loop :: "time \<Rightarrow> equeue \<Rightarrow> equeue" where
  "promote_loop now q =
     (case List.find (eligible q) (q_queue q) of
        None \<Rightarrow> q
      | Some target \<Rightarrow> promote_loop now (promote now target q))"
  by pat_completeness auto
termination
  by (relation "measure (\<lambda>(now, q). length (q_queue q))")
     (auto dest: find_eligible_in intro: length_remove1_less)

declare promote_loop.simps [simp del]

definition try_promote :: "time \<Rightarrow> equeue \<Rightarrow> equeue" where
  "try_promote now q = (if \<not> q_ready q then q else promote_loop now q)"

definition enqueue :: "time \<Rightarrow> eref \<Rightarrow> equeue \<Rightarrow> equeue" where
  "enqueue now e q =
     (let r = e_session (ent q e);
          q = upd_sess r (\<lambda>s. s\<lparr>s_waiting := s_waiting s + 1, s_last_path := e_path (ent q e)\<rparr>) q
      in try_promote now (q\<lparr>q_queue := q_queue q @ [e]\<rparr>))"

section \<open>Leaving the queue and releasing\<close>

definition remove_waiting :: "eref \<Rightarrow> equeue \<Rightarrow> equeue" where
  "remove_waiting e q =
     (if e_done (ent q e) then q
      else upd_sess (e_session (ent q e)) (\<lambda>s. s\<lparr>s_waiting := max 0 (s_waiting s - 1)\<rparr>)
             (q\<lparr>q_queue := remove1 e (q_queue q)\<rparr>))"

definition abandon :: "eref \<Rightarrow> equeue \<Rightarrow> equeue" where
  "abandon e q = remove_waiting e q"

definition release_spot :: "time \<Rightarrow> sref \<Rightarrow> skey \<Rightarrow> equeue \<Rightarrow> equeue" where
  "release_spot now r key q0 =
     (let q = q0\<lparr>q_spots := dict_pop key (q_spots q0)\<rparr>;
          q = upd_sess r (\<lambda>s. s\<lparr>s_spot_held := False, s_idle_since := None\<rparr>) q;
          q = (if s_waiting (sess q r) = 0 \<and> s_inflight (sess q r) = 0
               then q\<lparr>q_sessions := dict_pop key (q_sessions q)\<rparr> else q)
      in try_promote now q)"

definition release_session :: "time \<Rightarrow> string \<Rightarrow> string \<Rightarrow> equeue \<Rightarrow> bool \<times> equeue" where
  "release_session now client session_id q =
     (let key = (client, session_id) in
      case dict_get (q_sessions q) key of
        None \<Rightarrow> (False, q)
      | Some r \<Rightarrow> if \<not> s_spot_held (sess q r) then (False, q) else (True, release_spot now r key q))"

definition release :: "time \<Rightarrow> eref \<Rightarrow> equeue \<Rightarrow> equeue" where
  "release now e q0 =
     (let r = e_session (ent q0 e);
          q = (if 0 < s_inflight (sess q0 r)
               then upd_sess r (\<lambda>s. s\<lparr>s_inflight := s_inflight s - 1\<rparr>)
                      (q0\<lparr>q_inflight_total := max 0 (q_inflight_total q0 - 1)\<rparr>)
               else q0);
          q = upd_sess r (\<lambda>s. s\<lparr>s_last_request_at := now\<rparr>) q
      in try_promote now q)"

section \<open>Waiting for a slot\<close>

text \<open>
  \<open>wait_for_slot\<close> sleeps a second between polls while other tasks run. One poll sees
  the entry, the answer of \<open>is_disconnected\<close> and the clock; the loop is a recursion
  over the polls, and \<open>None\<close> says that it is still waiting after the last one.
\<close>

datatype wait_result = WOk | WDisconnected | WTimedOut

record slot_poll =
  p_go :: bool
  p_gone :: bool
  p_now :: time

definition wait_deadline :: "time option \<Rightarrow> time \<Rightarrow> time option" where
  "wait_deadline timeout from_time =
     (case timeout of None \<Rightarrow> None | Some t \<Rightarrow> if 0 < t then Some (from_time + t) else None)"

definition past_deadline :: "time option \<Rightarrow> time \<Rightarrow> bool" where
  "past_deadline deadline now = (case deadline of None \<Rightarrow> False | Some d \<Rightarrow> d \<le> now)"

fun wait_loop :: "time option \<Rightarrow> slot_poll list \<Rightarrow> wait_result option" where
  "wait_loop deadline [] = None"
| "wait_loop deadline (p # ps) =
     (if p_go p then Some WOk
      else if p_gone p then Some WDisconnected
      else if past_deadline deadline (p_now p) then Some WTimedOut
      else wait_loop deadline ps)"

definition wait_for_slot :: "entry \<Rightarrow> time option \<Rightarrow> slot_poll list \<Rightarrow> wait_result option" where
  "wait_for_slot x timeout polls = wait_loop (wait_deadline timeout (e_enqueued_at x)) polls"

section \<open>Status and spot lifecycle\<close>

definition status_unreachable_grace :: time where
  "status_unreachable_grace = 30"

definition unknown :: string where
  "unknown = ''unknown''"

definition current_status :: "equeue \<Rightarrow> session \<Rightarrow> time \<Rightarrow> string \<times> string" where
  "current_status q s now =
     (if 0 < s_inflight s then (''busy'', ''in-flight request'')
      else if s_client s \<noteq> unknown then
        (case s_client_status s of
           None \<Rightarrow> (''idle'', [])
         | Some cs \<Rightarrow>
             if cs \<noteq> [] \<and> now - s_client_status_at s < status_unreachable_grace
             then (cs, s_client_status_detail s) else (''idle'', []))
      else if now - s_last_request_at s < q_busy_window q then (''busy'', [])
      else (''idle'', []))"

definition fresh_client_report :: "session \<Rightarrow> time \<Rightarrow> bool" where
  "fresh_client_report s now =
     (s_client_status s \<noteq> None \<and> 0 < s_client_status_at s \<and>
      now - s_client_status_at s < status_unreachable_grace)"

definition release_deadline :: "equeue \<Rightarrow> session \<Rightarrow> time \<Rightarrow> time option" where
  "release_deadline q s now =
     (if 0 < s_inflight s then None
      else if s_client s \<noteq> unknown then
        (if s_status s \<notin> {''idle'', ''waiting''} then None
         else case s_idle_since s of
           None \<Rightarrow> None
         | Some idle \<Rightarrow>
             if s_status s = ''waiting'' then
               (if fresh_client_report s now then Some idle else Some (idle + q_session_expiry q))
             else if q_immediate_idle_release q \<and> s_client_status s = Some ''idle'' \<and>
                     fresh_client_report s now \<and> s_last_request_at s < s_client_status_at s
             then Some idle
             else Some (idle + q_session_expiry q))
      else Some (s_last_request_at s + max (q_busy_window q) (q_session_expiry q)))"

definition release_reason :: "equeue \<Rightarrow> session \<Rightarrow> time \<Rightarrow> string" where
  "release_reason q s now =
     (if s_status s = ''waiting'' \<and> fresh_client_report s now
      then ''waiting for input ('' @ s_client_status_detail s @ '')''
      else if s_client_status s = Some ''idle'' \<and> fresh_client_report s now
      then ''client reports idle (absent from status map)''
      else ''idle for '' @ fmt_0f (q_session_expiry q) @ ''s'')"

text \<open>One turn of the loop of \<open>tick\<close>; \<open>clk\<close> is the clock \<open>_try_promote\<close> reads.\<close>

definition tick_status :: "time \<Rightarrow> sref \<Rightarrow> equeue \<Rightarrow> equeue" where
  "tick_status now r q =
     (let (status, detail) = current_status q (sess q r) now in
      upd_sess r (\<lambda>s. s\<lparr>s_status := status, s_status_detail := detail,
          s_idle_since :=
            (if status \<in> {''idle'', ''waiting''}
             then (case s_idle_since s of None \<Rightarrow> Some now | Some i \<Rightarrow> Some i)
             else None)\<rparr>) q)"

definition tick_one ::
    "time \<Rightarrow> time \<Rightarrow> skey \<times> sref \<Rightarrow> equeue \<times> (skey \<times> string) list \<Rightarrow> equeue \<times> (skey \<times> string) list" where
  "tick_one now clk kr acc =
     (case kr of (key, r) \<Rightarrow> case acc of (q0, released) \<Rightarrow>
      let q = tick_status now r q0; s = sess q r in
      if s_spot_held s then
        (case release_deadline q s now of
           None \<Rightarrow> (q, released)
         | Some deadline \<Rightarrow>
             if deadline \<le> now
             then (release_spot clk r key q, released @ [(key, release_reason q s now)])
             else (q, released))
      else if s_waiting s = 0 \<and> s_inflight s = 0
      then (q\<lparr>q_sessions := dict_pop key (q_sessions q)\<rparr>, released)
      else (q, released))"

definition tick :: "time \<Rightarrow> time \<Rightarrow> equeue \<Rightarrow> (skey \<times> string) list \<times> equeue" where
  "tick now clk q =
     (let (q', released) = fold (tick_one now clk) (q_sessions q) (q, []) in (released, q'))"

definition has_activity :: "equeue \<Rightarrow> bool" where
  "has_activity q = (q_queue q \<noteq> [] \<or> q_spots q \<noteq> [])"

section \<open>Monitor snapshot\<close>

text \<open>\<open>first_pos\<close>: for each session key with waiting requests, the 1-based position of
  its earliest entry.\<close>

definition first_pos :: "equeue \<Rightarrow> (skey, nat) dict" where
  "first_pos q =
     fold (\<lambda>(i, e) d. dict_setdefault (s_key (sess q (e_session (ent q e)))) i d)
       (List.enumerate 1 (q_queue q)) []"

definition push_new :: "sref \<Rightarrow> sref list \<Rightarrow> sref list" where
  "push_new r ordered = (if r \<in> set ordered then ordered else ordered @ [r])"

definition snapshot_order :: "equeue \<Rightarrow> sref list" where
  "snapshot_order q =
     (let holders = List.map_filter (\<lambda>k. dict_get (q_sessions q) k) (dict_keys (q_spots q));
          waiters = fold (\<lambda>k acc. case dict_get (q_sessions q) k of None \<Rightarrow> acc | Some r \<Rightarrow> push_new r acc)
                      (dict_keys (first_pos q)) holders
      in fold (\<lambda>(k, r) acc.
            case s_shared_spot_key (sess q r) of
              None \<Rightarrow> acc
            | Some shared \<Rightarrow> if dict_has (q_spots q) shared then push_new r acc else acc)
          (q_sessions q) waiters)"

record snapshot_row =
  r_position :: nat
  r_session :: string
  r_client :: string
  r_api :: string
  r_status :: string
  r_detail :: string
  r_client_status :: "string option"
  r_client_status_detail :: string
  r_client_status_age :: "time option"
  r_spot :: string
  r_spot_releases_in :: "time option"
  r_inflight :: int
  r_waiting :: int
  r_queue_position :: "nat option"
  r_last_path :: string
  r_client_ip :: string
  r_active_seconds :: time

definition snapshot_row_of :: "equeue \<Rightarrow> time \<Rightarrow> nat \<Rightarrow> sref \<Rightarrow> snapshot_row" where
  "snapshot_row_of q now idx r =
     (let s = sess q r in
      \<lparr>r_position = idx, r_session = s_session_id s, r_client = s_client s, r_api = s_api s,
       r_status = s_status s, r_detail = s_status_detail s,
       r_client_status = s_client_status s, r_client_status_detail = s_client_status_detail s,
       r_client_status_age =
         (if s_client_status_at s \<noteq> 0 then Some (round1 (now - s_client_status_at s)) else None),
       r_spot =
         (if dict_has (q_spots q) (s_key s) then ''held''
          else case s_shared_spot_key s of
                 None \<Rightarrow> ''none''
               | Some shared \<Rightarrow> if dict_has (q_spots q) shared then ''shared'' else ''none''),
       r_spot_releases_in =
         (if s_spot_held s then
            map_option (\<lambda>deadline. round1 (max 0 (deadline - now))) (release_deadline q s now)
          else None),
       r_inflight = s_inflight s, r_waiting = s_waiting s,
       r_queue_position = dict_get (first_pos q) (s_key s),
       r_last_path = s_last_path s, r_client_ip = s_client_ip s,
       r_active_seconds = round1 (now - s_created_at s)\<rparr>)"

definition snapshot :: "equeue \<Rightarrow> time \<Rightarrow> snapshot_row list" where
  "snapshot q now = map (\<lambda>(idx, r). snapshot_row_of q now idx r) (List.enumerate 1 (snapshot_order q))"

end
