(* ===== verification/Relay_Queue_Inv.thy ===== *)
theory Relay_Queue_Inv
  imports Relay_Queue
begin

text \<open>
  The invariant of the slot queue and its preservation. Two ghost arguments say what
  the callers hold: \<open>R\<close>, the entries promoted and not yet released (a handler
  releases its entry once), and \<open>W\<close>, the number of WebSocket connections that run on
  each session (they count in \<open>inflight\<close> but not in \<open>inflight_total\<close>).
\<close>

section \<open>Frame facts of the store updates\<close>

lemma upd_sess_simps [simp]:
  "q_max_spots (upd_sess r f q) = q_max_spots q"
  "q_max_inflight_per_session (upd_sess r f q) = q_max_inflight_per_session q"
  "q_busy_window (upd_sess r f q) = q_busy_window q"
  "q_session_expiry (upd_sess r f q) = q_session_expiry q"
  "q_atomic_requests (upd_sess r f q) = q_atomic_requests q"
  "q_inflight_total (upd_sess r f q) = q_inflight_total q"
  "q_immediate_idle_release (upd_sess r f q) = q_immediate_idle_release q"
  "q_sessions (upd_sess r f q) = q_sessions q"
  "q_spots (upd_sess r f q) = q_spots q"
  "q_queue (upd_sess r f q) = q_queue q"
  "q_ready (upd_sess r f q) = q_ready q"
  "q_entries (upd_sess r f q) = q_entries q"
  "q_next_session (upd_sess r f q) = q_next_session q"
  "q_next_entry (upd_sess r f q) = q_next_entry q"
  "q_heap (upd_sess r f q) = (q_heap q)(r := f (q_heap q r))"
  by (simp_all add: upd_sess_def)

lemma upd_entry_simps [simp]:
  "q_max_spots (upd_entry e g q) = q_max_spots q"
  "q_max_inflight_per_session (upd_entry e g q) = q_max_inflight_per_session q"
  "q_busy_window (upd_entry e g q) = q_busy_window q"
  "q_session_expiry (upd_entry e g q) = q_session_expiry q"
  "q_atomic_requests (upd_entry e g q) = q_atomic_requests q"
  "q_inflight_total (upd_entry e g q) = q_inflight_total q"
  "q_immediate_idle_release (upd_entry e g q) = q_immediate_idle_release q"
  "q_sessions (upd_entry e g q) = q_sessions q"
  "q_spots (upd_entry e g q) = q_spots q"
  "q_queue (upd_entry e g q) = q_queue q"
  "q_ready (upd_entry e g q) = q_ready q"
  "q_heap (upd_entry e g q) = q_heap q"
  "q_next_session (upd_entry e g q) = q_next_session q"
  "q_next_entry (upd_entry e g q) = q_next_entry q"
  "q_entries (upd_entry e g q) = (q_entries q)(e := g (q_entries q e))"
  by (simp_all add: upd_entry_def)

text \<open>A promotion, field by field.\<close>

lemma spot_key_cong:
  "q_spots q' = q_spots q \<Longrightarrow> s_key s' = s_key s \<Longrightarrow> s_shared_spot_key s' = s_shared_spot_key s \<Longrightarrow>
   spot_key q' s' = spot_key q s"
  by (simp add: spot_key_def split: option.splits)

lemma promote_fields [simp]:
  "q_max_spots (promote now e q) = q_max_spots q"
  "q_max_inflight_per_session (promote now e q) = q_max_inflight_per_session q"
  "q_busy_window (promote now e q) = q_busy_window q"
  "q_session_expiry (promote now e q) = q_session_expiry q"
  "q_atomic_requests (promote now e q) = q_atomic_requests q"
  "q_immediate_idle_release (promote now e q) = q_immediate_idle_release q"
  "q_inflight_total (promote now e q) = q_inflight_total q + 1"
  "q_sessions (promote now e q) = q_sessions q"
  "q_ready (promote now e q) = q_ready q"
  "q_next_session (promote now e q) = q_next_session q"
  "q_next_entry (promote now e q) = q_next_entry q"
  "q_entries (promote now e q) = (q_entries q)(e := (q_entries q e)\<lparr>e_done := True, e_go := True\<rparr>)"
  by (simp_all add: promote_def Let_def)

lemma promote_spots:
  "q_spots (promote now e q) =
     (let s = sess q (e_session (ent q e)) in
      if spot_key q s = None then dict_put (s_key s) now (q_spots q) else q_spots q)"
proof -
  define r where "r = e_session (ent q e)"
  have sk: "spot_key (upd_sess r f (q\<lparr>q_queue := qs, q_inflight_total := n\<rparr>)) s = spot_key q s"
    for f qs n s by (rule spot_key_cong) simp_all
  show ?thesis
    by (simp add: promote_def Let_def spot_key_def split: option.splits)
qed

lemma promote_heap:
  "q_heap (promote now e q) = (let r = e_session (ent q e); s = sess q r in
     (q_heap q)(r := s\<lparr>s_waiting := s_waiting s - 1, s_inflight := s_inflight s + 1,
        s_idle_since := None,
        s_spot_held := (if spot_key q s = None then True else s_spot_held s),
        s_spot_acquired_at := (if spot_key q s = None then now else s_spot_acquired_at s),
        s_status := ''busy'', s_status_detail := ''in-flight request''\<rparr>))"
  by (auto simp add: promote_def Let_def spot_key_def fun_eq_iff split: option.splits)

section \<open>The invariant\<close>

definition tracked :: "equeue \<Rightarrow> sref \<Rightarrow> bool" where
  "tracked q r = (dict_get (q_sessions q) (s_key (sess q r)) = Some r)"

text \<open>How many entries of a set belong to a session.\<close>

definition of_session :: "equeue \<Rightarrow> eref set \<Rightarrow> sref \<Rightarrow> nat" where
  "of_session q E r = card {e \<in> E. e_session (ent q e) = r}"

definition q_dicts :: "equeue \<Rightarrow> bool" where
  "q_dicts q \<longleftrightarrow> dict_ok (q_sessions q) \<and> dict_ok (q_spots q) \<and>
     (\<forall>k r. dict_get (q_sessions q) k = Some r \<longrightarrow> s_key (sess q r) = k \<and> r < q_next_session q)"

definition q_capacity :: "equeue \<Rightarrow> bool" where
  "q_capacity q \<longleftrightarrow> 1 \<le> q_max_spots q \<and> int (length (q_spots q)) \<le> q_max_spots q"

definition q_spots_ok :: "equeue \<Rightarrow> bool" where
  "q_spots_ok q \<longleftrightarrow>
     (\<forall>k. dict_has (q_spots q) k \<longrightarrow> dict_has (q_sessions q) k) \<and>
     (\<forall>k r. dict_get (q_sessions q) k = Some r \<longrightarrow> s_spot_held (sess q r) = dict_has (q_spots q) k)"

definition q_entries_ok :: "eref set \<Rightarrow> equeue \<Rightarrow> bool" where
  "q_entries_ok R q \<longleftrightarrow> distinct (q_queue q) \<and> finite R \<and> R \<inter> set (q_queue q) = {} \<and>
     (\<forall>e \<in> set (q_queue q). tracked q (e_session (ent q e)) \<and> \<not> e_done (ent q e) \<and>
        \<not> e_go (ent q e) \<and> e < q_next_entry q) \<and>
     (\<forall>e \<in> R. tracked q (e_session (ent q e)) \<and> e_done (ent q e) \<and> e_go (ent q e) \<and> e < q_next_entry q)"

definition q_counts :: "eref set \<Rightarrow> (sref \<Rightarrow> nat) \<Rightarrow> equeue \<Rightarrow> bool" where
  "q_counts R W q \<longleftrightarrow> q_inflight_total q = int (card R) \<and>
     (\<forall>r. 0 < W r \<longrightarrow> tracked q r) \<and>
     (\<forall>r. tracked q r \<longrightarrow> s_waiting (sess q r) = int (of_session q (set (q_queue q)) r) \<and>
        s_inflight (sess q r) = int (of_session q R r) + int (W r)) \<and>
     (q_atomic_requests q \<longrightarrow> card R \<le> 1)"

definition q_inv :: "eref set \<Rightarrow> (sref \<Rightarrow> nat) \<Rightarrow> equeue \<Rightarrow> bool" where
  "q_inv R W q \<longleftrightarrow> q_dicts q \<and> q_capacity q \<and> q_spots_ok q \<and> q_entries_ok R q \<and> q_counts R W q"

lemmas q_inv_defs = q_inv_def q_dicts_def q_capacity_def q_spots_ok_def q_entries_ok_def q_counts_def

lemma q_invI:
  "q_dicts q \<Longrightarrow> q_capacity q \<Longrightarrow> q_spots_ok q \<Longrightarrow> q_entries_ok R q \<Longrightarrow> q_counts R W q \<Longrightarrow> q_inv R W q"
  by (simp add: q_inv_def)

lemma init_queue_inv: "q_inv {} (\<lambda>_. 0) (init_queue n m bw se atomic im)"
  by (simp add: q_inv_defs init_queue_def of_session_def tracked_def)

lemma tracked_get: "q_dicts q \<Longrightarrow> dict_get (q_sessions q) k = Some r \<Longrightarrow> tracked q r \<and> s_key (sess q r) = k"
  by (simp add: q_dicts_def tracked_def)

text \<open>Two tracked sessions with the same key are the same object.\<close>

lemma tracked_unique: "tracked q r \<Longrightarrow> tracked q r' \<Longrightarrow> s_key (sess q r) = s_key (sess q r') \<Longrightarrow> r = r'"
  by (simp add: tracked_def)

lemma of_session_insert:
  assumes "finite E" and "e \<notin> E"
  shows "of_session q (insert e E) r = of_session q E r + (if e_session (ent q e) = r then 1 else 0)"
proof -
  have *: "{x \<in> insert e E. e_session (ent q x) = r} =
      (if e_session (ent q e) = r then insert e {x \<in> E. e_session (ent q x) = r}
       else {x \<in> E. e_session (ent q x) = r})" by auto
  show ?thesis unfolding of_session_def * using assms by simp
qed

lemma of_session_remove:
  assumes "finite E" and "e \<in> E"
  shows "of_session q E r = of_session q (E - {e}) r + (if e_session (ent q e) = r then 1 else 0)"
  using of_session_insert [of "E - {e}" e q r] assms by (simp add: insert_absorb)

lemma of_session_cong:
  "(\<And>e. e \<in> E \<Longrightarrow> e_session (ent q' e) = e_session (ent q e)) \<Longrightarrow> of_session q' E r = of_session q E r"
  by (simp add: of_session_def cong: conj_cong)

lemma of_session_pos: "finite E \<Longrightarrow> e \<in> E \<Longrightarrow> 0 < of_session q E (e_session (ent q e))"
  by (auto simp: of_session_def card_gt_0_iff)

section \<open>Promotion keeps the invariant\<close>

lemma eligible_capacity:
  "eligible q e \<Longrightarrow> spot_key q (sess q (e_session (ent q e))) = None \<Longrightarrow>
   int (length (q_spots q)) < q_max_spots q"
  by (simp add: eligible_def Let_def split: if_splits)

lemma eligible_atomic: "eligible q e \<Longrightarrow> q_atomic_requests q \<Longrightarrow> q_inflight_total q \<le> 0"
  by (simp add: eligible_def split: if_splits)

lemma promote_keys [simp]: "s_key (sess (promote now e q) r) = s_key (sess q r)"
  by (simp add: promote_heap Let_def)

lemma promote_tracked [simp]: "tracked (promote now e q) r = tracked q r"
  by (simp add: tracked_def)

lemma promote_sessions_of [simp]: "e_session (ent (promote now e q) x) = e_session (ent q x)"
  by simp

lemma spot_key_None: "spot_key q s = None \<Longrightarrow> \<not> dict_has (q_spots q) (s_key s)"
  by (auto simp: spot_key_def split: if_splits)

lemma promote_inv:
  assumes inv: "q_inv R W q" and e: "e \<in> set (q_queue q)" and el: "eligible q e"
  shows "q_inv (insert e R) W (promote now e q)"
proof -
  let ?q = "promote now e q" and ?r = "e_session (ent q e)"
  let ?s = "sess q ?r"
  have tr: "tracked q ?r" and eR: "e \<notin> R" and fin: "finite R" and dist: "distinct (q_queue q)"
    using inv e by (auto simp: q_inv_defs)
  show ?thesis
  proof (rule q_invI)
    show "q_dicts ?q"
      using inv by (auto simp: q_inv_defs promote_spots Let_def)
    show "q_capacity ?q"
      using inv eligible_capacity [OF el]
      by (auto simp: q_inv_defs promote_spots Let_def length_dict_put)
    show "q_spots_ok ?q"
    proof -
      have held: "s_spot_held (sess q r) = dict_has (q_spots q) k"
        if "dict_get (q_sessions q) k = Some r" for k r
        using inv that by (simp add: q_inv_def q_spots_ok_def)
      have keys: "s_key (sess q r) = k" if "dict_get (q_sessions q) k = Some r" for k r
        using inv that by (simp add: q_inv_def q_dicts_def)
      have "s_spot_held (sess ?q r) = dict_has (q_spots ?q) k"
        if g: "dict_get (q_sessions q) k = Some r" for k r
        using keys [OF g] held [OF g] tr g
        by (cases "r = ?r") (auto simp: promote_heap promote_spots Let_def tracked_def)
      moreover have "dict_has (q_sessions q) (s_key ?s)"
        using tr by (simp add: tracked_def dict_has_def)
      ultimately show ?thesis using inv
        by (simp add: q_inv_def q_spots_ok_def promote_spots Let_def)
    qed
    show "q_entries_ok (insert e R) ?q"
      using inv e dist by (auto simp: q_inv_defs)
    show "q_counts (insert e R) W ?q"
    proof -
      have w: "of_session q (set (q_queue q)) r =
          of_session q (set (q_queue q) - {e}) r + (if ?r = r then 1 else 0)" for r
        by (rule of_session_remove) (simp_all add: e)
      have cong: "of_session ?q E r = of_session q E r" for E r
        by (rule of_session_cong) simp
      have atomic: "q_atomic_requests q \<longrightarrow> card R = 0"
        using eligible_atomic [OF el] inv by (auto simp: q_inv_defs)
      have "\<forall>r. tracked q r \<longrightarrow> s_waiting (sess q r) = int (of_session q (set (q_queue q)) r) \<and>
          s_inflight (sess q r) = int (of_session q R r) + int (W r)"
        using inv by (simp add: q_inv_defs)
      then show ?thesis
        using inv atomic w of_session_insert [OF fin eR, of q] eR fin dist
        by (auto simp: q_inv_defs promote_heap Let_def cong)
    qed
  qed
qed

text \<open>The entries promoted between two states of the queue.\<close>

definition promoted :: "equeue \<Rightarrow> equeue \<Rightarrow> eref set" where
  "promoted q q' = {e. e_done (ent q' e) \<and> \<not> e_done (ent q e)}"

lemma promoted_refl [simp]: "promoted q q = {}"
  by (simp add: promoted_def)

lemma promoted_cong: "q_entries p = q_entries q \<Longrightarrow> promoted p q' = promoted q q'"
  by (simp add: promoted_def)

lemma promote_loop_done_mono: "e_done (ent q e) \<Longrightarrow> e_done (ent (promote_loop now q) e)"
proof (induction now q rule: promote_loop.induct)
  case (1 now q)
  then show ?case
    by (cases "List.find (eligible q) (q_queue q)") (simp_all add: promote_loop.simps [of now q])
qed

lemma promote_loop_inv:
  "q_inv R W q \<Longrightarrow> q_inv (R \<union> promoted q (promote_loop now q)) W (promote_loop now q)"
proof (induction now q arbitrary: R rule: promote_loop.induct)
  case (1 now q)
  show ?case
  proof (cases "List.find (eligible q) (q_queue q)")
    case None
    with "1.prems" show ?thesis by (simp add: promote_loop.simps [of now q])
  next
    case (Some e)
    then have e: "e \<in> set (q_queue q)" and el: "eligible q e" by (auto simp: find_Some_iff)
    let ?p = "promote now e q"
    let ?q = "promote_loop now ?p"
    have loop: "promote_loop now q = ?q" using Some by (simp add: promote_loop.simps [of now q])
    have "\<not> e_done (ent q e)" using "1.prems" e by (simp add: q_inv_defs)
    moreover have "e_done (ent ?q e)" by (rule promote_loop_done_mono) simp
    ultimately have "insert e R \<union> promoted ?p ?q = R \<union> promoted q ?q"
      by (auto simp: promoted_def)
    moreover have "q_inv (insert e R \<union> promoted ?p ?q) W ?q"
      using "1.IH" [OF Some promote_inv [OF "1.prems" e el]] .
    ultimately show ?thesis by (simp add: loop)
  qed
qed

lemma try_promote_inv:
  "q_inv R W q \<Longrightarrow> q_inv (R \<union> promoted q (try_promote now q)) W (try_promote now q)"
  using promote_loop_inv by (simp add: try_promote_def)

text \<open>Fields a promotion run never writes.\<close>

lemma promote_loop_fields [simp]:
  "q_max_spots (promote_loop now q) = q_max_spots q"
  "q_max_inflight_per_session (promote_loop now q) = q_max_inflight_per_session q"
  "q_busy_window (promote_loop now q) = q_busy_window q"
  "q_session_expiry (promote_loop now q) = q_session_expiry q"
  "q_atomic_requests (promote_loop now q) = q_atomic_requests q"
  "q_immediate_idle_release (promote_loop now q) = q_immediate_idle_release q"
  "q_sessions (promote_loop now q) = q_sessions q"
  "q_ready (promote_loop now q) = q_ready q"
  "q_next_session (promote_loop now q) = q_next_session q"
  "q_next_entry (promote_loop now q) = q_next_entry q"
  by (induction now q rule: promote_loop.induct;
      subst promote_loop.simps; simp split: option.split)+

lemma try_promote_fields [simp]:
  "q_max_spots (try_promote now q) = q_max_spots q"
  "q_max_inflight_per_session (try_promote now q) = q_max_inflight_per_session q"
  "q_busy_window (try_promote now q) = q_busy_window q"
  "q_session_expiry (try_promote now q) = q_session_expiry q"
  "q_atomic_requests (try_promote now q) = q_atomic_requests q"
  "q_immediate_idle_release (try_promote now q) = q_immediate_idle_release q"
  "q_sessions (try_promote now q) = q_sessions q"
  "q_ready (try_promote now q) = q_ready q"
  "q_next_session (try_promote now q) = q_next_session q"
  "q_next_entry (try_promote now q) = q_next_entry q"
  by (simp_all add: try_promote_def)

section \<open>Session and entry objects\<close>

text \<open>An update that leaves a session's key, counters and spot flag alone.\<close>

lemma upd_sess_inv:
  assumes "q_inv R W q"
    and "\<And>s. s_key (f s) = s_key s \<and> s_waiting (f s) = s_waiting s \<and>
           s_inflight (f s) = s_inflight s \<and> s_spot_held (f s) = s_spot_held s"
  shows "q_inv R W (upd_sess r f q)"
proof -
  have tr: "tracked (upd_sess r f q) x = tracked q x" for x
    using assms(2) by (simp add: tracked_def)
  have os: "of_session (upd_sess r f q) E x = of_session q E x" for E x
    by (rule of_session_cong) simp
  have fs: "s_key (f s) = s_key s" "s_waiting (f s) = s_waiting s" "s_inflight (f s) = s_inflight s"
    "s_spot_held (f s) = s_spot_held s" for s
    using assms(2) by blast+
  show ?thesis
  proof (rule q_invI)
    show "q_counts R W (upd_sess r f q)"
      using assms(1) unfolding q_inv_def q_counts_def tr os by (simp add: fs)
    show "q_entries_ok R (upd_sess r f q)"
      using assms(1) unfolding q_inv_def q_entries_ok_def tr by simp
  qed (use assms(1) in \<open>simp_all add: q_inv_def q_dicts_def q_capacity_def q_spots_ok_def fs\<close>)
qed

lemma ready_inv:
  assumes inv: "q_inv R W q"
  shows "q_inv R W (q\<lparr>q_ready := b\<rparr>)"
proof -
  have tr: "tracked (q\<lparr>q_ready := b\<rparr>) x = tracked q x" for x by (simp add: tracked_def)
  have os: "of_session (q\<lparr>q_ready := b\<rparr>) E x = of_session q E x" for E x
    by (rule of_session_cong) simp
  show ?thesis
    using inv
    by (simp add: q_inv_def q_dicts_def q_capacity_def q_spots_ok_def q_entries_ok_def q_counts_def tr os)
qed

lemma tracked_fresh: "q_inv R W q \<Longrightarrow> tracked q r \<Longrightarrow> r < q_next_session q"
  by (auto simp: q_inv_defs tracked_def)

lemma get_or_create_inv:
  assumes inv: "q_inv R W q"
    and goc: "get_or_create_session client session_id api ip ua now q = (r, q')"
  shows "q_inv R W q' \<and> tracked q' r \<and> s_key (sess q' r) = (client, session_id) \<and>
    q_queue q' = q_queue q \<and> q_entries q' = q_entries q \<and> q_next_entry q' = q_next_entry q"
proof (cases "dict_get (q_sessions q) (client, session_id)")
  case (Some r')
  have key: "s_key (sess q r') = (client, session_id)"
    using inv Some by (simp add: q_inv_def q_dicts_def)
  have q': "r' = r" "q' = upd_sess r (\<lambda>s. s\<lparr>s_api := api, s_client_ip := ip,
      s_last_request_at := now, s_idle_since := None\<rparr>) q"
    using goc Some by (auto simp: get_or_create_session_def Let_def)
  have "q_inv R W q'" unfolding q' by (rule upd_sess_inv [OF inv]) simp
  then show ?thesis using Some key by (simp add: q' tracked_def)
next
  case None
  let ?r = "q_next_session q" and ?k = "(client, session_id)"
  have q': "r = ?r" "q' = q\<lparr>q_heap := (q_heap q)(?r := new_session ?k client session_id api ip ua now),
      q_next_session := ?r + 1, q_sessions := dict_put ?k ?r (q_sessions q)\<rparr>"
    using goc None by (auto simp: get_or_create_session_def Let_def)
  have fresh: "x \<noteq> ?r" if "tracked q x" for x
    using tracked_fresh [OF inv that] by simp
  have other: "s_key (sess q x) \<noteq> ?k" if "tracked q x" for x
    using that None by (auto simp: tracked_def)
  have tr: "tracked q' x \<longleftrightarrow> x = ?r \<or> tracked q x" for x
    using fresh other None by (auto simp: q' tracked_def new_session_def)
  have untracked: "\<not> tracked q ?r" using fresh by blast
  have os: "of_session q' E x = of_session q E x" for E x
    by (rule of_session_cong) (simp add: q')
  have zero: "of_session q (set (q_queue q)) ?r = 0" "of_session q R ?r = 0" "W ?r = 0"
    using inv untracked by (auto simp: q_inv_defs of_session_def card_eq_0_iff)
  have "q_dicts q'" using inv by (auto simp: q_inv_defs q' new_session_def less_Suc_eq)
  moreover have "q_capacity q'" using inv by (simp add: q_inv_defs q')
  moreover have "q_spots_ok q'"
  proof -
    have "s_spot_held (sess q' x) = dict_has (q_spots q') k"
      if "dict_get (q_sessions q') k = Some x" for k x
    proof (cases "k = ?k")
      case True
      with that have "x = ?r" by (simp add: q')
      moreover have "\<not> dict_has (q_spots q) ?k"
        using inv None by (auto simp: q_inv_defs dict_has_def)
      ultimately show ?thesis by (simp add: q' True new_session_def)
    next
      case False
      with that have g: "dict_get (q_sessions q) k = Some x" by (simp add: q')
      then have "x \<noteq> ?r" using inv by (auto simp: q_inv_defs)
      then show ?thesis using inv g by (simp add: q_inv_def q_spots_ok_def q')
    qed
    then show ?thesis using inv by (auto simp: q_inv_def q_spots_ok_def q')
  qed
  moreover have "q_entries_ok R q'"
    using inv by (auto simp: q_inv_def q_entries_ok_def tr) (auto simp: q')
  moreover have "q_counts R W q'"
    unfolding q_counts_def tr os
    using inv zero untracked by (auto simp: q_inv_def q_counts_def q' new_session_def)
  ultimately have "q_inv R W q'" by (rule q_invI)
  then show ?thesis using tr by (simp add: q' new_session_def)
qed

text \<open>An entry that was constructed and not yet put in the queue.\<close>

definition entry_fresh :: "eref set \<Rightarrow> equeue \<Rightarrow> eref \<Rightarrow> bool" where
  "entry_fresh R q e \<longleftrightarrow> e \<notin> set (q_queue q) \<and> e \<notin> R \<and> \<not> e_done (ent q e) \<and> \<not> e_go (ent q e) \<and>
     e < q_next_entry q"

lemma alloc_entry_inv:
  assumes inv: "q_inv R W q" and al: "alloc_entry r path body now q = (e, q')"
  shows "q_inv R W q' \<and> entry_fresh R q' e \<and> e_session (ent q' e) = r \<and>
    tracked q' = tracked q \<and> q_queue q' = q_queue q"
proof -
  have q': "e = q_next_entry q"
      "q' = q\<lparr>q_entries := (q_entries q)(e := new_entry r path body now), q_next_entry := e + 1\<rparr>"
    using al by (auto simp: alloc_entry_def Let_def)
  have old: "x \<noteq> e" if "x \<in> set (q_queue q) \<union> R" for x
    using inv that by (auto simp: q_inv_defs q')
  have tr: "tracked q' = tracked q" by (simp add: tracked_def q' fun_eq_iff)
  have os: "of_session q' E x = of_session q E x" if "E \<subseteq> set (q_queue q) \<union> R" for E x
    by (rule of_session_cong) (use old that in \<open>auto simp: q'\<close>)
  have "q_inv R W q'"
  proof (rule q_invI)
    show "q_entries_ok R q'"
      using inv old unfolding q_inv_def q_entries_ok_def tr by (auto simp: q' less_Suc_eq)
    show "q_counts R W q'"
      using inv os [of "set (q_queue q)"] os [of R] unfolding q_inv_def q_counts_def tr
      by (simp add: q')
  qed (use inv in \<open>simp_all add: q_inv_def q_dicts_def q_capacity_def q_spots_ok_def q'\<close>)
  then show ?thesis
    using old tr by (auto simp: entry_fresh_def q' new_entry_def)
qed

section \<open>The operations keep the invariant\<close>

lemma enqueue_inv:
  assumes inv: "q_inv R W q" and fresh: "entry_fresh R q e" and tr: "tracked q (e_session (ent q e))"
  shows "q_inv (R \<union> promoted q (enqueue now e q)) W (enqueue now e q)"
proof -
  let ?r = "e_session (ent q e)"
  let ?p = "upd_sess ?r (\<lambda>s. s\<lparr>s_waiting := s_waiting s + 1, s_last_path := e_path (ent q e)\<rparr>) q"
  let ?p' = "?p\<lparr>q_queue := q_queue q @ [e]\<rparr>"
  have trp: "tracked ?p' x = tracked q x" for x by (simp add: tracked_def)
  have os: "of_session ?p' E x = of_session q E x" for E x
    by (rule of_session_cong) simp
  have e: "e \<notin> set (q_queue q)" using fresh by (simp add: entry_fresh_def)
  have "q_inv R W ?p'"
  proof (rule q_invI)
    show "q_entries_ok R ?p'"
      using inv fresh tr by (auto simp: q_inv_def q_entries_ok_def trp entry_fresh_def)
    show "q_counts R W ?p'"
      using inv of_session_insert [OF _ e, of q]
      by (auto simp: q_inv_def q_counts_def trp os)
  qed (use inv in \<open>simp_all add: q_inv_defs\<close>)
  from try_promote_inv [OF this] show ?thesis
    by (simp add: enqueue_def Let_def promoted_def)
qed

lemma remove_waiting_inv:
  assumes inv: "q_inv R W q" and e: "e \<in> set (q_queue q) \<or> e_done (ent q e)"
  shows "q_inv R W (remove_waiting e q)"
proof (cases "e_done (ent q e)")
  case False
  with e have eq: "e \<in> set (q_queue q)" by simp
  let ?r = "e_session (ent q e)" and ?q = "remove_waiting e q"
  have q: "?q = upd_sess ?r (\<lambda>s. s\<lparr>s_waiting := max 0 (s_waiting s - 1)\<rparr>)
      (q\<lparr>q_queue := remove1 e (q_queue q)\<rparr>)" using False by (simp add: remove_waiting_def)
  have trq: "tracked ?q x = tracked q x" for x by (simp add: q tracked_def)
  have os: "of_session ?q E x = of_session q E x" for E x
    by (rule of_session_cong) (simp add: q)
  have w: "of_session q (set (q_queue q)) x =
      of_session q (set (q_queue q) - {e}) x + (if ?r = x then 1 else 0)" for x
    by (rule of_session_remove) (simp_all add: eq)
  have dist: "distinct (q_queue q)" and set: "set (q_queue ?q) = set (q_queue q) - {e}"
    using inv by (simp_all add: q q_inv_defs)
  show ?thesis
  proof (rule q_invI)
    show "q_entries_ok R ?q"
      using inv unfolding q_inv_def q_entries_ok_def trq set by (auto simp: q)
    show "q_counts R W ?q"
      using inv w unfolding q_inv_def q_counts_def trq os set by (auto simp: q)
  qed (use inv in \<open>simp_all add: q_inv_defs q\<close>)
qed (simp add: remove_waiting_def inv)

lemma abandon_inv:
  "q_inv R W q \<Longrightarrow> e \<in> set (q_queue q) \<or> e_done (ent q e) \<Longrightarrow> q_inv R W (abandon e q)"
  by (simp add: abandon_def remove_waiting_inv)

lemma release_inv:
  assumes inv: "q_inv R W q" and e: "e \<in> R"
  shows "q_inv (R - {e} \<union> promoted q (release now e q)) W (release now e q)"
proof -
  let ?r = "e_session (ent q e)"
  let ?p = "upd_sess ?r (\<lambda>s. s\<lparr>s_last_request_at := now\<rparr>)
      (upd_sess ?r (\<lambda>s. s\<lparr>s_inflight := s_inflight s - 1\<rparr>)
        (q\<lparr>q_inflight_total := max 0 (q_inflight_total q - 1)\<rparr>))"
  have fin: "finite R" and tr: "tracked q ?r" using inv e by (auto simp: q_inv_defs)
  have pos: "0 < s_inflight (sess q ?r)"
    using inv tr of_session_pos [OF fin e, of q] by (simp add: q_inv_defs)
  have trp: "tracked ?p x = tracked q x" for x by (simp add: tracked_def)
  have os: "of_session ?p E x = of_session q E x" for E x
    by (rule of_session_cong) simp
  have card: "card R = Suc (card (R - {e}))"
    using card.remove [OF fin e] by simp
  have "q_inv (R - {e}) W ?p"
  proof (rule q_invI)
    show "q_entries_ok (R - {e}) ?p"
      using inv unfolding q_inv_def q_entries_ok_def trp by auto
    show "q_counts (R - {e}) W ?p"
      using inv of_session_remove [OF fin e, of q] card
      unfolding q_inv_def q_counts_def trp os by auto
  qed (use inv in \<open>simp_all add: q_inv_defs\<close>)
  from try_promote_inv [OF this] show ?thesis
    using pos by (simp add: release_def Let_def promoted_def)
qed

lemma of_session_zero: "finite E \<Longrightarrow> of_session q E r = 0 \<longleftrightarrow> (\<forall>e \<in> E. e_session (ent q e) \<noteq> r)"
  by (auto simp: of_session_def card_eq_0_iff)

text \<open>Forgetting a session with nothing waiting, nothing in flight and no spot.\<close>

lemma forget_session_inv:
  assumes inv: "q_inv R W q" and g: "dict_get (q_sessions q) k = Some r"
    and idle: "s_waiting (sess q r) = 0" "s_inflight (sess q r) = 0" and no_spot: "\<not> dict_has (q_spots q) k"
  shows "q_inv R W (q\<lparr>q_sessions := dict_pop k (q_sessions q)\<rparr>)" (is "q_inv R W ?q")
proof -
  have key: "s_key (sess q r) = k" and tr: "tracked q r"
    using tracked_get [OF _ g] inv by (auto simp: q_inv_def)
  have trq: "tracked ?q x \<longleftrightarrow> tracked q x \<and> x \<noteq> r" for x
    using key g by (auto simp: tracked_def)
  have os: "of_session ?q E x = of_session q E x" for E x
    by (rule of_session_cong) simp
  have fin: "finite R" using inv by (simp add: q_inv_defs)
  have none: "of_session q (set (q_queue q)) r = 0" "of_session q R r = 0" "W r = 0"
    using inv tr idle by (auto simp: q_inv_def q_counts_def)
  then have "\<forall>e \<in> set (q_queue q) \<union> R. e_session (ent q e) \<noteq> r"
    using of_session_zero [OF fin, of q r] of_session_zero [of "set (q_queue q)" q r] by auto
  then have "q_entries_ok R ?q"
    using inv unfolding q_inv_def q_entries_ok_def trq by auto
  moreover have "q_counts R W ?q"
    using inv none unfolding q_inv_def q_counts_def trq os by auto
  moreover have "q_spots_ok ?q"
    using inv no_spot by (auto simp: q_inv_def q_spots_ok_def)
  ultimately show ?thesis
    using inv by (intro q_invI) (auto simp: q_inv_def q_dicts_def q_capacity_def)
qed

lemma drop_spot_inv:
  assumes inv: "q_inv R W q" and g: "dict_get (q_sessions q) k = Some r"
  shows "q_inv R W (upd_sess r (\<lambda>s. s\<lparr>s_spot_held := False, s_idle_since := i s\<rparr>)
    (q\<lparr>q_spots := dict_pop k (q_spots q)\<rparr>))" (is "q_inv R W ?q")
proof -
  have key: "s_key (sess q r) = k" using tracked_get [OF _ g] inv by (auto simp: q_inv_def)
  have trq: "tracked ?q x = tracked q x" for x by (simp add: tracked_def)
  have os: "of_session ?q E x = of_session q E x" for E x
    by (rule of_session_cong) simp
  have "s_spot_held (sess ?q x) = dict_has (q_spots ?q) j"
    if gx: "dict_get (q_sessions q) j = Some x" for j x
  proof (cases "x = r")
    case True
    then have "j = k" using gx key inv by (auto simp: q_inv_def q_dicts_def)
    then show ?thesis using True by simp
  next
    case False
    then have "j \<noteq> k" using g gx by auto
    then show ?thesis using False gx inv by (simp add: q_inv_def q_spots_ok_def)
  qed
  then have "q_spots_ok ?q" using inv by (simp add: q_inv_def q_spots_ok_def)
  moreover have "q_capacity ?q"
    using inv length_dict_pop_le [of k "q_spots q"] by (simp add: q_inv_def q_capacity_def)
  moreover have "q_entries_ok R ?q"
    using inv unfolding q_inv_def q_entries_ok_def trq by simp
  moreover have "q_counts R W ?q"
    using inv unfolding q_inv_def q_counts_def trq os by simp
  ultimately show ?thesis
    using inv by (intro q_invI) (simp_all add: q_inv_def q_dicts_def)
qed

lemma release_spot_inv:
  assumes inv: "q_inv R W q" and g: "dict_get (q_sessions q) k = Some r"
  shows "q_inv (R \<union> promoted q (release_spot now r k q)) W (release_spot now r k q)"
proof -
  let ?p = "upd_sess r (\<lambda>s. s\<lparr>s_spot_held := False, s_idle_since := None\<rparr>)
    (q\<lparr>q_spots := dict_pop k (q_spots q)\<rparr>)"
  let ?p' = "if s_waiting (sess ?p r) = 0 \<and> s_inflight (sess ?p r) = 0
    then ?p\<lparr>q_sessions := dict_pop k (q_sessions ?p)\<rparr> else ?p"
  have p: "q_inv R W ?p" by (rule drop_spot_inv [OF inv g])
  have "q_inv R W ?p'"
    using forget_session_inv [OF p, of k r] g p by simp
  moreover have "promoted ?p' x = promoted q x" for x by (rule promoted_cong) simp
  moreover have "release_spot now r k q = try_promote now ?p'"
    by (simp add: release_spot_def Let_def)
  ultimately show ?thesis using try_promote_inv [of R W ?p' now] by simp
qed

lemma release_session_inv:
  assumes inv: "q_inv R W q" and rel: "release_session now client session_id q = (ok, q')"
  shows "q_inv (R \<union> promoted q q') W q'"
  using rel inv release_spot_inv [OF inv, of "(client, session_id)"]
  by (auto simp: release_session_def Let_def split: option.splits if_splits)

end
