(* ===== verification/Relay_Queue_Machine.thy ===== *)
theory Relay_Queue_Machine
  imports Relay_Queue_Inv
begin

text \<open>
  The tick keeps the queue invariant, and the queue as a machine driven by the event
  loop: arrivals, completions, disconnects, ticks, manual releases, readiness
  changes and status reports, in any order. Every reachable state satisfies the
  invariant.
\<close>

section \<open>Tick\<close>

lemma promoted_trans:
  assumes "\<And>e. e_done (ent q e) \<Longrightarrow> e_done (ent q' e)" and "\<And>e. e_done (ent q' e) \<Longrightarrow> e_done (ent q'' e)"
  shows "promoted q q'' = promoted q q' \<union> promoted q' q''"
  using assms by (auto simp: promoted_def)

lemma try_promote_done_mono: "e_done (ent q e) \<Longrightarrow> e_done (ent (try_promote now q) e)"
  by (simp add: try_promote_def promote_loop_done_mono)

lemma release_spot_done_mono: "e_done (ent q e) \<Longrightarrow> e_done (ent (release_spot now r k q) e)"
  by (simp add: release_spot_def Let_def try_promote_done_mono)

lemma release_spot_sessions:
  "q_sessions (release_spot now r k q) =
     (if s_waiting (sess q r) = 0 \<and> s_inflight (sess q r) = 0 then dict_pop k (q_sessions q)
      else q_sessions q)"
  by (simp add: release_spot_def Let_def)

lemma tick_status_entries [simp]: "q_entries (tick_status now r q) = q_entries q"
  by (simp add: tick_status_def split: prod.splits)

lemma tick_status_sessions [simp]: "q_sessions (tick_status now r q) = q_sessions q"
  by (simp add: tick_status_def split: prod.splits)

lemma tick_status_spots [simp]: "q_spots (tick_status now r q) = q_spots q"
  by (simp add: tick_status_def split: prod.splits)

lemma tick_status_counts [simp]:
  "s_waiting (sess (tick_status now r q) x) = s_waiting (sess q x)"
  "s_inflight (sess (tick_status now r q) x) = s_inflight (sess q x)"
  "s_spot_held (sess (tick_status now r q) x) = s_spot_held (sess q x)"
  "s_key (sess (tick_status now r q) x) = s_key (sess q x)"
  by (auto simp add: tick_status_def split: prod.splits)

lemma tick_status_inv: "q_inv R W q \<Longrightarrow> q_inv R W (tick_status now r q)"
  unfolding tick_status_def by (auto split: prod.splits intro: upd_sess_inv)

lemma tick_one_done_mono:
  assumes "e_done (ent q e)"
  shows "e_done (ent (fst (tick_one now clk kr (q, rel))) e)"
  using assms
  by (auto simp: tick_one_def Let_def release_spot_done_mono split: prod.splits option.splits)

lemma tick_one_sessions:
  "j \<noteq> fst kr \<Longrightarrow>
   dict_get (q_sessions (fst (tick_one now clk kr (q, rel)))) j = dict_get (q_sessions q) j"
  by (auto simp: tick_one_def Let_def release_spot_sessions split: prod.splits option.splits)

text \<open>One turn of the tick, with the surrender condition named.\<close>

definition spot_due :: "equeue \<Rightarrow> session \<Rightarrow> time \<Rightarrow> bool" where
  "spot_due q s now = (case release_deadline q s now of None \<Rightarrow> False | Some deadline \<Rightarrow> deadline \<le> now)"

lemma tick_one_fst:
  "fst (tick_one now clk (k, r) (q, rel)) =
     (let p = tick_status now r q in
      if s_spot_held (sess p r) then (if spot_due p (sess p r) now then release_spot clk r k p else p)
      else if s_waiting (sess p r) = 0 \<and> s_inflight (sess p r) = 0
      then p\<lparr>q_sessions := dict_pop k (q_sessions p)\<rparr> else p)"
  by (simp add: tick_one_def spot_due_def Let_def split: option.split)

lemma tick_one_inv:
  assumes inv: "q_inv R W q" and g: "dict_get (q_sessions q) (fst kr) = Some (snd kr)"
  shows "q_inv (R \<union> promoted q (fst (tick_one now clk kr (q, rel)))) W (fst (tick_one now clk kr (q, rel)))"
proof -
  obtain k r where kr: "kr = (k, r)" by (cases kr)
  let ?p = "tick_status now r q"
  have p: "q_inv R W ?p" by (rule tick_status_inv [OF inv])
  have gp: "dict_get (q_sessions ?p) k = Some r" using g kr by simp
  have pe: "promoted ?p x = promoted q x" for x by (rule promoted_cong) simp
  have same: "promoted q (?p\<lparr>q_sessions := d\<rparr>) = {}" "promoted q ?p = {}" for d
    by (simp_all add: promoted_def)
  have held: "s_spot_held (sess q r) = dict_has (q_spots q) k"
    using inv g kr by (simp add: q_inv_def q_spots_ok_def)
  show ?thesis
  proof (cases "s_spot_held (sess q r)")
    case True
    then show ?thesis
      using release_spot_inv [OF p gp, of clk] p same by (simp add: kr tick_one_fst Let_def pe)
  next
    case False
    then show ?thesis
      using forget_session_inv [OF p gp] p held same by (simp add: kr tick_one_fst Let_def)
  qed
qed

lemma fold_tick_inv:
  assumes "q_inv R W q" and "distinct (map fst items)"
    and "\<And>k r. (k, r) \<in> set items \<Longrightarrow> dict_get (q_sessions q) k = Some r"
  shows "q_inv (R \<union> promoted q (fst (fold (tick_one now clk) items (q, rel)))) W
           (fst (fold (tick_one now clk) items (q, rel))) \<and>
         (\<forall>e. e_done (ent q e) \<longrightarrow> e_done (ent (fst (fold (tick_one now clk) items (q, rel))) e))"
  using assms
proof (induction items arbitrary: R q rel)
  case (Cons kr items)
  obtain q1 rel1 where one: "tick_one now clk kr (q, rel) = (q1, rel1)" by fastforce
  let ?q = "fst (fold (tick_one now clk) items (q1, rel1))"
  have g: "dict_get (q_sessions q) (fst kr) = Some (snd kr)"
    using Cons.prems(3) [of "fst kr" "snd kr"] by simp
  have inv1: "q_inv (R \<union> promoted q q1) W q1"
    using tick_one_inv [OF Cons.prems(1) g, of now clk rel] by (simp add: one)
  have mono1: "e_done (ent q1 e)" if "e_done (ent q e)" for e
    using tick_one_done_mono [OF that, of now clk kr rel] by (simp add: one)
  have rest: "dict_get (q_sessions q1) k = Some r" if "(k, r) \<in> set items" for k r
  proof -
    have "k \<noteq> fst kr" using Cons.prems(2) that by (auto simp: rev_image_eqI)
    then show ?thesis
      using tick_one_sessions [of k kr now clk q rel] Cons.prems(3) [of k r] that by (simp add: one)
  qed
  have "q_inv (R \<union> promoted q q1 \<union> promoted q1 ?q) W ?q \<and>
      (\<forall>e. e_done (ent q1 e) \<longrightarrow> e_done (ent ?q e))"
    using Cons.IH [OF inv1 _ rest] Cons.prems(2) by simp
  moreover have "promoted q ?q = promoted q q1 \<union> promoted q1 ?q" if "\<forall>e. e_done (ent q1 e) \<longrightarrow> e_done (ent ?q e)"
    using mono1 that by (intro promoted_trans) auto
  ultimately show ?case using mono1 by (simp add: one Un_assoc)
qed simp

lemma tick_inv:
  assumes "q_inv R W q" and "tick now clk q = (released, q')"
  shows "q_inv (R \<union> promoted q q') W q'"
proof -
  have "dict_ok (q_sessions q)" using assms(1) by (simp add: q_inv_def q_dicts_def)
  then show ?thesis
    using fold_tick_inv [OF assms(1), of "q_sessions q" now clk "[]"] assms(2)
    by (auto simp: tick_def dict_ok_def split: prod.splits)
qed

section \<open>The queue as a machine\<close>

text \<open>
  \<open>y_running\<close> is the ghost set of entries whose handler still has to release them;
  \<open>y_ws\<close> counts the WebSocket connections running on a session.
\<close>

record qsys =
  y_queue :: equeue
  y_running :: "eref set"
  y_ws :: "sref \<Rightarrow> nat"

datatype qevent =
    Arrive string string string string string string string time
  | Finish eref time
  | Abandon eref
  | Tick time time
  | ManualRelease string string time
  | SetReady bool
  | Promote time
  | Report sref string string time
  | Share sref "skey option"

definition promoted_list :: "equeue \<Rightarrow> equeue \<Rightarrow> eref list" where
  "promoted_list q q' =
     filter (\<lambda>e. e_done (ent q' e) \<and> \<not> e_done (ent q e)) [0..<q_next_entry q']"

definition advance :: "equeue \<Rightarrow> equeue \<Rightarrow> qsys \<Rightarrow> qsys" where
  "advance q q' y = y\<lparr>y_queue := q', y_running := y_running y \<union> set (promoted_list q q')\<rparr>"

text \<open>An arrival: session lookup, entry construction, enqueue.\<close>

definition arrive ::
    "string \<Rightarrow> string \<Rightarrow> string \<Rightarrow> string \<Rightarrow> string \<Rightarrow> string \<Rightarrow> string \<Rightarrow> time \<Rightarrow> equeue \<Rightarrow> eref \<times> equeue \<times> equeue" where
  "arrive client session_id api ip ua path body now q =
     (let (r, q1) = get_or_create_session client session_id api ip ua now q;
          (e, q2) = alloc_entry r path body now q1
      in (e, q2, enqueue now e q2))"

primrec qsys_step :: "qevent \<Rightarrow> qsys \<Rightarrow> qsys" where
  "qsys_step (Arrive client session_id api ip ua path body now) y =
     (case arrive client session_id api ip ua path body now (y_queue y) of (e, q2, q3) \<Rightarrow> advance q2 q3 y)"
| "qsys_step (Finish e now) y =
     advance (y_queue y) (release now e (y_queue y)) (y\<lparr>y_running := y_running y - {e}\<rparr>)"
| "qsys_step (Abandon e) y = y\<lparr>y_queue := abandon e (y_queue y)\<rparr>"
| "qsys_step (Tick now clk) y = advance (y_queue y) (snd (tick now clk (y_queue y))) y"
| "qsys_step (ManualRelease client session_id now) y =
     advance (y_queue y) (snd (release_session now client session_id (y_queue y))) y"
| "qsys_step (SetReady b) y = y\<lparr>y_queue := (y_queue y)\<lparr>q_ready := b\<rparr>\<rparr>"
| "qsys_step (Promote now) y = advance (y_queue y) (try_promote now (y_queue y)) y"
| "qsys_step (Report r status detail now) y =
     y\<lparr>y_queue := upd_sess r (\<lambda>s. s\<lparr>s_client_status := Some status,
         s_client_status_detail := detail, s_client_status_at := now\<rparr>) (y_queue y)\<rparr>"
| "qsys_step (Share r shared) y =
     y\<lparr>y_queue := upd_sess r (\<lambda>s. s\<lparr>s_shared_spot_key := shared\<rparr>) (y_queue y)\<rparr>"

text \<open>A handler finishes an entry it runs, and abandons one that waits or was promoted.\<close>

primrec qsys_guard :: "qevent \<Rightarrow> qsys \<Rightarrow> bool" where
  "qsys_guard (Arrive _ _ _ _ _ _ _ _) y = True"
| "qsys_guard (Finish e _) y = (e \<in> y_running y)"
| "qsys_guard (Abandon e) y = (e \<in> set (q_queue (y_queue y)) \<or> e_done (ent (y_queue y) e))"
| "qsys_guard (Tick _ _) y = True"
| "qsys_guard (ManualRelease _ _ _) y = True"
| "qsys_guard (SetReady _) y = True"
| "qsys_guard (Promote _) y = True"
| "qsys_guard (Report _ _ _ _) y = True"
| "qsys_guard (Share _ _) y = True"

definition qsys_inv :: "qsys \<Rightarrow> bool" where
  "qsys_inv y = q_inv (y_running y) (y_ws y) (y_queue y)"

definition qsys_init :: "equeue \<Rightarrow> qsys" where
  "qsys_init q = \<lparr>y_queue = q, y_running = {}, y_ws = (\<lambda>_. 0)\<rparr>"

lemma promoted_list_set:
  assumes "q_inv (R \<union> promoted q q') W q'"
  shows "set (promoted_list q q') = promoted q q'"
proof -
  have "e < q_next_entry q'" if "e \<in> promoted q q'" for e
    using assms that by (simp add: q_inv_def q_entries_ok_def)
  then show ?thesis by (auto simp: promoted_list_def promoted_def)
qed

lemma advance_inv:
  "q_inv (y_running y \<union> promoted q q') (y_ws y) q' \<Longrightarrow> qsys_inv (advance q q' y)"
  by (simp add: qsys_inv_def advance_def promoted_list_set)

lemma arrive_inv:
  assumes "q_inv R W q" and "arrive client session_id api ip ua path body now q = (e, q2, q3)"
  shows "q_inv (R \<union> promoted q2 q3) W q3 \<and> q_inv R W q2 \<and> entry_fresh R q2 e \<and>
    tracked q2 (e_session (ent q2 e))"
proof -
  obtain r q1 where goc: "get_or_create_session client session_id api ip ua now q = (r, q1)" by fastforce
  then have al: "alloc_entry r path body now q1 = (e, q2)" and en: "q3 = enqueue now e q2"
    using assms(2) by (auto simp: arrive_def Let_def split: prod.splits)
  have 1: "q_inv R W q1" "tracked q1 r"
    using get_or_create_inv [OF assms(1) goc] by blast+
  have 2: "q_inv R W q2" "entry_fresh R q2 e" "e_session (ent q2 e) = r" "tracked q2 = tracked q1"
    using alloc_entry_inv [OF 1(1) al] by blast+
  then show ?thesis
    using 1 enqueue_inv [of R W q2 e now] by (simp add: en)
qed

lemma qsys_step_inv:
  assumes "qsys_inv y" and "qsys_guard e y"
  shows "qsys_inv (qsys_step e y)"
proof (cases e)
  case (Arrive client session_id api ip ua path body now)
  obtain x q2 q3 where a: "arrive client session_id api ip ua path body now (y_queue y) = (x, q2, q3)"
    by (metis prod_cases3)
  moreover have "q_inv (y_running y) (y_ws y) (y_queue y)" using assms(1) by (simp add: qsys_inv_def)
  ultimately show ?thesis
    using arrive_inv [OF _ a] Arrive by (simp add: advance_inv)
next
  case (Finish x now)
  then show ?thesis
    using assms release_inv [of "y_running y" "y_ws y" "y_queue y" x now]
    by (simp add: qsys_inv_def advance_def promoted_list_set)
next
  case (Abandon x)
  then show ?thesis using assms by (simp add: qsys_inv_def abandon_inv)
next
  case (Tick now clk)
  then show ?thesis
    using assms tick_inv [of "y_running y" "y_ws y" "y_queue y" now clk]
      advance_inv [of y "y_queue y" "snd (tick now clk (y_queue y))"]
    by (cases "tick now clk (y_queue y)") (simp add: qsys_inv_def [of y])
next
  case (ManualRelease client session_id now)
  then show ?thesis
    using assms release_session_inv [of "y_running y" "y_ws y" "y_queue y" now client session_id]
      advance_inv [of y "y_queue y" "snd (release_session now client session_id (y_queue y))"]
    by (cases "release_session now client session_id (y_queue y)") (simp add: qsys_inv_def [of y])
next
  case (SetReady b)
  then show ?thesis using assms by (simp add: qsys_inv_def ready_inv)
next
  case (Promote now)
  then show ?thesis
    using assms try_promote_inv [of "y_running y" "y_ws y" "y_queue y" now]
      advance_inv [of y "y_queue y" "try_promote now (y_queue y)"]
    by (simp add: qsys_inv_def [of y])
next
  case (Report r status detail now)
  then show ?thesis using assms by (auto simp: qsys_inv_def intro: upd_sess_inv)
next
  case (Share r shared)
  then show ?thesis using assms by (auto simp: qsys_inv_def intro: upd_sess_inv)
qed

interpretation qm: machine qsys_step qsys_guard qsys_inv
  by unfold_locales (rule qsys_step_inv)

lemma qsys_init_inv: "qsys_inv (qsys_init (init_queue n m bw se atomic im))"
  by (simp add: qsys_inv_def qsys_init_def init_queue_inv)

text \<open>The configuration of a queue is fixed by its constructor.\<close>

definition q_config :: "equeue \<Rightarrow> int \<times> int \<times> time \<times> time \<times> bool \<times> bool" where
  "q_config q = (q_max_spots q, q_max_inflight_per_session q, q_busy_window q, q_session_expiry q,
     q_atomic_requests q, q_immediate_idle_release q)"

lemma q_config_upd [simp]:
  "q_config (upd_sess r f q) = q_config q"
  "q_config (try_promote now q) = q_config q"
  "q_config (q\<lparr>q_queue := x\<rparr>) = q_config q"
  "q_config (q\<lparr>q_spots := y\<rparr>) = q_config q"
  "q_config (q\<lparr>q_sessions := z\<rparr>) = q_config q"
  "q_config (q\<lparr>q_inflight_total := n\<rparr>) = q_config q"
  "q_config (q\<lparr>q_ready := b\<rparr>) = q_config q"
  by (simp_all add: q_config_def)

lemma q_config_ops [simp]:
  "q_config (enqueue now e q) = q_config q"
  "q_config (remove_waiting e q) = q_config q"
  "q_config (release_spot now r k q) = q_config q"
  "q_config (snd (release_session now c i q)) = q_config q"
  "q_config (release now e q) = q_config q"
  "q_config (tick_status now r q) = q_config q"
  "q_config (snd (get_or_create_session c i api ip ua now q)) = q_config q"
  "q_config (snd (alloc_entry r path body now q)) = q_config q"
  by (simp_all add: enqueue_def remove_waiting_def release_spot_def release_session_def release_def
      tick_status_def get_or_create_session_def alloc_entry_def Let_def split: option.split prod.split)
     (simp_all add: q_config_def)

lemma q_config_tick_one [simp]: "q_config (fst (tick_one now clk kr acc)) = q_config (fst acc)"
  by (auto simp: tick_one_def Let_def split: prod.splits option.splits)

lemma q_config_fold_tick: "q_config (fst (fold (tick_one now clk) items acc)) = q_config (fst acc)"
  by (induction items arbitrary: acc) simp_all

lemma q_config_tick [simp]: "q_config (snd (tick now clk q)) = q_config q"
  using q_config_fold_tick [of now clk "q_sessions q" "(q, [])"]
  by (simp add: tick_def split_beta)

lemma q_config_arrive:
  "arrive c i api ip ua path body now q = (e, q2, q3) \<Longrightarrow> q_config q3 = q_config q"
  by (auto simp: arrive_def Let_def split: prod.splits)
     (metis q_config_ops(7,8) snd_conv)

lemma qsys_step_config: "q_config (y_queue (qsys_step e y)) = q_config (y_queue y)"
  by (cases e) (auto simp: advance_def abandon_def q_config_arrive split: prod.splits)

lemma reach_config: "qm.reach y z \<Longrightarrow> q_config (y_queue z) = q_config (y_queue y)"
  by (induction rule: qm.reach.induct) (simp_all add: qsys_step_config)


section \<open>A concrete run\<close>

text \<open>
  One spot, no per-session cap, a busy window of 10 s and an expiry of 60 s. Client
  \<open>claude\<close> opens session a at time 0 and gets the spot, session b waits from time 1
  on, and a's request ends at time 5.
\<close>

definition one_spot :: equeue where
  "one_spot = init_queue 1 (- 1) 10 60 False False"

definition ab_arrive :: "string \<Rightarrow> time \<Rightarrow> qevent" where
  "ab_arrive session_id now =
     Arrive ''claude'' session_id ''openai'' ''10.0.0.7'' ''curl'' ''/v1/chat'' ''{}'' now"

definition ab_events :: "qevent list" where
  "ab_events = [SetReady True, ab_arrive ''a'' 0, ab_arrive ''b'' 1, Finish 0 5]"

definition ab_system :: qsys where
  "ab_system = qm.run ab_events (qsys_init one_spot)"

lemmas queue_op_simps = init_queue_def arrive_def get_or_create_session_def new_session_def Let_def
  alloc_entry_def new_entry_def enqueue_def upd_sess_def try_promote_def upd_entry_def
  promote_loop.simps eligible_def promote_def spot_key_def dict_has_def release_def
  remove_waiting_def abandon_def release_spot_def

lemmas queue_tick_simps = tick_def tick_one_def tick_status_def current_status_def unknown_def
  release_deadline_def fresh_client_report_def release_reason_def status_unreachable_grace_def

lemmas run_simps = queue_op_simps ab_arrive_def one_spot_def qsys_init_def advance_def
  promoted_list_def

text \<open>The state after the run, written out.\<close>

definition ab_session_a :: session where
  "ab_session_a = (new_session (''claude'', ''a'') ''claude'' ''a'' ''openai'' ''10.0.0.7'' ''curl'' 0)
     \<lparr>s_last_request_at := 5, s_last_path := ''/v1/chat'', s_status_detail := ''in-flight request'',
      s_spot_held := True\<rparr>"

definition ab_session_b :: session where
  "ab_session_b = (new_session (''claude'', ''b'') ''claude'' ''b'' ''openai'' ''10.0.0.7'' ''curl'' 1)
     \<lparr>s_last_path := ''/v1/chat'', s_waiting := 1\<rparr>"

definition ab_queue :: equeue where
  "ab_queue = one_spot
     \<lparr>q_sessions := [((''claude'', ''a''), 0), ((''claude'', ''b''), 1)],
      q_spots := [((''claude'', ''a''), 0)], q_queue := [1], q_ready := True,
      q_heap := (q_heap one_spot)(0 := ab_session_a, 1 := ab_session_b),
      q_entries := (q_entries one_spot)
        (0 := (new_entry 0 ''/v1/chat'' ''{}'' 0)\<lparr>e_done := True, e_go := True\<rparr>,
         1 := new_entry 1 ''/v1/chat'' ''{}'' 1),
      q_next_session := 2, q_next_entry := 2\<rparr>"

lemmas ab_defs = ab_queue_def ab_session_a_def ab_session_b_def one_spot_def

lemma ab_system_eq: "ab_system = \<lparr>y_queue = ab_queue, y_running = {}, y_ws = (\<lambda>_. 0)\<rparr>"
  by (simp add: ab_system_def ab_events_def run_simps ab_defs fun_upd_twist numeral_2_eq_2)

lemma ab_queue_eq:
  "q_queue ab_queue = [1]" "q_ready ab_queue"
  "q_spots ab_queue = [((''claude'', ''a''), 0)]"
  "q_sessions ab_queue = [((''claude'', ''a''), 0), ((''claude'', ''b''), 1)]"
  "q_inflight_total ab_queue = 0"
  by (simp_all add: ab_defs init_queue_def)

lemma ab_guarded: "qm.guarded ab_events (qsys_init one_spot)"
  by (simp add: ab_events_def run_simps)

lemma ab_reach: "qm.reach (qsys_init one_spot) ab_system"
  unfolding ab_system_def by (rule qm.run_reach [OF ab_guarded])

lemma ab_inv: "q_inv {} (\<lambda>_. 0) ab_queue"
  using qm.reach_inv [OF ab_reach] qsys_init_inv
  by (simp add: one_spot_def qsys_inv_def ab_system_eq)

end
