(* ===== verification/Relay_Queue_Cap.thy ===== *)
theory Relay_Queue_Cap
  imports Relay_Queue_Machine
begin

text \<open>
  The per-session cap (\<open>per_session_requests\<close>): what \<open>_eligible\<close> enforces of it, for HTTP
  requests. The cap is only consulted while the session runs on a spot, so it holds
  as long as a session in flight keeps its spot; a manual release or the surrender
  of a shared spot breaks that, and then the cap with it.
\<close>

definition cap_ok :: "equeue \<Rightarrow> bool" where
  "cap_ok q \<longleftrightarrow> dict_ok (q_sessions q) \<and>
     (\<forall>j r. dict_get (q_sessions q) j = Some r \<longrightarrow>
        s_key (sess q r) = j \<and> r < q_next_session q \<and> s_shared_spot_key (sess q r) = None \<and>
        (0 \<le> q_max_inflight_per_session q \<longrightarrow> s_inflight (sess q r) \<le> max 1 (q_max_inflight_per_session q)) \<and>
        (0 < s_inflight (sess q r) \<longrightarrow> dict_has (q_spots q) j))"

lemma cap_okI:
  assumes "dict_ok (q_sessions q)"
    and "\<And>j r. dict_get (q_sessions q) j = Some r \<Longrightarrow> s_key (sess q r) = j"
    and "\<And>j r. dict_get (q_sessions q) j = Some r \<Longrightarrow> r < q_next_session q"
    and "\<And>j r. dict_get (q_sessions q) j = Some r \<Longrightarrow> s_shared_spot_key (sess q r) = None"
    and "\<And>j r. dict_get (q_sessions q) j = Some r \<Longrightarrow> 0 \<le> q_max_inflight_per_session q \<Longrightarrow>
      s_inflight (sess q r) \<le> max 1 (q_max_inflight_per_session q)"
    and "\<And>j r. dict_get (q_sessions q) j = Some r \<Longrightarrow> 0 < s_inflight (sess q r) \<Longrightarrow> dict_has (q_spots q) j"
  shows "cap_ok q"
  unfolding cap_ok_def using assms by blast

lemma cap_okD:
  assumes "cap_ok q"
  shows "dict_ok (q_sessions q)"
    and "\<And>j r. dict_get (q_sessions q) j = Some r \<Longrightarrow> s_key (sess q r) = j"
    and "\<And>j r. dict_get (q_sessions q) j = Some r \<Longrightarrow> r < q_next_session q"
    and "\<And>j r. dict_get (q_sessions q) j = Some r \<Longrightarrow> s_shared_spot_key (sess q r) = None"
    and "\<And>j r. dict_get (q_sessions q) j = Some r \<Longrightarrow> 0 \<le> q_max_inflight_per_session q \<Longrightarrow>
      s_inflight (sess q r) \<le> max 1 (q_max_inflight_per_session q)"
    and "\<And>j r. dict_get (q_sessions q) j = Some r \<Longrightarrow> 0 < s_inflight (sess q r) \<Longrightarrow> dict_has (q_spots q) j"
  using assms unfolding cap_ok_def by blast+

text \<open>An update that starts no request, gives up no spot of a running session and moves no key.\<close>

lemma cap_frame:
  assumes "cap_ok q" and "dict_ok (q_sessions q')"
    and "\<And>j r. dict_get (q_sessions q') j = Some r \<Longrightarrow> dict_get (q_sessions q) j = Some r"
    and "\<And>j r. dict_get (q_sessions q') j = Some r \<Longrightarrow> dict_has (q_spots q) j \<Longrightarrow> 0 < s_inflight (sess q' r) \<Longrightarrow>
      dict_has (q_spots q') j"
    and "\<And>r. s_inflight (sess q' r) \<le> s_inflight (sess q r)"
    and "\<And>r. s_shared_spot_key (sess q' r) = s_shared_spot_key (sess q r)"
    and "\<And>r. s_key (sess q' r) = s_key (sess q r)"
    and "q_next_session q' = q_next_session q"
    and "q_max_inflight_per_session q' = q_max_inflight_per_session q"
  shows "cap_ok q'"
proof (rule cap_okI)
  fix j r
  assume g: "dict_get (q_sessions q') j = Some r"
  note g' = assms(3) [OF g] and D = cap_okD [OF assms(1)]
  show "s_key (sess q' r) = j" "r < q_next_session q'" "s_shared_spot_key (sess q' r) = None"
    using D(2-4) [OF g'] assms(6-8) by simp_all
  show "s_inflight (sess q' r) \<le> max 1 (q_max_inflight_per_session q')"
    if "0 \<le> q_max_inflight_per_session q'"
    using D(5) [OF g'] that assms(5) [of r] assms(9) by simp
  show "dict_has (q_spots q') j" if "0 < s_inflight (sess q' r)"
    using assms(4) [OF g _ that] D(6) [OF g'] that assms(5) [of r] by simp
qed (rule assms(2))

lemma cap_upd:
  "cap_ok q \<Longrightarrow> (\<And>s. s_inflight (f s) \<le> s_inflight s) \<Longrightarrow>
   (\<And>s. s_shared_spot_key (f s) = s_shared_spot_key s) \<Longrightarrow> (\<And>s. s_key (f s) = s_key s) \<Longrightarrow>
   cap_ok (upd_sess r f q)"
  by (rule cap_frame [of q]) (auto dest: cap_okD(1))

lemma cap_promote:
  assumes "cap_ok q" and "eligible q e"
  shows "cap_ok (promote now e q)"
proof -
  note D = cap_okD [OF assms(1)]
  let ?r = "e_session (ent q e)"
  let ?s = "sess q ?r"
  show ?thesis
  proof (rule cap_okI)
    fix j r
    assume "dict_get (q_sessions (promote now e q)) j = Some r"
    then have g: "dict_get (q_sessions q) j = Some r" by simp
    show "s_key (sess (promote now e q) r) = j" "r < q_next_session (promote now e q)"
      "s_shared_spot_key (sess (promote now e q) r) = None"
      using D(2-4) [OF g] by (auto simp: promote_heap Let_def)
    have sk: "spot_key q ?s = None \<longleftrightarrow> \<not> dict_has (q_spots q) j" if "r = ?r"
      using D(2,4) [OF g] that by (simp add: spot_key_def)
    show "dict_has (q_spots (promote now e q)) j" if "0 < s_inflight (sess (promote now e q) r)"
      using that sk D(2,6) [OF g] by (auto simp: promote_heap promote_spots Let_def split: if_splits)
    assume cap: "0 \<le> q_max_inflight_per_session (promote now e q)"
    show "s_inflight (sess (promote now e q) r) \<le> max 1 (q_max_inflight_per_session (promote now e q))"
    proof (cases "r = ?r")
      case False
      then show ?thesis using D(5) [OF g] cap by (simp add: promote_heap Let_def)
    next
      case True
      have "s_inflight ?s < q_max_inflight_per_session q" if "dict_has (q_spots q) j"
        using assms(2) that sk [OF True] cap
        by (auto simp: eligible_def Let_def split: if_splits)
      moreover have "s_inflight ?s \<le> 0" if "\<not> dict_has (q_spots q) j"
        using D(6) [OF g] that True by (meson leI)
      ultimately show ?thesis
        using True by (cases "dict_has (q_spots q) j") (auto simp: promote_heap Let_def)
    qed
  qed (use D(1) in simp)
qed

lemma cap_try_promote: "cap_ok q \<Longrightarrow> cap_ok (try_promote now q)"
proof -
  have "cap_ok q \<Longrightarrow> cap_ok (promote_loop now q)"
  proof (induction now q rule: promote_loop.induct)
    case (1 now q)
    show ?case
    proof (cases "List.find (eligible q) (q_queue q)")
      case None
      then show ?thesis using "1.prems" by (simp add: promote_loop.simps [of now q])
    next
      case (Some e)
      then have "eligible q e" by (auto simp: find_Some_iff)
      then show ?thesis
        using "1.IH" [OF Some] cap_promote [OF "1.prems"] Some by (simp add: promote_loop.simps [of now q])
    qed
  qed
  then show "cap_ok q \<Longrightarrow> cap_ok (try_promote now q)" by (simp add: try_promote_def)
qed

lemma cap_release_spot:
  assumes "cap_ok q" and "dict_get (q_sessions q) j = Some r" and "s_inflight (sess q r) \<le> 0"
  shows "cap_ok (release_spot now r j q)"
  unfolding release_spot_def Let_def
  by (rule cap_try_promote, rule cap_frame [OF assms(1)])
     (use cap_okD(1) [OF assms(1)] assms(2,3) in \<open>auto split: if_splits\<close>)

lemma spot_due_inflight: "spot_due q s now \<Longrightarrow> s_inflight s \<le> 0"
  by (auto simp: spot_due_def release_deadline_def split: if_splits)

lemma cap_tick_status: "cap_ok q \<Longrightarrow> cap_ok (tick_status now r q)"
  unfolding tick_status_def split_beta Let_def by (erule cap_upd) simp_all

lemma cap_tick_one:
  assumes "cap_ok q" and "dict_get (q_sessions q) j = Some r"
  shows "cap_ok (fst (tick_one now clk (j, r) (q, rel)))"
proof -
  let ?p = "tick_status now r q"
  have p: "cap_ok ?p" by (rule cap_tick_status [OF assms(1)])
  have "cap_ok (?p\<lparr>q_sessions := dict_pop j (q_sessions ?p)\<rparr>)"
    by (rule cap_frame [OF p]) (use cap_okD(1) [OF p] in \<open>auto split: if_splits\<close>)
  moreover have "cap_ok (release_spot clk r j ?p)" if "spot_due ?p (sess ?p r) now"
    by (rule cap_release_spot [OF p]) (use assms(2) spot_due_inflight [OF that] in simp_all)
  ultimately show ?thesis using p by (simp add: tick_one_fst Let_def)
qed

lemma cap_fold_tick:
  assumes "cap_ok q" and "distinct (map fst items)"
    and "\<And>j r. (j, r) \<in> set items \<Longrightarrow> dict_get (q_sessions q) j = Some r"
  shows "cap_ok (fst (fold (tick_one now clk) items (q, rel)))"
  using assms
proof (induction items arbitrary: q rel)
  case (Cons jr items)
  obtain j r where jr: "jr = (j, r)" by (cases jr)
  obtain q1 rel1 where one: "tick_one now clk jr (q, rel) = (q1, rel1)" by fastforce
  have "dict_get (q_sessions q) j = Some r" using Cons.prems(3) [of j r] jr by simp
  then have 1: "cap_ok q1"
    using cap_tick_one [OF Cons.prems(1), of j r now clk rel] one jr by simp
  have "dict_get (q_sessions q1) i = Some x" if "(i, x) \<in> set items" for i x
  proof -
    have "i \<noteq> j" using Cons.prems(2) that jr by (auto simp: rev_image_eqI)
    then show ?thesis
      using tick_one_sessions [of i jr now clk q rel] Cons.prems(3) [of i x] that one jr by simp
  qed
  then show ?case using Cons.IH [OF 1, of rel1] Cons.prems(2) one by simp
qed simp

lemma cap_tick: "cap_ok q \<Longrightarrow> cap_ok (snd (tick now clk q))"
  using cap_fold_tick [of q "q_sessions q" now clk "[]"] cap_okD(1) [of q]
  by (simp add: tick_def split_beta dict_ok_def)

lemma cap_release: "cap_ok q \<Longrightarrow> cap_ok (release now e q)"
proof -
  assume inv: "cap_ok q"
  have 1: "cap_ok (q\<lparr>q_inflight_total := n\<rparr>)" for n
    by (rule cap_frame [OF inv]) (use cap_okD(1) [OF inv] in simp_all)
  have 2: "cap_ok (upd_sess r (\<lambda>s. s\<lparr>s_inflight := s_inflight s - 1\<rparr>) (q\<lparr>q_inflight_total := n\<rparr>))" for r n
    by (rule cap_upd [OF 1]) simp_all
  show ?thesis
    unfolding release_def Let_def
    by (rule cap_try_promote, rule cap_upd) (use inv 2 in simp_all)
qed

lemma cap_abandon: "cap_ok q \<Longrightarrow> cap_ok (abandon e q)"
proof -
  assume inv: "cap_ok q"
  have "cap_ok (q\<lparr>q_queue := x\<rparr>)" for x
    by (rule cap_frame [OF inv]) (use cap_okD(1) [OF inv] in simp_all)
  then have "cap_ok (upd_sess r (\<lambda>s. s\<lparr>s_waiting := max 0 (s_waiting s - 1)\<rparr>) (q\<lparr>q_queue := x\<rparr>))"
    for r x by (rule cap_upd) simp_all
  then show ?thesis using inv by (simp add: abandon_def remove_waiting_def)
qed

lemma cap_enqueue: "cap_ok q \<Longrightarrow> cap_ok (enqueue now e q)"
proof -
  assume inv: "cap_ok q"
  let ?u = "upd_sess (e_session (ent q e))
    (\<lambda>s. s\<lparr>s_waiting := s_waiting s + 1, s_last_path := e_path (ent q e)\<rparr>) q"
  have u: "cap_ok ?u" by (rule cap_upd [OF inv]) simp_all
  have "cap_ok (?u\<lparr>q_queue := x\<rparr>)" for x
    by (rule cap_frame [OF u]) (use cap_okD(1) [OF u] in simp_all)
  then show ?thesis unfolding enqueue_def Let_def by (intro cap_try_promote)
qed

lemma cap_get_or_create:
  assumes inv: "cap_ok q"
  shows "cap_ok (snd (get_or_create_session c i api ip ua now q))"
proof (cases "dict_get (q_sessions q) (c, i)")
  case None
  note D = cap_okD [OF inv]
  have fresh: "r \<noteq> q_next_session q" if "dict_get (q_sessions q) j = Some r" for j r
    using D(3) [OF that] by simp
  show ?thesis
    using None D fresh
    by (intro cap_okI)
       (force simp: get_or_create_session_def Let_def new_session_def less_Suc_eq split: if_splits)+
next
  case (Some r)
  have "cap_ok (upd_sess r (\<lambda>s. s\<lparr>s_api := api, s_client_ip := ip, s_last_request_at := now,
      s_idle_since := None\<rparr>) q)"
    by (rule cap_upd [OF inv]) simp_all
  then show ?thesis by (simp add: get_or_create_session_def Some)
qed

lemma cap_arrive:
  assumes "cap_ok q" and "arrive c i api ip ua path body now q = (e, q2, q3)"
  shows "cap_ok q3"
proof -
  obtain r q1 where goc: "get_or_create_session c i api ip ua now q = (r, q1)" by fastforce
  then have al: "alloc_entry r path body now q1 = (e, q2)" and en: "q3 = enqueue now e q2"
    using assms(2) by (auto simp: arrive_def Let_def split: prod.splits)
  have 1: "cap_ok q1" using cap_get_or_create [OF assms(1), of c i api ip ua now] goc by simp
  have "cap_ok q2"
    by (rule cap_frame [OF 1]) (use al cap_okD(1) [OF 1] in \<open>auto simp: alloc_entry_def Let_def\<close>)
  then show ?thesis using cap_enqueue en by simp
qed

text \<open>The events that leave a running session its spot.\<close>

fun keeps_spots :: "qevent \<Rightarrow> bool" where
  "keeps_spots (ManualRelease _ _ _) = False"
| "keeps_spots (Share _ _) = False"
| "keeps_spots _ = True"

interpretation capped: machine qsys_step "\<lambda>e _. keeps_spots e" "\<lambda>y. cap_ok (y_queue y)"
proof
  fix y :: qsys and e
  assume inv: "cap_ok (y_queue y)" and g: "keeps_spots e"
  show "cap_ok (y_queue (qsys_step e y))"
  proof (cases e)
    case (Arrive c i api ip ua path body now)
    then show ?thesis
      using cap_arrive [OF inv] by (auto simp: advance_def split: prod.splits)
  next
    case (SetReady b)
    have "cap_ok ((y_queue y)\<lparr>q_ready := b\<rparr>)"
      by (rule cap_frame [OF inv]) (use cap_okD(1) [OF inv] in simp_all)
    then show ?thesis by (simp add: SetReady)
  next
    case (Report r status detail now)
    then show ?thesis by (auto intro: cap_upd [OF inv])
  qed (use g in \<open>simp_all add: inv advance_def cap_release cap_abandon cap_tick cap_try_promote\<close>)
qed

lemma init_cap_ok: "cap_ok (init_queue n m bw se atomic im)"
  by (rule cap_okI) (simp_all add: init_queue_def)

lemma capped_config: "capped.reach y z \<Longrightarrow> q_config (y_queue z) = q_config (y_queue y)"
  by (induction rule: capped.reach.induct) (simp_all add: qsys_step_config)


text \<open>
  The cap is bypassed by a session that has lost its spot while a request is still in
  flight: with a free spot and the endpoint not atomic, \<open>_eligible\<close> lets it run
  another request whatever its in-flight count and whatever the cap - even 0.
\<close>

theorem cap_ignored_without_spot:
  assumes "dict_get (q_sessions q) (c, i) = Some r" and "s_spot_held (sess q r)"
    and "s_key (sess q r) = (c, i)" and "s_shared_spot_key (sess q r) = None"
    and "0 < s_inflight (sess q r)" and "\<not> q_atomic_requests q"
    and "int (length (dict_pop (c, i) (q_spots q))) < q_max_spots q"
    and "q_queue q = []" and "e_session (ent q e) = r"
  shows "eligible (snd (release_session now c i q)) e"
  using assms by (simp add: release_session_def release_spot_def Let_def eligible_def spot_key_def
      try_promote_def promote_loop.simps)

section \<open>Witnesses\<close>


text \<open>Session a of the concrete run, one request still in flight, nothing waiting.\<close>

definition running_a :: equeue where
  "running_a = ab_queue\<lparr>q_queue := [], q_inflight_total := 1, q_max_inflight_per_session := 1,
     q_heap := (q_heap ab_queue)(0 := ab_session_a\<lparr>s_inflight := 1\<rparr>)\<rparr>"

lemma cap_ignored_without_spot_witness:
  "eligible (snd (release_session 6 ''claude'' ''a'' running_a)) 0 \<and> \<not> eligible running_a 0"
proof -
  have "\<not> eligible running_a 0"
    by (simp add: running_a_def ab_defs init_queue_def new_session_def new_entry_def eligible_def
        spot_key_def dict_has_def)
  moreover have "eligible (snd (release_session 6 ''claude'' ''a'' running_a)) 0"
    by (rule cap_ignored_without_spot [where r = 0])
       (simp_all add: running_a_def ab_defs init_queue_def new_session_def new_entry_def)
  ultimately show ?thesis by simp
qed

end
