(* ===== verification/Relay_Store.thy ===== *)
theory Relay_Store
  imports Relay_Models
begin

text \<open>
  The SQLite store (relay/store.py over the schema of relay/db.py): the mirror of runtime
  state, the power-event and request logs, the session history, and the degraded mode.

  SQLite itself is not part of the program. A store carries the outcome of each write
  transaction by its number, any outcomes at all: it commits, or fails with a DBAPI error
  of some sqlite3 class, or raises something else. A transaction that does not commit
  leaves the tables as they were.
\<close>

section \<open>Tables\<close>

record request_record =
  rr_ts :: time
  rr_server :: string
  rr_endpoint :: string
  rr_client :: string
  rr_session_id :: string
  rr_wait_seconds :: time
  rr_active_seconds :: time
  rr_status_code :: "int option"
  rr_request_bytes :: int
  rr_response_bytes :: int

text \<open>A \<open>server_runtime\<close> row without its key; also the body of a \<open>ServerRuntimeRow\<close>.\<close>

record server_row =
  sr_power_state :: "string option"
  sr_owned :: bool
  sr_shutdown_override :: "bool option"
  sr_cycle_id :: "string option"
  sr_updated_at :: "time option"

record endpoint_row =
  er_ready :: bool
  er_ready_since :: "time option"
  er_last_check_at :: "time option"

record power_event =
  pe_ts :: time
  pe_server :: string
  pe_action :: string
  pe_reason :: string
  pe_initiated_by :: string
  pe_success :: bool

record session_row =
  hs_first_seen :: time
  hs_last_seen :: time
  hs_request_count :: int

record tables =
  tb_servers :: "(string, server_row) dict"
  tb_endpoints :: "(string, endpoint_row) dict"
  tb_events :: "power_event list"
  tb_requests :: "request_record list"
  tb_sessions :: "(string \<times> string \<times> string, session_row) dict"

section \<open>The store and its transactions\<close>

datatype sqlite_class =
    InterfaceErr | DatabaseErr | DataErr | OperationalErr | IntegrityErr | InternalErr
  | ProgrammingErr | NotSupportedErr

datatype db_outcome = DbCommit | DbApiError sqlite_class | DbOtherError string

definition request_buffer_max :: nat where
  "request_buffer_max = 10000"

record store =
  so_open :: bool
  so_tables :: tables
  so_buffer :: "request_record list"
  so_degraded :: bool
  so_dropped_writes :: nat
  so_dropped_requests :: nat
  so_outcome :: "nat \<Rightarrow> db_outcome"
  so_txn :: nat

definition init_store :: "tables \<Rightarrow> (nat \<Rightarrow> db_outcome) \<Rightarrow> store" where
  "init_store tables outcome =
     \<lparr>so_open = False, so_tables = tables, so_buffer = [], so_degraded = False,
      so_dropped_writes = 0, so_dropped_requests = 0, so_outcome = outcome, so_txn = 0\<rparr>"

text \<open>\<open>isinstance(orig, sqlite3.DatabaseError)\<close>: all classes but InterfaceError; the
  bug-indicating classes do not degrade the store.\<close>

definition db_failure :: "sqlite_class \<Rightarrow> bool" where
  "db_failure orig =
     (orig \<noteq> InterfaceErr \<and> orig \<notin> {ProgrammingErr, IntegrityErr, NotSupportedErr})"

definition note_write_failure :: "store \<Rightarrow> store" where
  "note_write_failure s =
     (let s = s\<lparr>so_dropped_writes := so_dropped_writes s + 1\<rparr> in
      if \<not> so_degraded s then s\<lparr>so_degraded := True\<rparr> else s)"

definition note_write_success :: "store \<Rightarrow> store" where
  "note_write_success s = (if so_degraded s then s\<lparr>so_degraded := False\<rparr> else s)"

text \<open>
  The frame of every write: one transaction that commits the update with its result, drops the
  write (None), or raises.
\<close>

definition write_txn :: "(tables \<Rightarrow> 'a \<times> tables) \<Rightarrow> store \<Rightarrow> 'a option res \<times> store" where
  "write_txn f s0 =
     (if \<not> so_open s0 then (Inl (OtherExn ''RuntimeError''), s0)
      else let s = s0\<lparr>so_txn := so_txn s0 + 1\<rparr> in
        case so_outcome s0 (so_txn s0) of
          DbCommit \<Rightarrow>
            (let (v, t) = f (so_tables s) in (Inr (Some v), note_write_success (s\<lparr>so_tables := t\<rparr>)))
        | DbApiError c \<Rightarrow>
            if db_failure c then (Inr None, note_write_failure s)
            else (Inl (OtherExn ''DBAPIError''), s)
        | DbOtherError x \<Rightarrow> (Inl (OtherExn x), s))"

definition drop_result :: "'a option res \<times> store \<Rightarrow> unit res \<times> store" where
  "drop_result r = (case fst r of Inl x \<Rightarrow> (Inl x, snd r) | Inr _ \<Rightarrow> (Inr (), snd r))"

text \<open>\<open>open\<close>: migrations are retried until one attempt succeeds; \<open>attempts\<close> says which do.
  None: still retrying after the last attempt.\<close>

fun open_with_retry :: "bool list \<Rightarrow> store \<Rightarrow> store option" where
  "open_with_retry [] s = None"
| "open_with_retry (ok # attempts) s =
     (if ok then Some (s\<lparr>so_open := True\<rparr>) else open_with_retry attempts s)"

text \<open>An in-memory database needs no migration and is created at once.\<close>

definition open_database :: "string \<Rightarrow> bool list \<Rightarrow> store \<Rightarrow> store option" where
  "open_database path attempts s =
     (if path = '':memory:'' then Some (s\<lparr>so_open := True\<rparr>) else open_with_retry attempts s)"

definition close_store :: "store \<Rightarrow> store" where
  "close_store s = s\<lparr>so_open := False\<rparr>"

section \<open>Server and endpoint runtime\<close>

definition reconcile_row :: "time \<Rightarrow> string \<Rightarrow> (string, server_row) dict \<times> tables \<Rightarrow> (string, server_row) dict \<times> tables" where
  "reconcile_row now name acc =
     (case acc of (rows, t) \<Rightarrow>
      case dict_get (tb_servers t) name of
        None \<Rightarrow>
          (let row = \<lparr>sr_power_state = Some ''unknown'', sr_owned = False, sr_shutdown_override = None,
                      sr_cycle_id = None, sr_updated_at = Some now\<rparr>
           in (dict_put name row rows, t\<lparr>tb_servers := dict_put name row (tb_servers t)\<rparr>))
      | Some row \<Rightarrow> (dict_put name row rows, t))"

definition unowned_row :: server_row where
  "unowned_row = \<lparr>sr_power_state = Some ''unknown'', sr_owned = False, sr_shutdown_override = None,
     sr_cycle_id = None, sr_updated_at = None\<rparr>"

definition reconcile_servers :: "string list \<Rightarrow> time \<Rightarrow> store \<Rightarrow> (string, server_row) dict res \<times> store" where
  "reconcile_servers names now s =
     (case write_txn (\<lambda>t. fold (reconcile_row now) names ([], t)) s of
        (Inl x, s') \<Rightarrow> (Inl x, s')
      | (Inr None, s') \<Rightarrow> (Inr (fold (\<lambda>name d. dict_put name unowned_row d) names []), s')
      | (Inr (Some rows), s') \<Rightarrow> (Inr rows, s'))"

text \<open>The keyword arguments of \<open>set_server_runtime\<close>; an outer None is an argument not given.\<close>

record runtime_values =
  rv_power_state :: "string option"
  rv_owned :: "bool option"
  rv_shutdown_override :: "bool option option"
  rv_cycle_id :: "string option option"

definition no_values :: runtime_values where
  "no_values = \<lparr>rv_power_state = None, rv_owned = None, rv_shutdown_override = None, rv_cycle_id = None\<rparr>"

definition apply_values :: "runtime_values \<Rightarrow> time \<Rightarrow> server_row \<Rightarrow> server_row" where
  "apply_values v now row =
     \<lparr>sr_power_state = (case rv_power_state v of None \<Rightarrow> sr_power_state row | Some p \<Rightarrow> Some p),
      sr_owned = (case rv_owned v of None \<Rightarrow> sr_owned row | Some b \<Rightarrow> b),
      sr_shutdown_override =
        (case rv_shutdown_override v of None \<Rightarrow> sr_shutdown_override row | Some x \<Rightarrow> x),
      sr_cycle_id = (case rv_cycle_id v of None \<Rightarrow> sr_cycle_id row | Some x \<Rightarrow> x),
      sr_updated_at = Some now\<rparr>"

definition set_server_runtime :: "string \<Rightarrow> runtime_values \<Rightarrow> time \<Rightarrow> store \<Rightarrow> unit res \<times> store" where
  "set_server_runtime name v now s =
     (if v = no_values then (Inr (), s)
      else drop_result (write_txn (\<lambda>t.
        case dict_get (tb_servers t) name of
          None \<Rightarrow> ((), t)
        | Some row \<Rightarrow> ((), t\<lparr>tb_servers := dict_put name (apply_values v now row) (tb_servers t)\<rparr>)) s))"

definition set_endpoint_runtime ::
    "string \<Rightarrow> bool \<Rightarrow> time option \<Rightarrow> time option \<Rightarrow> store \<Rightarrow> unit res \<times> store" where
  "set_endpoint_runtime name ready ready_since last_check_at s =
     drop_result (write_txn (\<lambda>t. ((), t\<lparr>tb_endpoints :=
       dict_put name \<lparr>er_ready = ready, er_ready_since = ready_since, er_last_check_at = last_check_at\<rparr>
         (tb_endpoints t)\<rparr>)) s)"

definition get_endpoint_runtime :: "store \<Rightarrow> (string, bool \<times> time option) dict res" where
  "get_endpoint_runtime s =
     (if \<not> so_open s then Inl (OtherExn ''RuntimeError'')
      else Inr (map (\<lambda>(name, row). (name, er_ready row, er_ready_since row)) (tb_endpoints (so_tables s))))"

section \<open>Logs and history\<close>

definition log_power_event ::
    "string \<Rightarrow> string \<Rightarrow> string \<Rightarrow> string \<Rightarrow> bool \<Rightarrow> time \<Rightarrow> store \<Rightarrow> unit res \<times> store" where
  "log_power_event server action reason initiated_by success now s =
     drop_result (write_txn (\<lambda>t. ((), t\<lparr>tb_events := tb_events t @
       [\<lparr>pe_ts = now, pe_server = server, pe_action = action, pe_reason = reason,
         pe_initiated_by = initiated_by, pe_success = success\<rparr>]\<rparr>)) s)"

text \<open>\<open>ORDER BY id DESC LIMIT n\<close>, reversed; a negative limit is no limit in SQLite.\<close>

definition last_rows :: "int \<Rightarrow> 'a list \<Rightarrow> 'a list" where
  "last_rows limit rows = (if limit < 0 then rows else drop (length rows - nat limit) rows)"

definition recent_power_events :: "int \<Rightarrow> store \<Rightarrow> power_event list res" where
  "recent_power_events limit s =
     (if \<not> so_open s then Inl (OtherExn ''RuntimeError'')
      else Inr (last_rows limit (tb_events (so_tables s))))"

definition enqueue_request :: "request_record \<Rightarrow> store \<Rightarrow> store" where
  "enqueue_request r s0 =
     (let s = (if request_buffer_max \<le> length (so_buffer s0)
               then s0\<lparr>so_dropped_requests := so_dropped_requests s0 + 1\<rparr> else s0);
          b = so_buffer s @ [r]
      in s\<lparr>so_buffer := drop (length b - request_buffer_max) b\<rparr>)"

definition bulk_log_requests :: "request_record list \<Rightarrow> store \<Rightarrow> nat res \<times> store" where
  "bulk_log_requests records s =
     (if records = [] then (Inr 0, s)
      else case write_txn (\<lambda>t. ((), t\<lparr>tb_requests := tb_requests t @ records\<rparr>)) s of
        (Inl x, s') \<Rightarrow> (Inl x, s')
      | (Inr None, s') \<Rightarrow> (Inr 0, s'\<lparr>so_dropped_requests := so_dropped_requests s' + length records\<rparr>)
      | (Inr (Some _), s') \<Rightarrow> (Inr (length records), s'))"

definition flush_requests :: "store \<Rightarrow> nat res \<times> store" where
  "flush_requests s =
     (let records = so_buffer s; s = s\<lparr>so_buffer := []\<rparr> in
      if records = [] then (Inr 0, s) else bulk_log_requests records s)"

definition get_requests :: "int \<Rightarrow> store \<Rightarrow> request_record list res" where
  "get_requests limit s =
     (if \<not> so_open s then Inl (OtherExn ''RuntimeError'')
      else Inr (last_rows limit (tb_requests (so_tables s))))"

definition upsert_session :: "string \<Rightarrow> string \<Rightarrow> string \<Rightarrow> time \<Rightarrow> store \<Rightarrow> unit res \<times> store" where
  "upsert_session client session_id endpoint now s =
     drop_result (write_txn (\<lambda>t.
       let key = (client, session_id, endpoint) in
       ((), t\<lparr>tb_sessions := dict_put key
         (case dict_get (tb_sessions t) key of
            None \<Rightarrow> \<lparr>hs_first_seen = now, hs_last_seen = now, hs_request_count = 1\<rparr>
          | Some row \<Rightarrow> row\<lparr>hs_last_seen := now, hs_request_count := hs_request_count row + 1\<rparr>)
         (tb_sessions t)\<rparr>)) s)"

section \<open>Retention\<close>

definition prune_batch :: nat where
  "prune_batch = 10000"

text \<open>One \<open>DELETE ... IN (SELECT ... LIMIT n)\<close>: at most n stale rows go.\<close>

fun delete_stale :: "nat \<Rightarrow> ('a \<Rightarrow> bool) \<Rightarrow> 'a list \<Rightarrow> 'a list" where
  "delete_stale n stale [] = []"
| "delete_stale 0 stale rows = rows"
| "delete_stale (Suc n) stale (x # xs) =
     (if stale x then delete_stale n stale xs else x # delete_stale (Suc n) stale xs)"

lemma delete_stale_length:
  "length (delete_stale n stale xs) = length xs - min n (length (filter stale xs))"
proof (induction n stale xs rule: delete_stale.induct)
  case (3 n stale x xs)
  have "length xs - k + 1 = Suc (length xs) - k" if "k \<le> length (filter stale xs)" for k
    using le_trans [OF that length_filter_le] by simp
  then show ?case using "3.IH" by (auto simp: min_def)
qed simp_all

lemma delete_stale_keeps: "filter (\<lambda>x. \<not> stale x) (delete_stale n stale xs) = filter (\<lambda>x. \<not> stale x) xs"
  by (induction n stale xs rule: delete_stale.induct) auto

lemma delete_stale_all:
  "length (filter stale xs) \<le> n \<Longrightarrow> delete_stale n stale xs = filter (\<lambda>x. \<not> stale x) xs"
proof (induction n stale xs rule: delete_stale.induct)
  case (2 stale x xs)
  then have "filter stale (x # xs) = []" by (simp only: le_zero_eq length_0_conv)
  then show ?case by (auto simp: filter_empty_conv intro!: filter_True [symmetric])
qed auto

text \<open>The \<open>while True\<close> of \<open>prune\<close>: stops at the first batch that is not full.\<close>

function prune_loop :: "('a \<Rightarrow> bool) \<Rightarrow> 'a list \<Rightarrow> nat \<Rightarrow> nat \<times> 'a list" where
  "prune_loop stale rows cnt =
     (let rows' = delete_stale prune_batch stale rows; n = length rows - length rows' in
      if n < prune_batch then (cnt + n, rows') else prune_loop stale rows' (cnt + n))"
  by pat_completeness auto
termination
  by (relation "measure (\<lambda>(stale, rows, cnt). length rows)")
     (auto simp: delete_stale_length prune_batch_def)

declare prune_loop.simps [simp del]

definition prune :: "int \<Rightarrow> time \<Rightarrow> store \<Rightarrow> (string, nat) dict res \<times> store" where
  "prune retention_days now s =
     (let cutoff = now - of_int retention_days * 86400 in
      case write_txn (\<lambda>t.
        let (n1, reqs) = prune_loop (\<lambda>r. rr_ts r < cutoff) (tb_requests t) 0;
            (n2, evs) = prune_loop (\<lambda>e. pe_ts e < cutoff) (tb_events t) 0;
            (n3, sess) = prune_loop (\<lambda>(k, row). hs_last_seen row < cutoff) (tb_sessions t) 0
        in ([(''requests'', n1), (''power_events'', n2), (''sessions'', n3)],
            t\<lparr>tb_requests := reqs, tb_events := evs, tb_sessions := sess\<rparr>)) s of
        (Inl x, s') \<Rightarrow> (Inl x, s')
      | (Inr None, s') \<Rightarrow> (Inr [], s')
      | (Inr (Some deleted), s') \<Rightarrow> (Inr deleted, s'))"

section \<open>Transactions\<close>

lemma note_simps [simp]:
  "so_open (note_write_failure s) = so_open s" "so_tables (note_write_failure s) = so_tables s"
  "so_buffer (note_write_failure s) = so_buffer s" "so_degraded (note_write_failure s) = True"
  "so_dropped_writes (note_write_failure s) = so_dropped_writes s + 1"
  "so_dropped_requests (note_write_failure s) = so_dropped_requests s"
  "so_outcome (note_write_failure s) = so_outcome s" "so_txn (note_write_failure s) = so_txn s"
  "so_open (note_write_success s) = so_open s" "so_tables (note_write_success s) = so_tables s"
  "so_buffer (note_write_success s) = so_buffer s" "so_degraded (note_write_success s) = False"
  "so_dropped_writes (note_write_success s) = so_dropped_writes s"
  "so_dropped_requests (note_write_success s) = so_dropped_requests s"
  "so_outcome (note_write_success s) = so_outcome s" "so_txn (note_write_success s) = so_txn s"
  by (simp_all add: note_write_failure_def note_write_success_def Let_def)

text \<open>An outcome the store absorbs: a commit or an environmental failure.\<close>

fun benign :: "db_outcome \<Rightarrow> bool" where
  "benign DbCommit = True"
| "benign (DbApiError c) = db_failure c"
| "benign (DbOtherError x) = False"

definition committed :: "store \<Rightarrow> bool" where
  "committed s \<longleftrightarrow> so_outcome s (so_txn s) = DbCommit"

lemma write_txn_commit:
  "so_open s \<Longrightarrow> committed s \<Longrightarrow> write_txn f s =
     (Inr (Some (fst (f (so_tables s)))),
      note_write_success (s\<lparr>so_txn := so_txn s + 1, so_tables := snd (f (so_tables s))\<rparr>))"
  by (simp add: write_txn_def committed_def Let_def split_beta)

lemma write_txn_drop:
  "so_open s \<Longrightarrow> \<not> committed s \<Longrightarrow> benign (so_outcome s (so_txn s)) \<Longrightarrow>
   write_txn f s = (Inr None, note_write_failure (s\<lparr>so_txn := so_txn s + 1\<rparr>))"
  by (cases "so_outcome s (so_txn s)") (simp_all add: write_txn_def committed_def Let_def)

text \<open>What one absorbed transaction does to the store, tables aside.\<close>

definition absorbed :: "store \<Rightarrow> store \<Rightarrow> bool" where
  "absorbed s s' \<longleftrightarrow> so_open s' \<and> so_buffer s' = so_buffer s \<and> so_outcome s' = so_outcome s \<and>
     so_txn s' = so_txn s + 1 \<and> so_dropped_requests s' = so_dropped_requests s \<and>
     so_dropped_writes s' = so_dropped_writes s + (if committed s then 0 else 1) \<and>
     so_degraded s' = (\<not> committed s) \<and> (\<not> committed s \<longrightarrow> so_tables s' = so_tables s)"

lemma write_txn_absorbs:
  assumes "so_open s" and "benign (so_outcome s (so_txn s))"
  shows "\<exists>r s'. write_txn f s = (Inr r, s') \<and> absorbed s s' \<and>
    (committed s \<longrightarrow> r = Some (fst (f (so_tables s))) \<and> so_tables s' = snd (f (so_tables s))) \<and>
    (\<not> committed s \<longrightarrow> r = None)"
  using write_txn_commit [OF assms(1), of f] write_txn_drop [OF assms(1) _ assms(2), of f] assms(1)
  by (cases "committed s") (simp_all add: absorbed_def)

lemma drop_result_Inr: "drop_result (Inr r, s') = (Inr (), s')"
  by (simp add: drop_result_def)

lemma drop_txn_absorbs:
  assumes "so_open s" and "benign (so_outcome s (so_txn s))"
  shows "\<exists>s'. drop_result (write_txn f s) = (Inr (), s') \<and> absorbed s s' \<and>
    (committed s \<longrightarrow> so_tables s' = snd (f (so_tables s)))"
  using write_txn_absorbs [OF assms, of f] by (auto simp: drop_result_Inr)

lemma drop_txn_absorbs1:
  assumes "so_open s" and "benign (so_outcome s (so_txn s))"
  shows "\<exists>s'. drop_result (write_txn f s) = (Inr (), s') \<and> absorbed s s'"
  using drop_txn_absorbs [OF assms, of f] by blast

lemma set_server_runtime_absorbs:
  assumes "so_open s" and "benign (so_outcome s (so_txn s))" and "v \<noteq> no_values"
  shows "\<exists>s'. set_server_runtime name v now s = (Inr (), s') \<and> absorbed s s'"
  unfolding set_server_runtime_def if_not_P [OF assms(3)] by (rule drop_txn_absorbs1 [OF assms(1,2)])

lemma log_power_event_absorbs:
  assumes "so_open s" and "benign (so_outcome s (so_txn s))"
  shows "\<exists>s'. log_power_event server action reason by_whom ok now s = (Inr (), s') \<and> absorbed s s'"
  unfolding log_power_event_def by (rule drop_txn_absorbs1 [OF assms])

lemma upsert_session_absorbs:
  assumes "so_open s" and "benign (so_outcome s (so_txn s))"
  shows "\<exists>s'. upsert_session c i e now s = (Inr (), s') \<and> absorbed s s'"
  unfolding upsert_session_def by (rule drop_txn_absorbs1 [OF assms])

lemma set_endpoint_runtime_absorbs:
  assumes "so_open s" and "benign (so_outcome s (so_txn s))"
  shows "\<exists>s'. set_endpoint_runtime n b rs lc s = (Inr (), s') \<and> absorbed s s'"
  unfolding set_endpoint_runtime_def by (rule drop_txn_absorbs1 [OF assms])

lemma prune_absorbs:
  assumes "so_open s" and "benign (so_outcome s (so_txn s))"
  shows "\<exists>d s'. prune days now s = (Inr d, s') \<and> absorbed s s'"
proof -
  note w = write_txn_absorbs [OF assms]
  show ?thesis
    unfolding prune_def Let_def
    using w [of "\<lambda>t. case prune_loop (\<lambda>r. rr_ts r < now - of_int days * 86400) (tb_requests t) 0 of
        (n1, reqs) \<Rightarrow> case prune_loop (\<lambda>e. pe_ts e < now - of_int days * 86400) (tb_events t) 0 of
        (n2, evs) \<Rightarrow> case prune_loop (\<lambda>(k, row). hs_last_seen row < now - of_int days * 86400) (tb_sessions t) 0 of
        (n3, sess) \<Rightarrow> ([(''requests'', n1), (''power_events'', n2), (''sessions'', n3)],
            t\<lparr>tb_requests := reqs, tb_events := evs, tb_sessions := sess\<rparr>)"]
    by (auto split: option.split)
qed

lemma reconcile_absorbs:
  assumes "so_open s" and "benign (so_outcome s (so_txn s))"
  shows "\<exists>d s'. reconcile_servers names now s = (Inr d, s') \<and> absorbed s s'"
  using write_txn_absorbs [OF assms, of "\<lambda>t. fold (reconcile_row now) names ([], t)"]
  by (auto simp: reconcile_servers_def split: option.split)

section \<open>The store as a machine\<close>

datatype store_event =
    StageRequest request_record
  | Flush
  | Upsert string string string time
  | LogEvent string string string string bool time
  | SetServer string runtime_values time
  | SetEndpoint string bool "time option" "time option"
  | Prune int time
  | Reconcile "string list" time

text \<open>\<open>ss_staged\<close> and \<open>ss_logged\<close> count the records ever staged and ever reported as written.\<close>

record store_sys =
  ss_store :: store
  ss_staged :: nat
  ss_logged :: nat

primrec store_step :: "store_event \<Rightarrow> store_sys \<Rightarrow> store_sys" where
  "store_step (StageRequest r) y =
     y\<lparr>ss_store := enqueue_request r (ss_store y), ss_staged := ss_staged y + 1\<rparr>"
| "store_step Flush y =
     (case flush_requests (ss_store y) of
        (Inl x, s) \<Rightarrow> y\<lparr>ss_store := s\<rparr>
      | (Inr n, s) \<Rightarrow> y\<lparr>ss_store := s, ss_logged := ss_logged y + n\<rparr>)"
| "store_step (Upsert c i e now) y = y\<lparr>ss_store := snd (upsert_session c i e now (ss_store y))\<rparr>"
| "store_step (LogEvent sv a r b ok now) y =
     y\<lparr>ss_store := snd (log_power_event sv a r b ok now (ss_store y))\<rparr>"
| "store_step (SetServer n v now) y = y\<lparr>ss_store := snd (set_server_runtime n v now (ss_store y))\<rparr>"
| "store_step (SetEndpoint n b rs lc) y = y\<lparr>ss_store := snd (set_endpoint_runtime n b rs lc (ss_store y))\<rparr>"
| "store_step (Prune d now) y = y\<lparr>ss_store := snd (prune d now (ss_store y))\<rparr>"
| "store_step (Reconcile ns now) y = y\<lparr>ss_store := snd (reconcile_servers ns now (ss_store y))\<rparr>"

definition store_guard :: "store_event \<Rightarrow> store_sys \<Rightarrow> bool" where
  "store_guard e y = benign (so_outcome (ss_store y) (so_txn (ss_store y)))"

definition failed_writes :: "store \<Rightarrow> nat" where
  "failed_writes s = length (filter (\<lambda>i. so_outcome s i \<noteq> DbCommit) [0..<so_txn s])"

definition store_counts :: "store \<Rightarrow> bool" where
  "store_counts s \<longleftrightarrow> so_open s \<and> so_dropped_writes s = failed_writes s \<and>
     so_degraded s = (0 < so_txn s \<and> so_outcome s (so_txn s - 1) \<noteq> DbCommit)"

definition store_inv :: "store_sys \<Rightarrow> bool" where
  "store_inv y \<longleftrightarrow> store_counts (ss_store y) \<and> length (so_buffer (ss_store y)) \<le> request_buffer_max \<and>
     ss_staged y = ss_logged y + so_dropped_requests (ss_store y) + length (so_buffer (ss_store y))"

lemma absorbed_counts: "absorbed s s' \<Longrightarrow> store_counts s \<Longrightarrow> store_counts s'"
  by (auto simp: absorbed_def store_counts_def failed_writes_def committed_def)

lemma absorbed_inv:
  assumes "store_inv y" and "absorbed (ss_store y) s'"
  shows "store_inv (y\<lparr>ss_store := s'\<rparr>)"
  using assms absorbed_counts [of "ss_store y" s'] by (simp add: store_inv_def absorbed_def)

lemma stage_inv:
  assumes "store_inv y"
  shows "store_inv (store_step (StageRequest r) y)"
proof -
  let ?s = "ss_store y"
  have "store_counts (enqueue_request r ?s)"
    using assms by (simp add: store_inv_def store_counts_def enqueue_request_def Let_def failed_writes_def)
  moreover have "0 < request_buffer_max" by (simp add: request_buffer_max_def)
  ultimately show ?thesis using assms
    by (cases "request_buffer_max \<le> length (so_buffer ?s)")
       (auto simp: store_inv_def enqueue_request_def Let_def)
qed

lemma flush_inv:
  assumes "store_inv y" and "benign (so_outcome (ss_store y) (so_txn (ss_store y)))"
  shows "store_inv (store_step Flush y)"
proof (cases "so_buffer (ss_store y) = []")
  case True
  have "store_counts (ss_store y\<lparr>so_buffer := []\<rparr>) = store_counts (ss_store y)"
    by (simp add: store_counts_def failed_writes_def)
  then show ?thesis using assms True by (simp add: flush_requests_def Let_def store_inv_def)
next
  case False
  let ?s = "ss_store y\<lparr>so_buffer := []\<rparr>"
  have op: "so_open ?s" using assms(1) by (simp add: store_inv_def store_counts_def)
  have b: "benign (so_outcome ?s (so_txn ?s))" using assms(2) by simp
  have c: "store_counts ?s" using assms(1) by (simp add: store_inv_def store_counts_def failed_writes_def)
  obtain r s' where w: "write_txn (\<lambda>t. ((), t\<lparr>tb_requests := tb_requests t @ so_buffer (ss_store y)\<rparr>)) ?s = (Inr r, s')"
    and a: "absorbed ?s s'" and r: "committed ?s \<longrightarrow> r = Some ()" "\<not> committed ?s \<longrightarrow> r = None"
    using write_txn_absorbs [OF op b, of "\<lambda>t. ((), t\<lparr>tb_requests := tb_requests t @ so_buffer (ss_store y)\<rparr>)"]
    by auto
  have c': "store_counts s'" by (rule absorbed_counts [OF a c])
  show ?thesis
  proof (cases "committed ?s")
    case True
    then have "flush_requests (ss_store y) = (Inr (length (so_buffer (ss_store y))), s')"
      using False w r by (simp add: flush_requests_def bulk_log_requests_def Let_def)
    then show ?thesis using a c' assms(1) by (simp add: store_inv_def absorbed_def)
  next
    case nc: False
    let ?t = "s'\<lparr>so_dropped_requests := so_dropped_requests s' + length (so_buffer (ss_store y))\<rparr>"
    have "flush_requests (ss_store y) = (Inr 0, ?t)"
      using False w r nc by (simp add: flush_requests_def bulk_log_requests_def Let_def)
    moreover have "store_counts ?t" using c' by (simp add: store_counts_def failed_writes_def)
    ultimately show ?thesis using a assms(1) by (simp add: store_inv_def absorbed_def)
  qed
qed

interpretation sm: machine store_step store_guard store_inv
proof
  fix y :: store_sys and e
  assume inv: "store_inv y" and g: "store_guard e y"
  have b: "benign (so_outcome (ss_store y) (so_txn (ss_store y)))" using g by (simp add: store_guard_def)
  have op: "so_open (ss_store y)" using inv by (simp add: store_inv_def store_counts_def)
  show "store_inv (store_step e y)"
  proof (cases e)
    case (StageRequest r)
    then show ?thesis using stage_inv [OF inv] by simp
  next
    case Flush
    then show ?thesis using flush_inv [OF inv b] by simp
  next
    case (Upsert c i e now)
    then show ?thesis using upsert_session_absorbs [OF op b, of c i e now] absorbed_inv [OF inv] by auto
  next
    case (LogEvent sv a r by_whom ok now)
    then show ?thesis using log_power_event_absorbs [OF op b, of sv a r by_whom ok now] absorbed_inv [OF inv] by auto
  next
    case (SetServer n v now)
    then show ?thesis
      using set_server_runtime_absorbs [OF op b, of v n now] absorbed_inv [OF inv] inv
      by (cases "v = no_values") (auto simp: set_server_runtime_def)
  next
    case (SetEndpoint n rdy rs lc)
    then show ?thesis using set_endpoint_runtime_absorbs [OF op b, of n rdy rs lc] absorbed_inv [OF inv] by auto
  next
    case (Prune d now)
    then show ?thesis using prune_absorbs [OF op b, of d now] absorbed_inv [OF inv] by auto
  next
    case (Reconcile ns now)
    then show ?thesis using reconcile_absorbs [OF op b, of ns now] absorbed_inv [OF inv] by auto
  qed
qed

text \<open>
  C19: Degraded mode. Whatever the database does short of a bug-class error, from any sequence
  of staging, flushing, mirroring, logging, pruning and reconciling: the store is degraded
  exactly when its last write failed, it has counted every failed write, the request buffer
  never exceeds 10000 records, and every request record ever staged is accounted
  for: it was written, counted as dropped, or is still buffered.
\<close>

theorem store_accounts_for_everything:
  assumes "sm.reach \<lparr>ss_store = (init_store t outcome)\<lparr>so_open := True\<rparr>, ss_staged = 0, ss_logged = 0\<rparr> y"
  shows "so_degraded (ss_store y) =
      (0 < so_txn (ss_store y) \<and> so_outcome (ss_store y) (so_txn (ss_store y) - 1) \<noteq> DbCommit) \<and>
    so_dropped_writes (ss_store y) = failed_writes (ss_store y) \<and>
    length (so_buffer (ss_store y)) \<le> 10000 \<and>
    ss_staged y = ss_logged y + so_dropped_requests (ss_store y) + length (so_buffer (ss_store y))"
proof -
  have "store_inv \<lparr>ss_store = (init_store t outcome)\<lparr>so_open := True\<rparr>, ss_staged = 0, ss_logged = 0\<rparr>"
    by (simp add: store_inv_def store_counts_def init_store_def failed_writes_def)
  from sm.reach_inv [OF assms this] show ?thesis
    by (simp add: store_inv_def store_counts_def request_buffer_max_def)
qed

section \<open>Restart\<close>

lemma reconcile_fold:
  "fold (reconcile_row now) names (rows, t) = (rows', t') \<Longrightarrow>
   (\<forall>n. dict_get rows' n =
      (if n \<in> set names then
         Some (case dict_get (tb_servers t) n of Some row \<Rightarrow> row | None \<Rightarrow> unowned_row\<lparr>sr_updated_at := Some now\<rparr>)
       else dict_get rows n)) \<and>
   (\<forall>n. dict_get (tb_servers t') n =
      (if n \<in> set names then
         Some (case dict_get (tb_servers t) n of Some row \<Rightarrow> row | None \<Rightarrow> unowned_row\<lparr>sr_updated_at := Some now\<rparr>)
       else dict_get (tb_servers t) n))"
proof (induction names arbitrary: rows t)
  case (Cons name names)
  obtain rows1 t1 where one: "reconcile_row now name (rows, t) = (rows1, t1)" by fastforce
  have g: "dict_get rows1 n = (if n = name
      then Some (case dict_get (tb_servers t) n of Some row \<Rightarrow> row | None \<Rightarrow> unowned_row\<lparr>sr_updated_at := Some now\<rparr>)
      else dict_get rows n) \<and>
    dict_get (tb_servers t1) n = (if n = name
      then Some (case dict_get (tb_servers t) n of Some row \<Rightarrow> row | None \<Rightarrow> unowned_row\<lparr>sr_updated_at := Some now\<rparr>)
      else dict_get (tb_servers t) n)" for n
    using one by (auto simp: reconcile_row_def unowned_row_def Let_def split: option.splits)
  have "fold (reconcile_row now) names (rows1, t1) = (rows', t')" using Cons.prems one by simp
  note IH = Cons.IH [OF this]
  show ?case
  proof (intro conjI allI)
    fix n
    show "dict_get rows' n = (if n \<in> set (name # names)
        then Some (case dict_get (tb_servers t) n of Some row \<Rightarrow> row | None \<Rightarrow> unowned_row\<lparr>sr_updated_at := Some now\<rparr>)
        else dict_get rows n)"
      using IH g [of n] by (cases "n = name") simp_all
    show "dict_get (tb_servers t') n = (if n \<in> set (name # names)
        then Some (case dict_get (tb_servers t) n of Some row \<Rightarrow> row | None \<Rightarrow> unowned_row\<lparr>sr_updated_at := Some now\<rparr>)
        else dict_get (tb_servers t) n)"
      using IH g [of n] by (cases "n = name") simp_all
  qed
qed simp

lemma fold_put_const:
  "dict_get (fold (\<lambda>n d. dict_put n v d) names d) n = (if n \<in> set names then Some v else dict_get d n)"
  by (induction names arbitrary: d) auto

text \<open>
  Restarts are safe. Reconciliation never raises on an environmental failure. When it
  commits, every configured server gets exactly its persisted ownership, override, cycle
  and power state; a server without a row gets an unowned row of unknown power, and no other
  row changes. When it does not commit, every server starts unowned and nothing is written.
\<close>

theorem restart_restores_ownership:
  assumes "so_open s" and "benign (so_outcome s (so_txn s))"
  shows "\<exists>rows s'. reconcile_servers names now s = (Inr rows, s') \<and>
    (if committed s then
       (\<forall>n. dict_get rows n = (if n \<in> set names then
          Some (case dict_get (tb_servers (so_tables s)) n of Some row \<Rightarrow> row
                | None \<Rightarrow> unowned_row\<lparr>sr_updated_at := Some now\<rparr>) else None)) \<and>
       (\<forall>n. dict_get (tb_servers (so_tables s')) n =
          (if n \<in> set names then dict_get rows n else dict_get (tb_servers (so_tables s)) n))
     else (\<forall>n. dict_get rows n = (if n \<in> set names then Some unowned_row else None)) \<and>
       so_tables s' = so_tables s)"
proof (cases "committed s")
  case True
  obtain rows t where f: "fold (reconcile_row now) names ([], so_tables s) = (rows, t)" by fastforce
  have "reconcile_servers names now s = (Inr rows, note_write_success (s\<lparr>so_txn := so_txn s + 1, so_tables := t\<rparr>))"
    unfolding reconcile_servers_def write_txn_commit [OF assms(1) True] by (simp add: f)
  then show ?thesis using reconcile_fold [OF f] True by auto
next
  case False
  have "reconcile_servers names now s =
      (Inr (fold (\<lambda>name d. dict_put name unowned_row d) names []), note_write_failure (s\<lparr>so_txn := so_txn s + 1\<rparr>))"
    unfolding reconcile_servers_def write_txn_drop [OF assms(1) False assms(2)] by simp
  then show ?thesis using False by (simp add: fold_put_const)
qed

section \<open>Retention\<close>

lemma prune_loop_eq:
  "prune_loop stale rows cnt = (cnt + length (filter stale rows), filter (\<lambda>x. \<not> stale x) rows)"
proof (induction stale rows cnt rule: prune_loop.induct)
  case (1 stale rows cnt)
  let ?rows' = "delete_stale prune_batch stale rows"
  have n: "length rows - length ?rows' = min prune_batch (length (filter stale rows))"
    using length_filter_le [of stale rows] by (simp add: delete_stale_length min_le_iff_disj)
  show ?case
  proof (cases "length (filter stale rows) < prune_batch")
    case True
    then have "?rows' = filter (\<lambda>x. \<not> stale x) rows" by (intro delete_stale_all) simp
    then show ?thesis
      using True n by (simp add: prune_loop.simps [of stale rows] Let_def)
  next
    case False
    have split: "length (filter stale xs) + length (filter (\<lambda>x. \<not> stale x) xs) = length xs" for xs
      by (rule sum_length_filter_compl)
    have "length (filter stale ?rows') = length (filter stale rows) - prune_batch"
      using split [of rows] split [of ?rows'] n False delete_stale_keeps [of stale prune_batch rows]
        delete_stale_length [of prune_batch stale rows]
      by simp
    then show ?thesis
      using "1.IH" [OF refl refl] n False
      by (simp add: prune_loop.simps [of stale rows] Let_def delete_stale_keeps)
  qed
qed

text \<open>
  Retention deletes exactly the rows older than the cutoff, however many batches that
  takes: the counts it returns are the numbers of stale rows, every younger row stays,
  in order, and the runtime tables are untouched. When the transaction fails nothing is
  deleted and no count is reported.
\<close>

theorem prune_deletes_exactly_stale_rows:
  assumes "so_open s" and "benign (so_outcome s (so_txn s))"
    and "cutoff = now - of_int retention_days * 86400"
  shows "\<exists>deleted s'. prune retention_days now s = (Inr deleted, s') \<and>
    (if committed s then
       deleted = [(''requests'', length (filter (\<lambda>r. rr_ts r < cutoff) (tb_requests (so_tables s)))),
         (''power_events'', length (filter (\<lambda>e. pe_ts e < cutoff) (tb_events (so_tables s)))),
         (''sessions'', length (filter (\<lambda>x. hs_last_seen (snd x) < cutoff) (tb_sessions (so_tables s))))] \<and>
       so_tables s' = (so_tables s)
         \<lparr>tb_requests := filter (\<lambda>r. \<not> rr_ts r < cutoff) (tb_requests (so_tables s)),
          tb_events := filter (\<lambda>e. \<not> pe_ts e < cutoff) (tb_events (so_tables s)),
          tb_sessions := filter (\<lambda>x. \<not> hs_last_seen (snd x) < cutoff) (tb_sessions (so_tables s))\<rparr>
     else deleted = [] \<and> so_tables s' = so_tables s)"
proof (cases "committed s")
  case True
  show ?thesis
    unfolding prune_def Let_def write_txn_commit [OF assms(1) True]
    by (simp add: prune_loop_eq True assms(3) case_prod_unfold)
next
  case False
  show ?thesis
    unfolding prune_def Let_def write_txn_drop [OF assms(1) False assms(2)]
    by (simp add: False)
qed

text \<open>
  A flush that fails with a bug-class database error loses its batch without counting it:
  the buffer is emptied, the records are in no table, and \<open>dropped_requests\<close> stays.
\<close>

theorem bug_class_flush_loses_batch:
  assumes "so_open s" and "so_buffer s \<noteq> []"
    and "so_outcome s (so_txn s) = DbApiError c" and "\<not> db_failure c"
  shows "isl (fst (flush_requests s)) \<and> so_buffer (snd (flush_requests s)) = [] \<and>
    so_tables (snd (flush_requests s)) = so_tables s \<and>
    so_dropped_requests (snd (flush_requests s)) = so_dropped_requests s"
  using assms by (simp add: flush_requests_def bulk_log_requests_def write_txn_def Let_def)

section \<open>Witnesses\<close>

definition empty_tables :: tables where
  "empty_tables = \<lparr>tb_servers = [], tb_endpoints = [], tb_events = [], tb_requests = [], tb_sessions = []\<rparr>"

definition demo_record :: "time \<Rightarrow> request_record" where
  "demo_record ts = \<lparr>rr_ts = ts, rr_server = ''gpu'', rr_endpoint = ''llm'', rr_client = ''opencode'',
     rr_session_id = ''ses_7'', rr_wait_seconds = 1, rr_active_seconds = 2, rr_status_code = Some 200,
     rr_request_bytes = 10, rr_response_bytes = 20\<rparr>"

text \<open>The first write fails with a full disk, every later one commits.\<close>

definition disk_full_once :: "nat \<Rightarrow> db_outcome" where
  "disk_full_once i = (if i = 0 then DbApiError OperationalErr else DbCommit)"

definition demo_store :: store where
  "demo_store = (init_store (empty_tables
     \<lparr>tb_servers := [(''gpu'', \<lparr>sr_power_state = Some ''on'', sr_owned = True, sr_shutdown_override = Some False,
        sr_cycle_id = Some ''c1'', sr_updated_at = Some 3\<rparr>)],
      tb_requests := [demo_record 0, demo_record 86400]\<rparr>) disk_full_once)\<lparr>so_open := True\<rparr>"

lemma store_accounts_for_everything_witness:
  "ss_staged (sm.run [StageRequest (demo_record 1), Flush, StageRequest (demo_record 2)]
     \<lparr>ss_store = demo_store, ss_staged = 0, ss_logged = 0\<rparr>) = 0 + 1 + 1 \<and>
   so_degraded (ss_store (sm.run [StageRequest (demo_record 1), Flush, StageRequest (demo_record 2)]
     \<lparr>ss_store = demo_store, ss_staged = 0, ss_logged = 0\<rparr>))"
proof -
  let ?y = "\<lparr>ss_store = demo_store, ss_staged = 0, ss_logged = 0\<rparr>"
  let ?es = "[StageRequest (demo_record 1), Flush, StageRequest (demo_record 2)]"
  have "sm.reach ?y (sm.run ?es ?y)"
    by (rule sm.run_reach)
       (simp add: store_guard_def demo_store_def init_store_def disk_full_once_def enqueue_request_def
          db_failure_def request_buffer_max_def Let_def flush_requests_def bulk_log_requests_def
          write_txn_def note_write_failure_def)
  from store_accounts_for_everything [OF this [unfolded demo_store_def]]
  show ?thesis unfolding demo_store_def [symmetric]
    by (simp add: demo_store_def init_store_def disk_full_once_def enqueue_request_def
          db_failure_def request_buffer_max_def Let_def flush_requests_def bulk_log_requests_def
          write_txn_def note_write_failure_def)
qed

lemma restart_restores_ownership_witness:
  "\<exists>rows s'. reconcile_servers [''gpu''] 5 (demo_store\<lparr>so_txn := 1\<rparr>) = (Inr rows, s') \<and>
     map_option sr_owned (dict_get rows ''gpu'') = Some True \<and>
     map_option sr_shutdown_override (dict_get rows ''gpu'') = Some (Some False)"
  using restart_restores_ownership [of "demo_store\<lparr>so_txn := 1\<rparr>" "[''gpu'']" 5]
  by (auto simp: demo_store_def init_store_def disk_full_once_def committed_def)

lemma prune_deletes_exactly_stale_rows_witness:
  "\<exists>deleted s'. prune 1 100000 (demo_store\<lparr>so_txn := 1\<rparr>) = (Inr deleted, s') \<and>
     tb_requests (so_tables s') = [demo_record 86400]"
  using prune_deletes_exactly_stale_rows [of "demo_store\<lparr>so_txn := 1\<rparr>" 13600 100000 1]
  by (auto simp: demo_store_def init_store_def disk_full_once_def committed_def demo_record_def)

lemma bug_class_flush_loses_batch_witness:
  "so_buffer (snd (flush_requests (demo_store\<lparr>so_buffer := [demo_record 1],
     so_outcome := (\<lambda>_. DbApiError IntegrityErr)\<rparr>))) = [] \<and>
   so_dropped_requests (snd (flush_requests (demo_store\<lparr>so_buffer := [demo_record 1],
     so_outcome := (\<lambda>_. DbApiError IntegrityErr)\<rparr>))) = 0"
  using bug_class_flush_loses_batch [of "demo_store\<lparr>so_buffer := [demo_record 1],
     so_outcome := (\<lambda>_. DbApiError IntegrityErr)\<rparr>" IntegrityErr]
  by (simp add: db_failure_def demo_store_def init_store_def)

end
