(* ===== verification/Relay_Schema.thy ===== *)
theory Relay_Schema
  imports Relay_Store
begin

text \<open>
  The database schema: the mapped classes of relay/db.py, the migration in
  relay/migrations/versions, the engine factory, and the rows the store writes.

  A migration is the list of its operations, in order. What an operation does to a schema is that of
  the SQL statement it stands for: it fails when the table or index it names is missing or already
  there. Alembic, which decides that a migration has to run, is not modelled.
\<close>

section \<open>Schemas\<close>

datatype sql_type = SqlText | SqlBoolean | SqlFloat | SqlInteger

record sql_column =
  cl_name :: string
  cl_type :: sql_type
  cl_nullable :: bool

text \<open>An index is a name with its columns; none of the program's is unique.\<close>

record sql_table =
  tt_columns :: "sql_column list"
  tt_key :: "string list"
  tt_indexes :: "(string, string list) dict"

type_synonym schema = "(string, sql_table) dict"

definition column :: "string \<Rightarrow> sql_type \<Rightarrow> bool \<Rightarrow> sql_column" where
  "column name ty nullable = \<lparr>cl_name = name, cl_type = ty, cl_nullable = nullable\<rparr>"

definition index_names :: "schema \<Rightarrow> string list" where
  "index_names s = concat (map (\<lambda>(_, t). dict_keys (tt_indexes t)) s)"

section \<open>The mapped classes\<close>

text \<open>A mapped attribute: whether its annotation is optional, its type, whether it is in the key. It
  becomes a nullable column when it is optional and no key.\<close>

record mapped_attribute =
  ma_name :: string
  ma_optional :: bool
  ma_type :: sql_type
  ma_primary_key :: bool

record mapped_class =
  mc_table :: string
  mc_attributes :: "mapped_attribute list"
  mc_indexes :: "(string, string list) dict"

definition key_attribute :: "string \<Rightarrow> sql_type \<Rightarrow> mapped_attribute" where
  "key_attribute name ty = \<lparr>ma_name = name, ma_optional = False, ma_type = ty, ma_primary_key = True\<rparr>"

definition attribute :: "string \<Rightarrow> bool \<Rightarrow> sql_type \<Rightarrow> mapped_attribute" where
  "attribute name optional ty =
     \<lparr>ma_name = name, ma_optional = optional, ma_type = ty, ma_primary_key = False\<rparr>"

definition column_of :: "mapped_attribute \<Rightarrow> sql_column" where
  "column_of a = column (ma_name a) (ma_type a) (ma_optional a \<and> \<not> ma_primary_key a)"

definition table_of :: "mapped_class \<Rightarrow> sql_table" where
  "table_of c =
     \<lparr>tt_columns = map column_of (mc_attributes c),
      tt_key = map ma_name (filter ma_primary_key (mc_attributes c)), tt_indexes = mc_indexes c\<rparr>"

definition server_runtime_class :: mapped_class where
  "server_runtime_class =
     \<lparr>mc_table = ''server_runtime'',
      mc_attributes = [key_attribute ''name'' SqlText, attribute ''power_state'' True SqlText,
        attribute ''owned'' False SqlBoolean, attribute ''shutdown_override'' True SqlBoolean,
        attribute ''cycle_id'' True SqlText, attribute ''updated_at'' True SqlFloat],
      mc_indexes = []\<rparr>"

definition endpoint_runtime_class :: mapped_class where
  "endpoint_runtime_class =
     \<lparr>mc_table = ''endpoint_runtime'',
      mc_attributes = [key_attribute ''name'' SqlText, attribute ''ready'' True SqlBoolean,
        attribute ''ready_since'' True SqlFloat, attribute ''last_check_at'' True SqlFloat],
      mc_indexes = []\<rparr>"

definition power_event_class :: mapped_class where
  "power_event_class =
     \<lparr>mc_table = ''power_events'',
      mc_attributes = [key_attribute ''id'' SqlInteger, attribute ''ts'' True SqlFloat,
        attribute ''server'' True SqlText, attribute ''action'' True SqlText,
        attribute ''reason'' True SqlText, attribute ''initiated_by'' True SqlText,
        attribute ''success'' True SqlBoolean],
      mc_indexes = [(''idx_power_events_server'', [''server'', ''ts''])]\<rparr>"

definition request_log_class :: mapped_class where
  "request_log_class =
     \<lparr>mc_table = ''requests'',
      mc_attributes = [key_attribute ''id'' SqlInteger, attribute ''ts'' True SqlFloat,
        attribute ''server'' True SqlText, attribute ''endpoint'' True SqlText,
        attribute ''client'' True SqlText, attribute ''session_id'' True SqlText,
        attribute ''wait_seconds'' True SqlFloat, attribute ''active_seconds'' True SqlFloat,
        attribute ''status_code'' True SqlInteger, attribute ''request_bytes'' True SqlInteger,
        attribute ''response_bytes'' True SqlInteger],
      mc_indexes = [(''idx_requests_ts'', [''ts'']), (''idx_requests_endpoint'', [''endpoint'', ''ts''])]\<rparr>"

definition session_record_class :: mapped_class where
  "session_record_class =
     \<lparr>mc_table = ''sessions'',
      mc_attributes = [key_attribute ''client'' SqlText, key_attribute ''session_id'' SqlText,
        key_attribute ''endpoint'' SqlText, attribute ''first_seen'' True SqlFloat,
        attribute ''last_seen'' True SqlFloat, attribute ''request_count'' True SqlInteger],
      mc_indexes = []\<rparr>"

definition base_metadata :: "mapped_class list" where
  "base_metadata = [server_runtime_class, endpoint_runtime_class, power_event_class, request_log_class,
     session_record_class]"

text \<open>\<open>Base.metadata.create_all\<close>: every mapped table that is not there yet.\<close>

definition create_all :: "schema \<Rightarrow> schema" where
  "create_all s = fold (\<lambda>c s. dict_setdefault (mc_table c) (table_of c) s) base_metadata s"

section \<open>The migration\<close>

datatype migration_op =
    CreateTable string "sql_column list" "string list"
  | CreateIndex string string "string list"
  | DropIndex string string
  | DropTable string

fun apply_op :: "migration_op \<Rightarrow> schema \<Rightarrow> schema option" where
  "apply_op (CreateTable t cols pk) s =
     (if dict_has s t then None
      else Some (dict_put t \<lparr>tt_columns = cols, tt_key = pk, tt_indexes = []\<rparr> s))"
| "apply_op (CreateIndex t i cols) s =
     (case dict_get s t of
        None \<Rightarrow> None
      | Some tb \<Rightarrow>
          if i \<in> set (index_names s) \<or> \<not> set cols \<subseteq> cl_name ` set (tt_columns tb) then None
          else Some (dict_put t (tb\<lparr>tt_indexes := tt_indexes tb @ [(i, cols)]\<rparr>) s))"
| "apply_op (DropIndex t i) s =
     (case dict_get s t of
        None \<Rightarrow> None
      | Some tb \<Rightarrow>
          if \<not> dict_has (tt_indexes tb) i then None
          else Some (dict_put t (tb\<lparr>tt_indexes := dict_pop i (tt_indexes tb)\<rparr>) s))"
| "apply_op (DropTable t) s = (if dict_has s t then Some (dict_pop t s) else None)"

fun apply_ops :: "migration_op list \<Rightarrow> schema \<Rightarrow> schema option" where
  "apply_ops [] s = Some s"
| "apply_ops (m # ms) s = (case apply_op m s of None \<Rightarrow> None | Some s' \<Rightarrow> apply_ops ms s')"

definition upgrade :: "migration_op list" where
  "upgrade =
     [CreateTable ''endpoint_runtime''
        [column ''name'' SqlText False, column ''ready'' SqlBoolean True,
         column ''ready_since'' SqlFloat True, column ''last_check_at'' SqlFloat True] [''name''],
      CreateTable ''power_events''
        [column ''id'' SqlInteger False, column ''ts'' SqlFloat True, column ''server'' SqlText True,
         column ''action'' SqlText True, column ''reason'' SqlText True,
         column ''initiated_by'' SqlText True, column ''success'' SqlBoolean True] [''id''],
      CreateIndex ''power_events'' ''idx_power_events_server'' [''server'', ''ts''],
      CreateTable ''requests''
        [column ''id'' SqlInteger False, column ''ts'' SqlFloat True, column ''server'' SqlText True,
         column ''endpoint'' SqlText True, column ''client'' SqlText True,
         column ''session_id'' SqlText True, column ''wait_seconds'' SqlFloat True,
         column ''active_seconds'' SqlFloat True, column ''status_code'' SqlInteger True,
         column ''request_bytes'' SqlInteger True, column ''response_bytes'' SqlInteger True] [''id''],
      CreateIndex ''requests'' ''idx_requests_endpoint'' [''endpoint'', ''ts''],
      CreateIndex ''requests'' ''idx_requests_ts'' [''ts''],
      CreateTable ''server_runtime''
        [column ''name'' SqlText False, column ''power_state'' SqlText True,
         column ''owned'' SqlBoolean False, column ''shutdown_override'' SqlBoolean True,
         column ''cycle_id'' SqlText True, column ''updated_at'' SqlFloat True] [''name''],
      CreateTable ''sessions''
        [column ''client'' SqlText False, column ''session_id'' SqlText False,
         column ''endpoint'' SqlText False, column ''first_seen'' SqlFloat True,
         column ''last_seen'' SqlFloat True, column ''request_count'' SqlInteger True]
        [''client'', ''session_id'', ''endpoint'']]"

definition downgrade :: "migration_op list" where
  "downgrade =
     [DropTable ''sessions'', DropTable ''server_runtime'',
      DropIndex ''requests'' ''idx_requests_ts'', DropIndex ''requests'' ''idx_requests_endpoint'',
      DropTable ''requests'', DropIndex ''power_events'' ''idx_power_events_server'',
      DropTable ''power_events'', DropTable ''endpoint_runtime'']"

section \<open>The engine\<close>

text \<open>\<open>make_engine\<close>: the URL, whether all connections share one, the pragmas of every connection, and
  the test hook: the file that, while it exists, makes every commit fail as on a full disk.\<close>

record engine =
  en_url :: string
  en_shared :: bool
  en_pragmas :: "string list"
  en_fail_flag :: "string option"

definition make_engine :: "(string, string) dict \<Rightarrow> string \<Rightarrow> engine" where
  "make_engine environ path =
     \<lparr>en_url = (if path = '':memory:'' then ''sqlite+aiosqlite://'' else ''sqlite+aiosqlite:///'' @ path),
      en_shared = (path = '':memory:''),
      en_pragmas = [''PRAGMA journal_mode=WAL'', ''PRAGMA synchronous=NORMAL''],
      en_fail_flag = (case dict_get environ ''RELAY_STORE_FAIL_WRITES'' of
         None \<Rightarrow> None | Some f \<Rightarrow> if f = [] then None else Some f)\<rparr>"

text \<open>\<open>do_commit\<close> with the hook: \<open>present\<close> says which files exist at the commit.\<close>

definition do_commit :: "engine \<Rightarrow> (string \<Rightarrow> bool) \<Rightarrow> db_outcome \<Rightarrow> db_outcome" where
  "do_commit en present original =
     (case en_fail_flag en of
        None \<Rightarrow> original
      | Some f \<Rightarrow> if present f then DbApiError OperationalErr else original)"

section \<open>The migration creates what the classes declare\<close>

definition same_table :: "sql_table \<Rightarrow> sql_table \<Rightarrow> bool" where
  "same_table a b \<longleftrightarrow> tt_columns a = tt_columns b \<and> tt_key a = tt_key b \<and>
     (\<forall>i. dict_get (tt_indexes a) i = dict_get (tt_indexes b) i)"

definition same_schema :: "schema \<Rightarrow> schema \<Rightarrow> bool" where
  "same_schema a b \<longleftrightarrow> (\<forall>t. rel_option same_table (dict_get a t) (dict_get b t))"

lemma dict_has_append: "dict_has (d @ e) k \<longleftrightarrow> dict_has d k \<or> dict_has e k"
  by (auto simp: dict_has_def split: option.splits)

lemma dict_get_append: "\<not> dict_has d k \<Longrightarrow> dict_get (d @ e) k = dict_get e k"
  by (simp add: dict_has_def map_add_def split: option.split)

lemma dict_put_append_right: "\<not> dict_has d k \<Longrightarrow> dict_put k v (d @ e) = d @ dict_put k v e"
  by (induction d) (auto simp: dict_has_def split: if_splits)

lemma dict_pop_append_right: "\<not> dict_has d k \<Longrightarrow> dict_pop k (d @ e) = d @ dict_pop k e"
  by (induction d) (auto simp: dict_has_def split: if_splits)

lemma index_names_append: "index_names (d @ e) = index_names d @ index_names e"
  by (simp add: index_names_def)

lemmas dict_append_simps = dict_has_append dict_get_append dict_put_append_right dict_pop_append_right
  index_names_append

text \<open>An operation acts on its own table only: on a larger schema it does what it does alone, as
  long as the rest has neither its table nor its index.\<close>

fun apart :: "schema \<Rightarrow> migration_op \<Rightarrow> bool" where
  "apart s (CreateTable t cols pk) = (\<not> dict_has s t)"
| "apart s (CreateIndex t i cols) = (\<not> dict_has s t \<and> i \<notin> set (index_names s))"
| "apart s (DropIndex t i) = (\<not> dict_has s t)"
| "apart s (DropTable t) = (\<not> dict_has s t)"

lemma apply_op_apart: "apart s m \<Longrightarrow> apply_op m (s @ d) = map_option ((@) s) (apply_op m d)"
  by (cases m) (auto simp: dict_append_simps simp del: map_of_append split: option.split)

lemma apply_ops_apart:
  "list_all (apart s) ms \<Longrightarrow> apply_ops ms (s @ d) = map_option ((@) s) (apply_ops ms d)"
  by (induction ms arbitrary: d) (auto simp: apply_op_apart split: option.split)

text \<open>A database the migration has not touched: none of its tables, none of its indexes.\<close>

definition untouched :: "schema \<Rightarrow> bool" where
  "untouched s \<longleftrightarrow> (\<forall>c \<in> set base_metadata. \<not> dict_has s (mc_table c) \<and>
     (\<forall>i \<in> set (dict_keys (mc_indexes c)). i \<notin> set (index_names s)))"

lemmas class_defs = base_metadata_def server_runtime_class_def endpoint_runtime_class_def
  power_event_class_def request_log_class_def session_record_class_def

lemma untouched_apart: "untouched s \<Longrightarrow> list_all (apart s) upgrade \<and> list_all (apart s) downgrade"
  by (simp add: untouched_def class_defs upgrade_def downgrade_def)

definition migrated :: schema where
  "migrated = the (apply_ops upgrade [])"

lemma migrated_eq: "apply_ops upgrade [] = Some migrated"
  unfolding migrated_def by code_simp

lemma migrated_back: "apply_ops downgrade migrated = Some []"
  unfolding migrated_def by code_simp

lemma migrated_list:
  "migrated = [(''endpoint_runtime'', table_of endpoint_runtime_class),
     (''power_events'', table_of power_event_class),
     (''requests'', (table_of request_log_class)\<lparr>tt_indexes := rev (mc_indexes request_log_class)\<rparr>),
     (''server_runtime'', table_of server_runtime_class), (''sessions'', table_of session_record_class)]"
  unfolding migrated_def by code_simp

lemma created_list: "create_all [] = map (\<lambda>c. (mc_table c, table_of c)) base_metadata"
  by code_simp

lemma class_tables:
  "mc_table server_runtime_class = ''server_runtime''"
  "mc_table endpoint_runtime_class = ''endpoint_runtime''"
  "mc_table power_event_class = ''power_events''"
  "mc_table request_log_class = ''requests''"
  "mc_table session_record_class = ''sessions''"
  by (simp_all add: class_defs)

lemma migrated_same: "same_schema migrated (create_all [])"
  unfolding same_schema_def migrated_list created_list
  by (simp add: base_metadata_def class_tables same_table_def)
     (simp add: request_log_class_def table_of_def)

lemma create_all_apart: "untouched s \<Longrightarrow> create_all s = s @ create_all []"
proof -
  have "fold (\<lambda>c s. dict_setdefault (mc_table c) (table_of c) s) cs (s @ d) =
      s @ fold (\<lambda>c s. dict_setdefault (mc_table c) (table_of c) s) cs d"
    if "\<forall>c \<in> set cs. \<not> dict_has s (mc_table c)" for cs d
    using that by (induction cs arbitrary: d) (auto simp: dict_setdefault_def dict_append_simps)
  from this [of base_metadata "[]"] show "untouched s \<Longrightarrow> ?thesis"
    by (simp add: untouched_def create_all_def)
qed

lemma same_schema_append: "same_schema d e \<Longrightarrow> same_schema (s @ d) (s @ e)"
  by (auto simp: same_schema_def map_add_def same_table_def split: option.split)

text \<open>
  C23: The two ways to a schema agree. On any database that has none of the program's tables and
  indexes, the operations of the migration succeed one after the other and leave the
  tables, columns, types, nullability, keys and indexes that \<open>create_all\<close> makes of the mapped classes (the way
  an in-memory database is opened), with everything else unchanged; and the downgrade succeeds and
  restores the database as it was.
\<close>

theorem migration_matches_models:
  assumes "untouched s"
  shows "\<exists>s'. apply_ops upgrade s = Some s' \<and> same_schema s' (create_all s) \<and>
    (\<forall>t. dict_has s t \<longrightarrow> dict_get s' t = dict_get s t) \<and> apply_ops downgrade s' = Some s"
proof -
  have up: "apply_ops upgrade s = Some (s @ migrated)"
    using apply_ops_apart [of s upgrade "[]"] untouched_apart [OF assms] by (simp add: migrated_eq)
  moreover have "apply_ops downgrade (s @ migrated) = Some s"
    using apply_ops_apart [of s downgrade migrated] untouched_apart [OF assms] by (simp add: migrated_back)
  moreover have "same_schema (s @ migrated) (create_all s)"
    unfolding create_all_apart [OF assms] by (rule same_schema_append [OF migrated_same])
  moreover have "dict_get (s @ migrated) t = dict_get s t" if "dict_has s t" for t
    using that by (auto simp: dict_has_def map_add_def)
  ultimately show ?thesis by blast
qed

text \<open>A database with the version table of Alembic.\<close>

definition version_table :: schema where
  "version_table = [(''alembic_version'',
     \<lparr>tt_columns = [column ''version_num'' SqlText False], tt_key = [''version_num''], tt_indexes = []\<rparr>)]"

lemma migration_matches_models_witness:
  "untouched version_table \<and> (\<exists>s'. apply_ops upgrade version_table = Some s' \<and>
     same_schema s' (create_all version_table) \<and> apply_ops downgrade s' = Some version_table)"
proof -
  have u: "untouched version_table" by code_simp
  then show ?thesis using migration_matches_models [OF u] by blast
qed

section \<open>The rows of the store fit the schema\<close>

datatype sql_value = VNull | VText string | VBool bool | VFloat rat | VInt int

type_synonym sql_row = "(string \<times> sql_value) list"

definition opt_value :: "('a \<Rightarrow> sql_value) \<Rightarrow> 'a option \<Rightarrow> sql_value" where
  "opt_value v x = (case x of None \<Rightarrow> VNull | Some y \<Rightarrow> v y)"

definition server_values :: "string \<times> server_row \<Rightarrow> sql_row" where
  "server_values nr = (case nr of (name, r) \<Rightarrow>
     [(''name'', VText name), (''power_state'', opt_value VText (sr_power_state r)),
      (''owned'', VBool (sr_owned r)), (''shutdown_override'', opt_value VBool (sr_shutdown_override r)),
      (''cycle_id'', opt_value VText (sr_cycle_id r)), (''updated_at'', opt_value VFloat (sr_updated_at r))])"

definition endpoint_values :: "string \<times> endpoint_row \<Rightarrow> sql_row" where
  "endpoint_values nr = (case nr of (name, r) \<Rightarrow>
     [(''name'', VText name), (''ready'', VBool (er_ready r)),
      (''ready_since'', opt_value VFloat (er_ready_since r)),
      (''last_check_at'', opt_value VFloat (er_last_check_at r))])"

definition event_values :: "power_event \<Rightarrow> sql_row" where
  "event_values e =
     [(''ts'', VFloat (pe_ts e)), (''server'', VText (pe_server e)), (''action'', VText (pe_action e)),
      (''reason'', VText (pe_reason e)), (''initiated_by'', VText (pe_initiated_by e)),
      (''success'', VBool (pe_success e))]"

definition request_values :: "request_record \<Rightarrow> sql_row" where
  "request_values r =
     [(''ts'', VFloat (rr_ts r)), (''server'', VText (rr_server r)), (''endpoint'', VText (rr_endpoint r)),
      (''client'', VText (rr_client r)), (''session_id'', VText (rr_session_id r)),
      (''wait_seconds'', VFloat (rr_wait_seconds r)), (''active_seconds'', VFloat (rr_active_seconds r)),
      (''status_code'', opt_value VInt (rr_status_code r)), (''request_bytes'', VInt (rr_request_bytes r)),
      (''response_bytes'', VInt (rr_response_bytes r))]"

definition session_values :: "(string \<times> string \<times> string) \<times> session_row \<Rightarrow> sql_row" where
  "session_values kr = (case kr of ((client, session_id, endpoint), r) \<Rightarrow>
     [(''client'', VText client), (''session_id'', VText session_id), (''endpoint'', VText endpoint),
      (''first_seen'', VFloat (hs_first_seen r)), (''last_seen'', VFloat (hs_last_seen r)),
      (''request_count'', VInt (hs_request_count r))])"

definition table_rows :: "tables \<Rightarrow> (string, sql_row list) dict" where
  "table_rows t =
     [(''server_runtime'', map server_values (tb_servers t)),
      (''endpoint_runtime'', map endpoint_values (tb_endpoints t)),
      (''power_events'', map event_values (tb_events t)),
      (''requests'', map request_values (tb_requests t)),
      (''sessions'', map session_values (tb_sessions t))]"

fun value_fits :: "sql_column \<Rightarrow> sql_value \<Rightarrow> bool" where
  "value_fits c VNull = cl_nullable c"
| "value_fits c (VText x) = (cl_type c = SqlText)"
| "value_fits c (VBool x) = (cl_type c = SqlBoolean)"
| "value_fits c (VFloat x) = (cl_type c = SqlFloat)"
| "value_fits c (VInt x) = (cl_type c = SqlInteger)"

text \<open>An integer that is the whole key is the row id, which SQLite assigns when it is not given.\<close>

definition row_id :: "sql_table \<Rightarrow> sql_column \<Rightarrow> bool" where
  "row_id tb c \<longleftrightarrow> tt_key tb = [cl_name c] \<and> cl_type c = SqlInteger"

definition row_fits :: "sql_table \<Rightarrow> sql_row \<Rightarrow> bool" where
  "row_fits tb row \<longleftrightarrow>
     (\<forall>c \<in> set (tt_columns tb). case map_of row (cl_name c) of None \<Rightarrow> row_id tb c | Some v \<Rightarrow> value_fits c v) \<and>
     (\<forall>(n, v) \<in> set row. n \<in> cl_name ` set (tt_columns tb))"

text \<open>The key is unique: no two rows give the same values to its columns, unless it is a row id.\<close>

definition keys_unique :: "sql_table \<Rightarrow> sql_row list \<Rightarrow> bool" where
  "keys_unique tb rows \<longleftrightarrow>
     (\<exists>c \<in> set (tt_columns tb). row_id tb c) \<or> distinct (map (\<lambda>row. map (map_of row) (tt_key tb)) rows)"

definition tables_keyed :: "tables \<Rightarrow> bool" where
  "tables_keyed t \<longleftrightarrow> dict_ok (tb_servers t) \<and> dict_ok (tb_endpoints t) \<and> dict_ok (tb_sessions t)"

lemma write_txn_tables:
  assumes "P (so_tables s)" and "\<And>t. P t \<Longrightarrow> P (snd (f t))"
  shows "P (so_tables (snd (write_txn f s)))"
  using assms by (simp add: write_txn_def Let_def split_beta split: db_outcome.split)

lemma drop_txn_tables:
  assumes "P (so_tables s)" and "\<And>t. P t \<Longrightarrow> P (snd (f t))"
  shows "P (so_tables (snd (drop_result (write_txn f s))))"
  using write_txn_tables [of P s f, OF assms] by (simp add: drop_result_def split: sum.split)

lemma txn_result_snd:
  "snd (case w of (Inl x, s') \<Rightarrow> (Inl x, s') | (Inr None, s') \<Rightarrow> (Inr a, s')
      | (Inr (Some v), s') \<Rightarrow> (Inr (g v), s')) = snd w"
  by (simp split: prod.split sum.split option.split)

lemma reconcile_keyed: "tables_keyed (snd acc) \<Longrightarrow> tables_keyed (snd (fold (reconcile_row now) names acc))"
  by (induction names arbitrary: acc)
     (auto simp: reconcile_row_def tables_keyed_def Let_def split: option.split prod.split)

lemma dict_ok_filter: "dict_ok d \<Longrightarrow> dict_ok (filter P d)"
  by (simp add: dict_ok_def distinct_map_filter)

lemma keyed_steps:
  assumes "tables_keyed (so_tables s)"
  shows "tables_keyed (so_tables (snd (upsert_session c i e now s)))"
    and "tables_keyed (so_tables (snd (log_power_event sv a r b ok now s)))"
    and "tables_keyed (so_tables (snd (set_server_runtime n v now s)))"
    and "tables_keyed (so_tables (snd (set_endpoint_runtime n rdy rs lc s)))"
    and "tables_keyed (so_tables (snd (bulk_log_requests records s)))"
    and "tables_keyed (so_tables (snd (prune d now s)))"
    and "tables_keyed (so_tables (snd (reconcile_servers ns now s)))"
proof -
  note tx = write_txn_tables [of tables_keyed, OF assms] drop_txn_tables [of tables_keyed, OF assms]
  show "tables_keyed (so_tables (snd (upsert_session c i e now s)))"
    unfolding upsert_session_def by (rule tx) (simp add: tables_keyed_def Let_def)
  show "tables_keyed (so_tables (snd (log_power_event sv a r b ok now s)))"
    unfolding log_power_event_def by (rule tx) (simp add: tables_keyed_def)
  show "tables_keyed (so_tables (snd (set_server_runtime n v now s)))"
    unfolding set_server_runtime_def
    by (simp add: assms) (intro impI tx, simp add: tables_keyed_def split: option.split)
  show "tables_keyed (so_tables (snd (set_endpoint_runtime n rdy rs lc s)))"
    unfolding set_endpoint_runtime_def by (rule tx) (simp add: tables_keyed_def)
  have "tables_keyed (so_tables (snd (write_txn (\<lambda>t. ((), t\<lparr>tb_requests := tb_requests t @ records\<rparr>)) s)))"
    by (rule tx) (simp add: tables_keyed_def)
  then show "tables_keyed (so_tables (snd (bulk_log_requests records s)))"
    by (auto simp: bulk_log_requests_def assms split: prod.splits sum.splits option.splits)
  let ?cut = "now - of_int d * 86400"
  let ?f = "\<lambda>t. case prune_loop (\<lambda>r. rr_ts r < ?cut) (tb_requests t) 0 of
      (n1, reqs) \<Rightarrow> case prune_loop (\<lambda>e. pe_ts e < ?cut) (tb_events t) 0 of
      (n2, evs) \<Rightarrow> case prune_loop (\<lambda>(k, row). hs_last_seen row < ?cut) (tb_sessions t) 0 of
      (n3, sess) \<Rightarrow> ([(''requests'', n1), (''power_events'', n2), (''sessions'', n3)],
          t\<lparr>tb_requests := reqs, tb_events := evs, tb_sessions := sess\<rparr>)"
  have "tables_keyed (so_tables (snd (write_txn ?f s)))"
    by (rule tx) (simp add: tables_keyed_def prune_loop_eq dict_ok_filter)
  then show "tables_keyed (so_tables (snd (prune d now s)))"
    unfolding prune_def Let_def txn_result_snd .
  have "tables_keyed (so_tables (snd (write_txn (\<lambda>t. fold (reconcile_row now) ns ([], t)) s)))"
    by (rule tx) (rule reconcile_keyed, simp)
  then show "tables_keyed (so_tables (snd (reconcile_servers ns now s)))"
    unfolding reconcile_servers_def txn_result_snd .
qed

lemma keyed_step:
  "tables_keyed (so_tables (ss_store y)) \<Longrightarrow> tables_keyed (so_tables (ss_store (store_step e y)))"
proof (cases e)
  case Flush
  assume y: "tables_keyed (so_tables (ss_store y))"
  then have "tables_keyed (so_tables (snd (flush_requests (ss_store y))))"
    using keyed_steps(5) [of "(ss_store y)\<lparr>so_buffer := []\<rparr>"] by (simp add: flush_requests_def Let_def)
  then show ?thesis by (simp add: Flush split: prod.split sum.split) auto
qed (simp_all add: keyed_steps enqueue_request_def Let_def)

interpretation keyed: machine store_step "\<lambda>_ _. True" "\<lambda>y. tables_keyed (so_tables (ss_store y))"
  by unfold_locales (rule keyed_step)

lemmas values_defs = server_values_def endpoint_values_def event_values_def request_values_def
  session_values_def

lemma values_fit:
  "row_fits (table_of server_runtime_class) (server_values nr)"
  "row_fits (table_of endpoint_runtime_class) (endpoint_values nr')"
  "row_fits (table_of power_event_class) (event_values e)"
  "row_fits (table_of request_log_class) (request_values r)"
  "row_fits (table_of session_record_class) (session_values kr)"
  by (simp_all add: row_fits_def values_defs table_of_def class_defs column_of_def column_def row_id_def
      attribute_def key_attribute_def opt_value_def split: prod.split option.split)

lemma keys_fit:
  assumes "tables_keyed t"
  shows "keys_unique (table_of server_runtime_class) (map server_values (tb_servers t))"
    and "keys_unique (table_of endpoint_runtime_class) (map endpoint_values (tb_endpoints t))"
    and "keys_unique (table_of session_record_class) (map session_values (tb_sessions t))"
    and "keys_unique (table_of power_event_class) rows" and "keys_unique (table_of request_log_class) rows"
proof -
  have "distinct (map (\<lambda>x. [Some (VText (fst x))]) d)" if "dict_ok d" for d :: "(string, 'a) dict"
    using that by (auto simp: dict_ok_def distinct_map inj_on_def)
  note one = this
  have three: "distinct (map (\<lambda>x. [Some (VText (fst (fst x))), Some (VText (fst (snd (fst x)))),
      Some (VText (snd (snd (fst x))))]) d)"
    if "dict_ok d" for d :: "(string \<times> string \<times> string, 'a) dict"
  proof -
    let ?h = "\<lambda>k :: string \<times> string \<times> string. [Some (VText (fst k)), Some (VText (fst (snd k))), Some (VText (snd (snd k)))]"
    have "inj ?h" by (rule injI) (simp add: prod_eq_iff)
    then have "distinct (map ?h (map fst d))"
      using that unfolding dict_ok_def distinct_map [of ?h] by (blast intro: inj_on_subset)
    then show ?thesis by (simp add: comp_def)
  qed
  show "keys_unique (table_of server_runtime_class) (map server_values (tb_servers t))"
    using assms one [of "tb_servers t"]
    by (simp add: keys_unique_def table_of_def class_defs attribute_def key_attribute_def server_values_def
        comp_def split_beta tables_keyed_def)
  show "keys_unique (table_of endpoint_runtime_class) (map endpoint_values (tb_endpoints t))"
    using assms one [of "tb_endpoints t"]
    by (simp add: keys_unique_def table_of_def class_defs attribute_def key_attribute_def endpoint_values_def
        comp_def split_beta tables_keyed_def)
  show "keys_unique (table_of session_record_class) (map session_values (tb_sessions t))"
    using assms three [of "tb_sessions t"]
    by (simp add: keys_unique_def table_of_def class_defs attribute_def key_attribute_def session_values_def
        comp_def split_beta tables_keyed_def)
qed (simp_all add: keys_unique_def table_of_def class_defs attribute_def key_attribute_def row_id_def
      column_of_def column_def)



section \<open>The test hook\<close>

text \<open>While the flag file exists a write is dropped and the store degraded; the first commit after it
  is gone recovers the store.\<close>

lemma hook_degrades_store:
  assumes "so_open s" and "so_outcome s (so_txn s) = do_commit en present DbCommit"
    and "en = make_engine [(''RELAY_STORE_FAIL_WRITES'', f)] path" and "f \<noteq> []"
  shows "fst (write_txn g s) = (if present f then Inr None else Inr (Some (fst (g (so_tables s)))))"
    and "so_degraded (snd (write_txn g s)) = present f"
  using assms by (simp_all add: write_txn_def make_engine_def do_commit_def Let_def db_failure_def split_beta)

end
