(* ===== verification/Relay_History.thy ===== *)
theory Relay_History
  imports Relay_Store
begin

text \<open>
  What the tables of the history mean (relay/store.py). The specification is a plain record of what was
  committed: the visits of sessions, the power events, the logged requests. A pruning forgets the old ones,
  and a session all of whose visits are old. The tables of the store refine it: its session rows are the
  first and the last visit of each session and their number.
\<close>

type_synonym session_key = "string \<times> string \<times> string"

record history =
  hy_visits :: "(session_key \<times> time) list"
  hy_events :: "power_event list"
  hy_requests :: "request_record list"

definition visits_of :: "session_key \<Rightarrow> (session_key \<times> time) list \<Rightarrow> time list" where
  "visits_of k vs = map snd (filter (\<lambda>v. fst v = k) vs)"

definition visited_keys :: "(session_key \<times> time) list \<Rightarrow> session_key list" where
  "visited_keys vs = rev (remdups (rev (map fst vs)))"

definition session_of :: "time list \<Rightarrow> session_row" where
  "session_of ts = \<lparr>hs_first_seen = hd ts, hs_last_seen = last ts, hs_request_count = int (length ts)\<rparr>"

definition sessions_of :: "(session_key \<times> time) list \<Rightarrow> (session_key, session_row) dict" where
  "sessions_of vs = map (\<lambda>k. (k, session_of (visits_of k vs))) (visited_keys vs)"

text \<open>What an operation adds when its transaction commits.\<close>

definition commits :: "store \<Rightarrow> bool" where
  "commits s \<longleftrightarrow> so_open s \<and> so_outcome s (so_txn s) = DbCommit"

fun remember :: "store_event \<Rightarrow> store \<Rightarrow> history \<Rightarrow> history" where
  "remember (Upsert c i e now) s h = (if commits s then h\<lparr>hy_visits := hy_visits h @ [((c, i, e), now)]\<rparr> else h)"
| "remember (LogEvent sv a r b ok now) s h =
     (if commits s then h\<lparr>hy_events := hy_events h @
        [\<lparr>pe_ts = now, pe_server = sv, pe_action = a, pe_reason = r, pe_initiated_by = b, pe_success = ok\<rparr>]\<rparr> else h)"
| "remember Flush s h = (if so_buffer s \<noteq> [] \<and> commits s then h\<lparr>hy_requests := hy_requests h @ so_buffer s\<rparr> else h)"
| "remember (Prune d now) s h =
     (let old = (\<lambda>t. t < now - of_int d * 86400) in
      if commits s then
        \<lparr>hy_visits = filter (\<lambda>v. \<not> old (last (visits_of (fst v) (hy_visits h)))) (hy_visits h),
         hy_events = filter (\<lambda>e. \<not> old (pe_ts e)) (hy_events h),
         hy_requests = filter (\<lambda>r. \<not> old (rr_ts r)) (hy_requests h)\<rparr>
      else h)"
| "remember _ s h = h"

fun remembered :: "store_event list \<Rightarrow> store_sys \<Rightarrow> history \<Rightarrow> history" where
  "remembered [] y h = h"
| "remembered (e # es) y h = remembered es (store_step e y) (remember e (ss_store y) h)"

definition tells :: "tables \<Rightarrow> history \<Rightarrow> bool" where
  "tells t h \<longleftrightarrow> tb_sessions t = sessions_of (hy_visits h) \<and> tb_events t = hy_events h \<and> tb_requests t = hy_requests h"

section \<open>Session rows\<close>

lemma visits_append: "visits_of k (vs @ [(j, t)]) = visits_of k vs @ (if j = k then [t] else [])"
  by (simp add: visits_of_def)

lemma visited_append: "visited_keys (vs @ [(j, t)]) = (if j \<in> set (visited_keys vs) then visited_keys vs else visited_keys vs @ [j])"
  by (simp add: visited_keys_def)

lemma visited_set: "k \<in> set (visited_keys vs) \<longleftrightarrow> visits_of k vs \<noteq> []"
  by (auto simp: visited_keys_def visits_of_def filter_empty_conv)

lemma distinct_visited: "distinct (visited_keys vs)"
  by (simp add: visited_keys_def)

lemma get_mapped: "dict_get (map (\<lambda>k. (k, f k)) ks) k = (if k \<in> set ks then Some (f k) else None)"
  by (induction ks) auto

lemma put_mapped:
  "distinct ks \<Longrightarrow> dict_put k v (map (\<lambda>k. (k, f k)) ks) =
    map (\<lambda>j. (j, if j = k then v else f j)) (if k \<in> set ks then ks else ks @ [k])"
  by (induction ks) auto

lemma sessions_visit:
  "dict_put k (case dict_get (sessions_of vs) k of
      None \<Rightarrow> \<lparr>hs_first_seen = t, hs_last_seen = t, hs_request_count = 1\<rparr>
    | Some row \<Rightarrow> row\<lparr>hs_last_seen := t, hs_request_count := hs_request_count row + 1\<rparr>) (sessions_of vs) =
   sessions_of (vs @ [(k, t)])"
  unfolding sessions_of_def put_mapped [OF distinct_visited] get_mapped visited_append
  using visited_set [of k vs]
  by (auto simp: visits_append session_of_def)

lemma sessions_prune:
  "filter (\<lambda>x. \<not> old (hs_last_seen (snd x))) (sessions_of vs) =
   sessions_of (filter (\<lambda>v. \<not> old (last (visits_of (fst v) vs))) vs)"
proof -
  let ?P = "\<lambda>k. \<not> old (last (visits_of k vs))"
  have keys: "visited_keys (filter (\<lambda>v. ?P (fst v)) vs) = filter ?P (visited_keys vs)"
    by (simp add: visited_keys_def rev_filter [symmetric] remdups_filter [symmetric] filter_map comp_def)
  have "visits_of k (filter (\<lambda>v. ?P (fst v)) vs) = visits_of k vs" if "?P k" for k
  proof -
    have "filter (\<lambda>v. fst v = k \<and> ?P (fst v)) vs = filter (\<lambda>v. fst v = k) vs"
      by (rule filter_cong) (use that in auto)
    then show ?thesis by (simp add: visits_of_def conj_commute)
  qed
  then show ?thesis by (simp add: sessions_of_def keys filter_map comp_def session_of_def)
qed

section \<open>Simulation\<close>

lemma txn_tables: "so_tables (snd (write_txn f s)) = (if commits s then snd (f (so_tables s)) else so_tables s)"
  by (auto simp: write_txn_def commits_def Let_def split_beta split: db_outcome.split)

lemma drop_tables: "so_tables (snd (drop_result (write_txn f s))) = (if commits s then snd (f (so_tables s)) else so_tables s)"
  by (simp add: drop_result_def txn_tables split: sum.split)

lemma flush_tables:
  "so_tables (snd (flush_requests s)) = (if so_buffer s \<noteq> [] \<and> commits s
    then (so_tables s)\<lparr>tb_requests := tb_requests (so_tables s) @ so_buffer s\<rparr> else so_tables s)"
proof (cases "so_buffer s = []")
  case True
  then show ?thesis by (simp add: flush_requests_def)
next
  case False
  let ?s = "s\<lparr>so_buffer := []\<rparr>" and ?f = "\<lambda>t. ((), t\<lparr>tb_requests := tb_requests t @ so_buffer s\<rparr>)"
  obtain r s' where w: "write_txn ?f ?s = (r, s')" by fastforce
  have "so_tables s' = (if commits ?s then snd (?f (so_tables ?s)) else so_tables ?s)"
    using txn_tables [of ?f ?s] by (simp add: w)
  then show ?thesis
    using False by (simp add: flush_requests_def bulk_log_requests_def w commits_def Let_def split: sum.split option.split)
qed

lemma prune_tables:
  "so_tables (snd (prune d now s)) = (if commits s then
     (let t = so_tables s; old = (\<lambda>t. t < now - of_int d * 86400) in
      t\<lparr>tb_requests := filter (\<lambda>r. \<not> old (rr_ts r)) (tb_requests t), tb_events := filter (\<lambda>e. \<not> old (pe_ts e)) (tb_events t),
         tb_sessions := filter (\<lambda>x. \<not> old (hs_last_seen (snd x))) (tb_sessions t)\<rparr>)
    else so_tables s)"
proof -
  have prj: "snd (case x of (Inl e, s') \<Rightarrow> (Inl e, s') | (Inr None, s') \<Rightarrow> (Inr [], s') | (Inr (Some v), s') \<Rightarrow> (Inr v, s')) = snd x"
    for x :: "(string, nat) dict option res \<times> store" by (simp split: prod.split sum.split option.split)
  show ?thesis unfolding prune_def Let_def prj txn_tables by (simp add: prune_loop_eq case_prod_unfold)
qed

lemma reconcile_history:
  "tells (so_tables (snd (reconcile_servers ns now s))) h = tells (so_tables s) h"
proof -
  have "tells (snd (fold (reconcile_row now) ns acc)) h = tells (snd acc) h" for acc
    by (induction ns arbitrary: acc) (simp_all add: reconcile_row_def tells_def Let_def split: prod.split option.split)
  then show ?thesis
    using txn_tables [of "\<lambda>t. fold (reconcile_row now) ns ([], t)" s]
    by (auto simp: reconcile_servers_def split: prod.splits sum.splits option.splits if_splits)
qed

lemma step_tells:
  assumes "tells (so_tables (ss_store y)) h"
  shows "tells (so_tables (ss_store (store_step e y))) (remember e (ss_store y) h)"
proof (cases e)
  case (StageRequest r)
  then show ?thesis using assms by (simp add: enqueue_request_def Let_def)
next
  case Flush
  have "so_tables (ss_store (store_step Flush y)) = so_tables (snd (flush_requests (ss_store y)))"
    by (simp split: prod.split sum.split)
  then show ?thesis using assms by (simp add: Flush flush_tables tells_def)
next
  case (Upsert c i e now)
  have "so_tables (snd (upsert_session c i e now (ss_store y))) = (if commits (ss_store y)
      then (so_tables (ss_store y))\<lparr>tb_sessions := sessions_of (hy_visits h @ [((c, i, e), now)])\<rparr> else so_tables (ss_store y))"
    using assms by (simp add: upsert_session_def drop_tables Let_def tells_def sessions_visit)
  then show ?thesis using assms by (simp add: Upsert tells_def)
next
  case (LogEvent sv a r b ok now)
  then show ?thesis using assms by (simp add: log_power_event_def drop_tables tells_def)
next
  case (SetServer n v now)
  then show ?thesis using assms by (auto simp: set_server_runtime_def drop_tables tells_def split: option.split)
next
  case (SetEndpoint n b rs lc)
  then show ?thesis using assms by (simp add: set_endpoint_runtime_def drop_tables tells_def)
next
  case (Prune d now)
  then show ?thesis using assms by (simp add: prune_tables tells_def Let_def sessions_prune [where old = "\<lambda>t. t < now - rat_of_int d * 86400"])
next
  case (Reconcile ns now)
  then show ?thesis using assms by (simp add: reconcile_history)
qed

lemma run_tells:
  "tells (so_tables (ss_store y)) h \<Longrightarrow> tells (so_tables (ss_store (sm.run es y))) (remembered es y h)"
  by (induction es arbitrary: y h) (simp_all add: step_tells)

definition new_database :: "(nat \<Rightarrow> db_outcome) \<Rightarrow> store_sys" where
  "new_database outcome = \<lparr>ss_store = (init_store empty_tables outcome)\<lparr>so_open := True\<rparr>, ss_staged = 0, ss_logged = 0\<rparr>"

text \<open>
  C20: The history in the database is what was committed. Take an empty database, open the store and
  let it stage, flush, touch sessions, log power events, mirror, reconcile and prune in any order,
  with any outcome of each transaction, errors of the bug class included, and any clock. Then the
  power events and the request log are, in order, those of the committed operations without those a
  committed pruning found old; and the session table has one row for each session with visits since it was
  last forgotten, in the order of the first visits, which holds the time of the first and of the
  last visit and how many there were.
\<close>

theorem history_is_what_was_committed:
  "tells (so_tables (ss_store (sm.run es (new_database outcome))))
     (remembered es (new_database outcome) \<lparr>hy_visits = [], hy_events = [], hy_requests = []\<rparr>)"
  by (rule run_tells) (simp add: new_database_def empty_tables_def tells_def init_store_def sessions_of_def visited_keys_def)

end
