(* ===== verification/Relay_Clients.thy ===== *)
theory Relay_Clients
  imports Relay_Models
begin

text \<open>
  Known clients (relay/clients.py): the provider built from a configured client, its
  detection by request headers, the poller of its status API, and the parent-chain rule
  by which a sub-agent shares the spot of an ancestor.

  The client's server is not part of the program: what it answers to a GET is the
  parameter \<open>ask\<close>, a function from the request to the answer. An answer is a failed
  exchange (any exception) or a status code with a body that is or is not JSON.
\<close>

section \<open>Providers\<close>

record client_provider =
  cp_name :: string
  cp_session_headers :: "string list"
  cp_gated_session_headers :: "string list"
  cp_ua_prefix :: string
  cp_status_path :: string
  cp_session_path :: string
  cp_pending_paths :: "(string \<times> string) list"
  cp_children_kind :: string
  cp_children_depth :: int

text \<open>\<open>path.strip("/").rsplit("/", 1)[-1]\<close>: the last segment of the path names the kind.\<close>

definition pending_kind :: "string \<Rightarrow> string" where
  "pending_kind path = after_last (CHR ''/'') (strip_by (\<lambda>c. c = CHR ''/'') path)"

definition provider_from_config :: "client_config \<Rightarrow> client_provider" where
  "provider_from_config client =
     \<lparr>cp_name = cc_name client,
      cp_session_headers = map lower (mc_session_headers (cc_match client)),
      cp_gated_session_headers = map lower (mc_gated_session_headers (cc_match client)),
      cp_ua_prefix = lower (mc_ua_prefix (cc_match client)),
      cp_status_path = sx_status_path (cc_status client),
      cp_session_path = sx_session_path (cc_status client),
      cp_pending_paths = map (\<lambda>path. (path, pending_kind path)) (sx_pending_paths (cc_status client)),
      cp_children_kind = ch_kind (cc_children client),
      cp_children_depth = ch_depth (cc_children client)\<rparr>"

definition providers_from_config :: "client_config list \<Rightarrow> client_provider list" where
  "providers_from_config clients = map provider_from_config clients"

section \<open>Headers\<close>

text \<open>\<open>{k.lower(): v for k, v in headers.items()}\<close>: of several headers with one name the
  last wins.\<close>

definition lowered :: "(string \<times> string) list \<Rightarrow> (string, string) dict" where
  "lowered headers = fold (\<lambda>(k, v) d. dict_put (lower k) v d) headers []"

definition provider_matches :: "(string, string) dict \<Rightarrow> client_provider \<Rightarrow> bool" where
  "provider_matches low p =
     (let ua = lower (str_get low ''user-agent'' []) in
      if list_ex (str_present low) (cp_session_headers p) then True
      else cp_ua_prefix p \<noteq> [] \<and> startswith ua (cp_ua_prefix p) \<and>
        list_ex (str_present low) (cp_gated_session_headers p))"

definition detect_client :: "(string \<times> string) list \<Rightarrow> client_provider list \<Rightarrow> client_provider option" where
  "detect_client headers providers = List.find (provider_matches (lowered headers)) providers"

definition session_header_value :: "client_provider \<Rightarrow> (string \<times> string) list \<Rightarrow> string option" where
  "session_header_value p headers =
     (let low = lowered headers in
      case List.find (str_present low) (cp_session_headers p @ cp_gated_session_headers p) of
        None \<Rightarrow> None
      | Some h \<Rightarrow> dict_get low h)"

section \<open>The status poller\<close>

record status_poller =
  po_provider :: client_provider
  po_port :: int
  po_poll_interval :: time
  po_timeout :: time
  po_auth :: "(string \<times> string) option"
  po_last_poll :: "(string, time) dict"
  po_session_dir :: "(string \<times> string, string) dict"
  po_session_parent :: "(string \<times> string, string option) dict"

definition new_poller :: "client_provider \<Rightarrow> int \<Rightarrow> string \<Rightarrow> time \<Rightarrow> time \<Rightarrow> status_poller" where
  "new_poller p port password poll_interval timeout =
     \<lparr>po_provider = p, po_port = port, po_poll_interval = poll_interval, po_timeout = timeout,
      po_auth = (if password \<noteq> [] then Some (''opencode'', password) else None),
      po_last_poll = [], po_session_dir = [], po_session_parent = []\<rparr>"

record http_get =
  hg_url :: string
  hg_directory :: "string option"
  hg_timeout :: time
  hg_auth :: "(string \<times> string) option"

datatype http_answer = HttpFailed | HttpAnswer int "pyval option"

definition base_url :: "status_poller \<Rightarrow> string \<Rightarrow> string" where
  "base_url po client_ip = ''http://'' @ client_ip @ '':'' @ show_int (po_port po)"

definition due :: "status_poller \<Rightarrow> string \<Rightarrow> time \<Rightarrow> bool" where
  "due po base now =
     (po_poll_interval po \<le> now - (case dict_get (po_last_poll po) base of None \<Rightarrow> 0 | Some t \<Rightarrow> t))"

definition forget :: "string \<Rightarrow> string \<Rightarrow> status_poller \<Rightarrow> status_poller" where
  "forget base session_id po =
     po\<lparr>po_session_dir := dict_pop (base, session_id) (po_session_dir po),
        po_session_parent := dict_pop (base, session_id) (po_session_parent po)\<rparr>"

text \<open>\<open>urllib.parse.quote(s, safe="")\<close>: percent-encoding of the UTF-8 bytes.\<close>

definition hex_digit :: "nat \<Rightarrow> char" where
  "hex_digit n = (if n < 10 then char_of (48 + n) else char_of (55 + n))"

definition pct :: "nat \<Rightarrow> string" where
  "pct b = [CHR ''%'', hex_digit (b div 16), hex_digit (b mod 16)]"

definition quote_char :: "char \<Rightarrow> string" where
  "quote_char c = (let n = (of_char c :: nat) in
     if 48 \<le> n \<and> n \<le> 57 \<or> 65 \<le> n \<and> n \<le> 90 \<or> 97 \<le> n \<and> n \<le> 122 \<or> n \<in> {45, 46, 95, 126} then [c]
     else if n < 128 then pct n
     else pct (192 + n div 64) @ pct (128 + n mod 64))"

definition quote :: "string \<Rightarrow> string" where
  "quote s = concat (map quote_char s)"

definition jget :: "pyval \<Rightarrow> string \<Rightarrow> pyval" where
  "jget v k = (case v of PDict d \<Rightarrow> (case map_of d k of None \<Rightarrow> PNone | Some x \<Rightarrow> x) | _ \<Rightarrow> PNone)"

definition fetch_session_info ::
    "(http_get \<Rightarrow> http_answer) \<Rightarrow> status_poller \<Rightarrow> string \<Rightarrow> string \<Rightarrow> (string \<times> string option) option" where
  "fetch_session_info ask po base session_id =
     (case ask \<lparr>hg_url = base @ cp_session_path (po_provider po) @ ''/'' @ quote session_id,
                hg_directory = None, hg_timeout = po_timeout po, hg_auth = po_auth po\<rparr> of
        HttpFailed \<Rightarrow> None
      | HttpAnswer code body \<Rightarrow>
          if code \<noteq> 200 then None
          else case body of
            None \<Rightarrow> None
          | Some data \<Rightarrow>
              if \<not> is_dict data then None
              else case jget data ''directory'' of
                PStr d \<Rightarrow>
                  if d = [] then None
                  else Some (d, (case jget data ''parentID'' of
                         PStr p \<Rightarrow> if p \<noteq> [] then Some p else None
                       | _ \<Rightarrow> None))
              | _ \<Rightarrow> None)"

text \<open>\<open>{"directory": directory} if directory else None\<close>\<close>

definition dir_param :: "string option \<Rightarrow> string option" where
  "dir_param directory = (case directory of None \<Rightarrow> None | Some d \<Rightarrow> if d \<noteq> [] then Some d else None)"

definition fetch_statuses ::
    "(http_get \<Rightarrow> http_answer) \<Rightarrow> status_poller \<Rightarrow> string \<Rightarrow> string option \<Rightarrow> (string, pyval) dict option" where
  "fetch_statuses ask po base directory =
     (case ask \<lparr>hg_url = base @ cp_status_path (po_provider po), hg_directory = dir_param directory,
                hg_timeout = po_timeout po, hg_auth = po_auth po\<rparr> of
        HttpFailed \<Rightarrow> None
      | HttpAnswer code body \<Rightarrow>
          if code \<noteq> 200 then None
          else case body of Some (PDict d) \<Rightarrow> Some d | _ \<Rightarrow> None)"

text \<open>One pending endpoint: the session ids it lists, or None when its answer is no list.\<close>

definition pending_ids :: "http_answer \<Rightarrow> string list option" where
  "pending_ids answer =
     (case answer of
        HttpFailed \<Rightarrow> None
      | HttpAnswer code body \<Rightarrow>
          if code \<noteq> 200 then None
          else case body of
            Some (PList items) \<Rightarrow>
              Some (List.map_filter (\<lambda>item. case jget item ''sessionID'' of PStr s \<Rightarrow> Some s | _ \<Rightarrow> None) items)
          | _ \<Rightarrow> None)"

fun fetch_pending_from ::
    "(string \<Rightarrow> http_answer) \<Rightarrow> (string \<times> string) list \<Rightarrow> (string, string) dict \<Rightarrow> (string, string) dict option" where
  "fetch_pending_from ask_path [] pending = Some pending"
| "fetch_pending_from ask_path ((path, kind) # rest) pending =
     (case pending_ids (ask_path path) of
        None \<Rightarrow> None
      | Some ids \<Rightarrow> fetch_pending_from ask_path rest (fold (\<lambda>s d. dict_put s kind d) ids pending))"

definition pending_request :: "status_poller \<Rightarrow> string \<Rightarrow> string \<Rightarrow> string option \<Rightarrow> http_get" where
  "pending_request po base path directory =
     \<lparr>hg_url = base @ path, hg_directory = dir_param directory,
      hg_timeout = po_timeout po, hg_auth = po_auth po\<rparr>"

definition fetch_pending ::
    "(http_get \<Rightarrow> http_answer) \<Rightarrow> status_poller \<Rightarrow> string \<Rightarrow> string option \<Rightarrow> (string, string) dict option" where
  "fetch_pending ask po base directory =
     fetch_pending_from
       (\<lambda>path. ask (pending_request po base path directory))
       (cp_pending_paths (po_provider po)) []"

section \<open>Sub-agents\<close>

text \<open>
  The walk reads of a session its key and its shared spot, so \<open>sessions\<close> maps a
  queue key to that pair. \<open>for _ in range(depth)\<close> is the recursion on the fuel.
\<close>

type_synonym skey_pair = "string \<times> string"

fun share_walk ::
    "nat \<Rightarrow> string \<Rightarrow> string set \<Rightarrow> string \<Rightarrow> (string \<times> string, string option) dict \<Rightarrow>
     (skey_pair \<Rightarrow> (skey_pair \<times> skey_pair option) option) \<Rightarrow> (skey_pair \<Rightarrow> bool) \<Rightarrow> string \<Rightarrow> skey_pair option" where
  "share_walk 0 current seen base parents sessions spots client_name = None"
| "share_walk (Suc n) current seen base parents sessions spots client_name =
     (case dict_get parents (base, current) of
        None \<Rightarrow> None
      | Some None \<Rightarrow> None
      | Some (Some parent) \<Rightarrow>
          if parent = [] \<or> parent \<in> seen then None
          else (case sessions (client_name, parent) of
            None \<Rightarrow> share_walk n parent (insert parent seen) base parents sessions spots client_name
          | Some (key, shared) \<Rightarrow>
              if spots key then Some key
              else (case shared of
                Some s \<Rightarrow> if spots s then Some s else Some key
              | None \<Rightarrow> Some key)))"

definition resolve_shared_spot ::
    "string \<Rightarrow> string \<Rightarrow> status_poller \<Rightarrow> (skey_pair \<Rightarrow> (skey_pair \<times> skey_pair option) option) \<Rightarrow>
     (skey_pair \<Rightarrow> bool) \<Rightarrow> string \<Rightarrow> int \<Rightarrow> skey_pair option" where
  "resolve_shared_spot base session_id po sessions spots client_name depth =
     share_walk (nat depth) session_id {session_id} base (po_session_parent po) sessions spots client_name"

section \<open>Detection\<close>

lemma detected_session:
  assumes "provider_matches (lowered headers) p"
  shows "\<exists>sid. session_header_value p headers = Some sid \<and> sid \<noteq> [] \<and>
      (\<exists>h \<in> set (cp_session_headers p @ cp_gated_session_headers p). dict_get (lowered headers) h = Some sid)"
proof -
  let ?low = "lowered headers"
  have "\<exists>h \<in> set (cp_session_headers p @ cp_gated_session_headers p). str_present ?low h"
    using assms by (auto simp: provider_matches_def Let_def list_ex_iff split: if_splits)
  then obtain h where h: "List.find (str_present ?low) (cp_session_headers p @ cp_gated_session_headers p) = Some h"
    by (cases "List.find (str_present ?low) (cp_session_headers p @ cp_gated_session_headers p)")
       (auto simp: find_None_iff)
  then have "h \<in> set (cp_session_headers p @ cp_gated_session_headers p)" "str_present ?low h"
    using find_SomeD [OF h] by blast+
  with h show ?thesis by (auto simp: session_header_value_def str_present_iff)
qed

text \<open>
  A detected client has a session: whenever \<open>detect_client\<close> names a provider, one of its
  session headers is present and non-empty in the request, and that is the id
  \<open>session_header_value\<close> reads. A provider that comes earlier in the configuration has
  no session header of its own in the request. Header names are compared without case.
\<close>

theorem detected_client_has_session_id:
  assumes "detect_client headers providers = Some p"
  shows "(\<exists>sid. session_header_value p headers = Some sid \<and> sid \<noteq> [] \<and>
      (\<exists>h \<in> set (cp_session_headers p @ cp_gated_session_headers p). dict_get (lowered headers) h = Some sid)) \<and>
    p \<in> set providers \<and>
    (\<exists>us vs. providers = us @ p # vs \<and>
      (\<forall>u \<in> set us. \<forall>h \<in> set (cp_session_headers u). \<not> str_present (lowered headers) h))"
proof -
  let ?low = "lowered headers"
  obtain us vs where split: "providers = us @ p # vs" "provider_matches ?low p"
    "\<forall>u \<in> set us. \<not> provider_matches ?low u"
    using find_Some_split [OF assms [unfolded detect_client_def]] by blast
  have "\<not> str_present ?low h" if "u \<in> set us" "h \<in> set (cp_session_headers u)" for u h
    using bspec [OF split(3) that(1)] that(2)
    by (auto simp: provider_matches_def Let_def list_ex_iff split: if_splits)
  with detected_session [OF split(2)] split(1) show ?thesis by auto
qed

text \<open>
  A generic (gated) header never identifies a client on its own: a provider whose unique
  headers are absent is only detected when its user-agent prefix is configured and the
  request's user agent starts with it.
\<close>

theorem gated_headers_need_user_agent:
  assumes "detect_client headers providers = Some p"
    and "\<forall>h \<in> set (cp_session_headers p). \<not> str_present (lowered headers) h"
  shows "cp_ua_prefix p \<noteq> [] \<and> startswith (lower (str_get (lowered headers) ''user-agent'' [])) (cp_ua_prefix p) \<and>
    (\<exists>h \<in> set (cp_gated_session_headers p). str_present (lowered headers) h)"
proof -
  have "provider_matches (lowered headers) p"
    using find_SomeD [OF assms(1) [unfolded detect_client_def]] by blast
  then show ?thesis using assms(2) by (auto simp: provider_matches_def Let_def list_ex_iff split: if_splits)
qed

section \<open>Pending requests\<close>

lemma fetch_pending_from_None:
  "fetch_pending_from f paths d = None \<longleftrightarrow> (\<exists>(path, kind) \<in> set paths. pending_ids (f path) = None)"
  by (induction f paths d rule: fetch_pending_from.induct) (auto split: option.split)

lemma fold_put_get:
  "dict_get (fold (\<lambda>s d. dict_put s kind d) ids d) sid = (if sid \<in> set ids then Some kind else dict_get d sid)"
  by (induction ids arbitrary: d) auto

lemma fetch_pending_from_get:
  "fetch_pending_from f paths d = Some d' \<Longrightarrow>
   dict_get d' sid =
     (case List.find (\<lambda>(path, kind). \<exists>ids. pending_ids (f path) = Some ids \<and> sid \<in> set ids) (rev paths) of
        None \<Rightarrow> dict_get d sid
      | Some (path, kind) \<Rightarrow> Some kind)"
proof (induction f paths d rule: fetch_pending_from.induct)
  case (2 f path kind rest d)
  then obtain ids where ids: "pending_ids (f path) = Some ids" by (auto split: option.splits)
  show ?case
    using 2 ids by (auto simp: find_append fold_put_get split: option.splits)
qed simp

text \<open>
  The pending poll is all or nothing. It answers None exactly when some configured endpoint
  fails (unreachable, not 200, not a list), so a partial answer can never clear a
  session's waiting flag; otherwise a session is reported exactly when some endpoint lists
  it, with the kind of the last endpoint that does.
\<close>

theorem fetch_pending_all_or_nothing:
  "case fetch_pending ask po base directory of
     None \<Rightarrow> \<exists>path kind. (path, kind) \<in> set (cp_pending_paths (po_provider po)) \<and>
       pending_ids (ask (pending_request po base path directory)) = None
   | Some d \<Rightarrow> \<not> (\<exists>path kind. (path, kind) \<in> set (cp_pending_paths (po_provider po)) \<and>
         pending_ids (ask (pending_request po base path directory)) = None) \<and>
       dict_get d = (\<lambda>sid. map_option snd (List.find (\<lambda>(path, kind). \<exists>ids.
           pending_ids (ask (pending_request po base path directory)) = Some ids \<and> sid \<in> set ids)
         (rev (cp_pending_paths (po_provider po)))))"
proof (cases "fetch_pending ask po base directory")
  case None
  then have "\<exists>path kind. (path, kind) \<in> set (cp_pending_paths (po_provider po)) \<and>
      pending_ids (ask (pending_request po base path directory)) = None"
    by (auto simp: fetch_pending_def fetch_pending_from_None)
  then show ?thesis by (simp add: None)
next
  case (Some d)
  have "dict_get d sid = map_option snd (List.find (\<lambda>(path, kind). \<exists>ids.
      pending_ids (ask (pending_request po base path directory)) = Some ids \<and> sid \<in> set ids)
    (rev (cp_pending_paths (po_provider po))))" for sid
    using fetch_pending_from_get [OF Some [unfolded fetch_pending_def], of sid]
    by (auto split: option.splits)
  moreover have "\<not> (\<exists>path kind. (path, kind) \<in> set (cp_pending_paths (po_provider po)) \<and>
      pending_ids (ask (pending_request po base path directory)) = None)"
    using Some fetch_pending_from_None [of "\<lambda>path. ask (pending_request po base path directory)"
        "cp_pending_paths (po_provider po)" "[]"]
    by (auto simp: fetch_pending_def)
  ultimately show ?thesis by (simp add: Some fun_eq_iff)
qed

section \<open>The spot a sub-agent shares\<close>

text \<open>\<open>ys\<close> is a chain of parents starting at \<open>x\<close>, as the poller has cached it.\<close>

fun lineage :: "(string \<times> string, string option) dict \<Rightarrow> string \<Rightarrow> string \<Rightarrow> string list \<Rightarrow> bool" where
  "lineage parents base x [] = True"
| "lineage parents base x (y # ys) =
     (dict_get parents (base, x) = Some (Some y) \<and> y \<noteq> [] \<and> lineage parents base y ys)"

text \<open>The spot key a tracked ancestor lends.\<close>

definition lent_key :: "(skey_pair \<Rightarrow> bool) \<Rightarrow> skey_pair \<Rightarrow> skey_pair option \<Rightarrow> skey_pair" where
  "lent_key spots key shared =
     (if spots key then key else case shared of Some s \<Rightarrow> if spots s then s else key | None \<Rightarrow> key)"

lemma share_walk_iff:
  "share_walk n x seen base parents sessions spots c = Some k \<longleftrightarrow>
     (\<exists>ys y key shared. length ys < n \<and> lineage parents base x (ys @ [y]) \<and> distinct (ys @ [y]) \<and>
        set (ys @ [y]) \<inter> seen = {} \<and> (\<forall>z \<in> set ys. sessions (c, z) = None) \<and>
        sessions (c, y) = Some (key, shared) \<and> k = lent_key spots key shared)"
  (is "_ = ?R n x seen")
proof (induction n arbitrary: x seen)
  case (Suc n)
  show ?case
  proof (cases "\<exists>p. dict_get parents (base, x) = Some (Some p) \<and> p \<noteq> [] \<and> p \<notin> seen")
    case False
    then have "share_walk (Suc n) x seen base parents sessions spots c = None"
      by (auto split: option.split)
    moreover have "\<not> ?R (Suc n) x seen"
    proof
      assume "?R (Suc n) x seen"
      then obtain ys y where "lineage parents base x (ys @ [y])" "set (ys @ [y]) \<inter> seen = {}" by blast
      then show False using False by (cases ys) auto
    qed
    ultimately show ?thesis by simp
  next
    case True
    then obtain p where p: "dict_get parents (base, x) = Some (Some p)" "p \<noteq> []" "p \<notin> seen" by blast
    show ?thesis
    proof (cases "sessions (c, p)")
      case None
      have "?R (Suc n) x seen \<longleftrightarrow> ?R n p (insert p seen)"
      proof
        assume "?R (Suc n) x seen"
        then obtain ys y key shared where r: "length ys < Suc n" "lineage parents base x (ys @ [y])"
          "distinct (ys @ [y])" "set (ys @ [y]) \<inter> seen = {}" "\<forall>z \<in> set ys. sessions (c, z) = None"
          "sessions (c, y) = Some (key, shared)" "k = lent_key spots key shared" by blast
        then obtain zs where "ys = p # zs" using p None by (cases ys) auto
        then show "?R n p (insert p seen)" using r
          by (intro exI [of _ zs] exI [of _ y] exI [of _ key] exI [of _ shared]) auto
      next
        assume "?R n p (insert p seen)"
        then obtain ys y key shared where r: "length ys < n" "lineage parents base p (ys @ [y])"
          "distinct (ys @ [y])" "set (ys @ [y]) \<inter> insert p seen = {}" "\<forall>z \<in> set ys. sessions (c, z) = None"
          "sessions (c, y) = Some (key, shared)" "k = lent_key spots key shared" by blast
        then show "?R (Suc n) x seen" using p None
          by (intro exI [of _ "p # ys"] exI [of _ y] exI [of _ key] exI [of _ shared]) auto
      qed
      then show ?thesis using Suc.IH [of p "insert p seen"] p None by simp
    next
      case (Some ks)
      obtain key shared where ks: "ks = (key, shared)" by (cases ks)
      have "?R (Suc n) x seen \<longleftrightarrow> k = lent_key spots key shared"
      proof
        assume "?R (Suc n) x seen"
        then obtain ys y key' shared' where r: "lineage parents base x (ys @ [y])"
          "\<forall>z \<in> set ys. sessions (c, z) = None"
          "sessions (c, y) = Some (key', shared')" "k = lent_key spots key' shared'" by blast
        then have "ys = []" using p Some by (cases ys) auto
        then show "k = lent_key spots key shared" using r p Some ks by simp
      next
        assume "k = lent_key spots key shared"
        then show "?R (Suc n) x seen" using p Some ks
          by (intro exI [of _ "[]"] exI [of _ p] exI [of _ key] exI [of _ shared]) auto
      qed
      moreover have "share_walk (Suc n) x seen base parents sessions spots c = Some (lent_key spots key shared)"
        using p Some ks by (simp add: lent_key_def split: option.split)
      ultimately show ?thesis by auto
    qed
  qed
qed simp

text \<open>
  A sub-agent runs on the spot lent by its closest tracked ancestor. The walk answers a
  key exactly when the cached parents lead, within \<open>depth\<close> steps and without a
  repetition, over untracked sessions to a tracked one; the key is that session's own,
  or the one it shares when that is the one holding a spot. A chain that is cut, too
  long or cyclic shares nothing.
\<close>

theorem shared_spot_is_closest_ancestors:
  "resolve_shared_spot base session_id po sessions spots client_name depth = Some k \<longleftrightarrow>
     (\<exists>ys y key shared. int (length ys) < depth \<and>
        lineage (po_session_parent po) base session_id (ys @ [y]) \<and>
        distinct (session_id # ys @ [y]) \<and> (\<nexists>z. z \<in> set ys \<and> sessions (client_name, z) \<noteq> None) \<and>
        sessions (client_name, y) = Some (key, shared) \<and> k = lent_key spots key shared)"
proof -
  have "length ys < nat depth \<longleftrightarrow> int (length ys) < depth" for ys :: "string list" by linarith
  then show ?thesis unfolding resolve_shared_spot_def share_walk_iff by simp blast
qed

section \<open>Witnesses\<close>

text \<open>The opencode client of the sample configuration, and a request it sends to a self-hosted model.\<close>

definition opencode :: client_provider where
  "opencode = provider_from_config ((default_client_config ''opencode'')
     \<lparr>cc_match := \<lparr>mc_ua_prefix = ''opencode'', mc_session_headers = [''X-Opencode-Session''],
        mc_gated_session_headers = [''X-Session-Id'']\<rparr>\<rparr>)"

definition opencode_headers :: "(string \<times> string) list" where
  "opencode_headers = [(''Host'', ''relay''), (''User-Agent'', ''OpenCode/1.2''), (''X-Session-ID'', ''ses_7'')]"

lemma opencode_detected: "detect_client opencode_headers [opencode] = Some opencode"
  by code_simp

lemma detected_client_has_session_id_witness:
  "detect_client opencode_headers [opencode] = Some opencode \<and>
   (\<exists>sid. session_header_value opencode opencode_headers = Some sid \<and> sid \<noteq> [])"
  using detected_client_has_session_id [OF opencode_detected] opencode_detected by blast

lemma gated_headers_need_user_agent_witness:
  "\<not> str_present (lowered opencode_headers) ''x-opencode-session'' \<and>
   startswith (lower (str_get (lowered opencode_headers) ''user-agent'' [])) (cp_ua_prefix opencode)"
proof -
  have absent: "\<not> str_present (lowered opencode_headers) ''x-opencode-session''" by code_simp
  moreover have "cp_session_headers opencode = [''x-opencode-session'']" by code_simp
  ultimately show ?thesis using gated_headers_need_user_agent [OF opencode_detected] by simp
qed

end
