(* ===== verification/Relay_Identify.thy ===== *)
theory Relay_Identify
  imports Relay_Clients
begin

text \<open>
  Where a request goes and whose it is (the functions at the head of relay/endpoints.py):
  the endpoint by longest path prefix, the session by headers, body fields or query
  parameters.

  \<open>loads\<close> is the JSON decoder (None when it raises) and \<open>fl\<close> the text of a float, both of the
  standard library. \<open>rq_headers\<close> are the header fields in the order of arrival, \<open>rq_client\<close>
  the peer address when there is one, \<open>ws_query_params\<close> the decoded query.
\<close>

record http_request =
  rq_method :: string
  rq_path :: string
  rq_query :: string
  rq_headers :: "(string \<times> string) list"
  rq_client :: "string option"
  rq_body :: string

record websocket_request =
  ws_path :: string
  ws_query_params :: "(string, string) dict"
  ws_headers :: "(string \<times> string) list"
  ws_client :: "string option"

section \<open>Session identity\<close>

fun walk_path :: "string list \<Rightarrow> pyval \<Rightarrow> pyval option" where
  "walk_path [] v = Some v"
| "walk_path (part # parts) v =
     (case v of
        PDict d \<Rightarrow> (case map_of d part of None \<Rightarrow> None | Some v' \<Rightarrow> walk_path parts v')
      | _ \<Rightarrow> None)"

definition extract_body_field ::
    "(string \<Rightarrow> pyval option) \<Rightarrow> (rat \<Rightarrow> string) \<Rightarrow> string \<Rightarrow> string \<Rightarrow> string option" where
  "extract_body_field loads fl body dotted_path =
     (case loads body of
        None \<Rightarrow> None
      | Some data \<Rightarrow>
          (case walk_path (split_on CHR ''.'' dotted_path) data of
             Some (PStr s) \<Rightarrow> if s \<noteq> [] then Some s else None
           | Some (PInt i) \<Rightarrow> Some (show_int i)
           | Some (PFloat r) \<Rightarrow> Some (fl r)
           | _ \<Rightarrow> None))"

definition unknown_client :: string where
  "unknown_client = ''unknown''"

text \<open>\<open>for header in headers: value = d.get(header); if value: return value\<close>\<close>

definition first_value :: "(string, string) dict \<Rightarrow> string list \<Rightarrow> string option" where
  "first_value d headers =
     (case List.find (str_present d) headers of None \<Rightarrow> None | Some h \<Rightarrow> dict_get d h)"

definition fallback_id :: "(string, string) dict \<Rightarrow> string option \<Rightarrow> string" where
  "fallback_id low client =
     ''ua:'' @ str_get low ''user-agent'' [] @ ''|ip:'' @ (case client of Some h \<Rightarrow> h | None \<Rightarrow> ''unknown'')"

fun first_body_field :: "(string \<Rightarrow> string option) \<Rightarrow> string list \<Rightarrow> string option" where
  "first_body_field get [] = None"
| "first_body_field get (f # fs) = (case get f of Some v \<Rightarrow> Some v | None \<Rightarrow> first_body_field get fs)"

definition resolve_session_id ::
    "(string \<Rightarrow> pyval option) \<Rightarrow> (rat \<Rightarrow> string) \<Rightarrow> http_request \<Rightarrow> string list \<Rightarrow> client_provider list \<Rightarrow>
     string list \<Rightarrow> string \<times> string" where
  "resolve_session_id loads fl request body_fields providers generic_headers =
     (let low = lowered (rq_headers request);
          by_rest =
            (case first_value low generic_headers of
               Some v \<Rightarrow> (unknown_client, v)
             | None \<Rightarrow>
                 (case first_body_field (extract_body_field loads fl (rq_body request)) body_fields of
                    Some v \<Rightarrow> (unknown_client, v)
                  | None \<Rightarrow> (unknown_client, fallback_id low (rq_client request))))
      in case detect_client low providers of
           None \<Rightarrow> by_rest
         | Some p \<Rightarrow>
             (case session_header_value p low of
                Some v \<Rightarrow> if v \<noteq> [] then (cp_name p, v) else by_rest
              | None \<Rightarrow> by_rest))"

definition resolve_session_id_ws ::
    "websocket_request \<Rightarrow> client_provider list \<Rightarrow> string list \<Rightarrow> string \<times> string" where
  "resolve_session_id_ws ws providers generic_headers =
     (let low = lowered (ws_headers ws);
          query = ws_query_params ws;
          detected = detect_client low providers;
          by_generic_query =
            (case first_value query generic_headers of
               Some v \<Rightarrow> (unknown_client, v)
             | None \<Rightarrow> (unknown_client, fallback_id low (ws_client ws)));
          by_query =
            (case detected of
               None \<Rightarrow> by_generic_query
             | Some p \<Rightarrow>
                 (case first_value query (cp_session_headers p @ cp_gated_session_headers p) of
                    Some v \<Rightarrow> (cp_name p, v)
                  | None \<Rightarrow> by_generic_query));
          by_headers =
            (case first_value low generic_headers of
               Some v \<Rightarrow> (unknown_client, v)
             | None \<Rightarrow> by_query)
      in case detected of
           None \<Rightarrow> by_headers
         | Some p \<Rightarrow>
             (case session_header_value p low of
                Some v \<Rightarrow> if v \<noteq> [] then (cp_name p, v) else by_headers
              | None \<Rightarrow> by_headers))"

text \<open>\<open>_client_display\<close>: the client column of the request log.\<close>

definition client_display :: "string \<Rightarrow> string \<Rightarrow> string \<Rightarrow> string" where
  "client_display client_name client_ip user_agent =
     (if client_name \<noteq> unknown_client then client_name
      else ''ip:'' @ client_ip @ '' ('' @ user_agent @ '')'')"

section \<open>Routing\<close>

text \<open>The loop of \<open>route\<close> over the endpoints: the best so far and the length of its prefix
  (the -1 of the start is None).\<close>

definition better :: "string \<Rightarrow> ('e \<Rightarrow> string) \<Rightarrow> 'e \<Rightarrow> 'e option \<Rightarrow> 'e option" where
  "better path pre e best =
     (if startswith path (pre e) \<and> (case best of None \<Rightarrow> True | Some b \<Rightarrow> length (pre b) < length (pre e))
      then Some e else best)"

definition route :: "string \<Rightarrow> ('e \<Rightarrow> string) \<Rightarrow> 'e list \<Rightarrow> 'e option" where
  "route path pre endpoints =
     (let path = (if startswith path ''/'' then path else ''/'' @ path)
      in fold (better path pre) endpoints None)"

section \<open>Routing is the longest match\<close>

lemma startswith_same_length:
  "startswith s p \<Longrightarrow> startswith s q \<Longrightarrow> length p = length q \<Longrightarrow> p = q"
  by (auto simp: startswith_def)

lemma fold_better:
  assumes "fold (better path pre) es b = r"
  shows "(r = None \<longleftrightarrow> b = None \<and> (\<forall>e \<in> set es. \<not> startswith path (pre e))) \<and>
    (\<forall>x. r = Some x \<longrightarrow> (x \<in> set es \<and> startswith path (pre x) \<or> b = Some x) \<and>
       (\<forall>e \<in> set es. startswith path (pre e) \<longrightarrow> length (pre e) \<le> length (pre x)) \<and>
       (\<forall>y. b = Some y \<longrightarrow> length (pre y) \<le> length (pre x)))"
  using assms
proof (induction es arbitrary: b)
  case (Cons e es)
  from Cons.IH [of "better path pre e b"] Cons.prems show ?case
    by (auto simp: better_def split: if_splits option.splits)
qed auto

text \<open>
  C35: Routing is the longest prefix match. Over endpoints whose prefixes are distinct (the
  loader sees to it) an endpoint is chosen exactly when its prefix begins the path and no other
  endpoint's prefix that does is as long; no endpoint is chosen exactly when none matches. The
  order of the endpoints does not matter.
\<close>

theorem route_longest_prefix:
  assumes "distinct (map pre endpoints)" and "startswith path ''/''"
  shows "(route path pre endpoints = Some e \<longleftrightarrow>
      e \<in> set endpoints \<and> startswith path (pre e) \<and>
      (\<forall>e' \<in> set endpoints. startswith path (pre e') \<and> e' \<noteq> e \<longrightarrow> length (pre e') < length (pre e))) \<and>
    (route path pre endpoints = None \<longleftrightarrow> (\<forall>e' \<in> set endpoints. \<not> startswith path (pre e'))) \<and>
    (\<forall>perm. set perm = set endpoints \<and> distinct (map pre perm) \<longrightarrow> route path pre perm = route path pre endpoints)"
proof -
  have char: "route path pre es = Some e \<longleftrightarrow>
      e \<in> set es \<and> startswith path (pre e) \<and>
      (\<forall>e' \<in> set es. startswith path (pre e') \<and> e' \<noteq> e \<longrightarrow> length (pre e') < length (pre e))"
    if d: "distinct (map pre es)" for es e
  proof -
    define r where "r = fold (better path pre) es None"
    have inj: "x = y" if "x \<in> set es" "y \<in> set es" "pre x = pre y" for x y
      using d that by (auto simp: distinct_map inj_on_def)
    have f: "(r = None \<longleftrightarrow> (\<forall>e \<in> set es. \<not> startswith path (pre e))) \<and>
      (\<forall>x. r = Some x \<longrightarrow> x \<in> set es \<and> startswith path (pre x) \<and>
         (\<forall>e \<in> set es. startswith path (pre e) \<longrightarrow> length (pre e) \<le> length (pre x)))"
      using fold_better [of path pre es None r] by (simp add: r_def)
    have "r = Some e" if e: "e \<in> set es" "startswith path (pre e)"
      "\<forall>e' \<in> set es. startswith path (pre e') \<and> e' \<noteq> e \<longrightarrow> length (pre e') < length (pre e)"
    proof (cases r)
      case (Some x)
      with f e show ?thesis by (metis not_le)
    qed (use f e in auto)
    moreover have "length (pre e') < length (pre e)"
      if "r = Some e" "e' \<in> set es" "startswith path (pre e')" "e' \<noteq> e" for e'
      using f that inj [of e' e] startswith_same_length [of path "pre e'" "pre e"]
      by (metis le_neq_implies_less)
    ultimately show ?thesis using f assms(2) by (auto simp: route_def r_def)
  qed
  have none: "route path pre es = None \<longleftrightarrow> (\<forall>e' \<in> set es. \<not> startswith path (pre e'))" for es
    using fold_better [of path pre es None "route path pre es"] assms(2) by (simp add: route_def)
  have "route path pre perm = route path pre endpoints"
    if "set perm = set endpoints" "distinct (map pre perm)" for perm
    using char [OF that(2)] char [OF assms(1)] that(1) by (metis not_None_eq option.exhaust)
  with char [OF assms(1)] none show ?thesis by blast
qed

lemma route_longest_prefix_witness:
  "route ''/v1/chat'' (\<lambda>e. e) [''/'', ''/v1'', ''/v2''] = Some ''/v1''"
  using route_longest_prefix [of "\<lambda>e. e" "[''/'', ''/v1'', ''/v2'']" "''/v1/chat''" "''/v1''"]
  by (simp add: startswith_def)

section \<open>Precedence of the session identity\<close>

text \<open>The non-empty values of some names, in the order of the names.\<close>

definition values_of :: "(string, string) dict \<Rightarrow> string list \<Rightarrow> string list" where
  "values_of d names = filter (\<lambda>v. v \<noteq> []) (List.map_filter (dict_get d) names)"

text \<open>All that could name the session of a request, by decreasing precedence.\<close>

definition session_candidates ::
    "(string \<Rightarrow> pyval option) \<Rightarrow> (rat \<Rightarrow> string) \<Rightarrow> http_request \<Rightarrow> string list \<Rightarrow> client_provider list \<Rightarrow>
     string list \<Rightarrow> (string \<times> string) list" where
  "session_candidates loads fl request body_fields providers generic_headers =
     (let low = lowered (rq_headers request) in
      (case detect_client low providers of
         None \<Rightarrow> []
       | Some p \<Rightarrow> map (Pair (cp_name p))
           (values_of (lowered low) (cp_session_headers p @ cp_gated_session_headers p))) @
      map (Pair unknown_client) (values_of low generic_headers) @
      map (Pair unknown_client)
        (List.map_filter (extract_body_field loads fl (rq_body request)) body_fields) @
      [(unknown_client, fallback_id low (rq_client request))])"

lemma first_value_values: "first_value d names = (case values_of d names of [] \<Rightarrow> None | v # _ \<Rightarrow> Some v)"
proof (induction names)
  case (Cons h hs)
  show ?case
    using Cons.IH
    by (cases "dict_get d h")
       (auto simp: first_value_def values_of_def str_present_def map_filter_simps)
qed (simp add: first_value_def values_of_def map_filter_simps)

lemma session_header_value_first:
  "session_header_value p headers =
     first_value (lowered headers) (cp_session_headers p @ cp_gated_session_headers p)"
  by (simp add: session_header_value_def first_value_def Let_def)

lemma first_body_field_values:
  "first_body_field get names = (case List.map_filter get names of [] \<Rightarrow> None | v # _ \<Rightarrow> Some v)"
  by (induction names) (auto simp: map_filter_simps split: option.splits)

lemma detect_session_values:
  assumes "detect_client headers providers = Some p"
  shows "\<exists>v vs. values_of (lowered headers) (cp_session_headers p @ cp_gated_session_headers p) = v # vs \<and>
    session_header_value p headers = Some v \<and> v \<noteq> []"
proof -
  have "provider_matches (lowered headers) p"
    using find_SomeD [OF assms [unfolded detect_client_def]] by blast
  from detected_session [OF this] show ?thesis
    by (auto simp: session_header_value_first first_value_values split: list.splits)
qed

text \<open>
  C36: The precedence of the session identity. A request is identified by the first of: the
  detected client's own headers, the configured generic headers, the body fields of the
  endpoint, the user agent with the peer address. A detected client is always identified by
  its own headers, so whatever generic header or body the request carries.
\<close>

theorem session_identity_precedence:
  "resolve_session_id loads fl request body_fields providers generic_headers =
     hd (session_candidates loads fl request body_fields providers generic_headers) \<and>
   fst (resolve_session_id loads fl request body_fields providers generic_headers) =
     (case detect_client (lowered (rq_headers request)) providers of
        None \<Rightarrow> unknown_client | Some p \<Rightarrow> cp_name p)"
proof (cases "detect_client (lowered (rq_headers request)) providers")
  case None
  then show ?thesis
    by (auto simp: resolve_session_id_def session_candidates_def Let_def first_value_values
        first_body_field_values split: list.split)
next
  case (Some p)
  with detect_session_values [OF Some] show ?thesis
    by (auto simp: resolve_session_id_def session_candidates_def Let_def)
qed

text \<open>
  The query parameters of a WebSocket never name a known client. A connection whose headers
  are not those of a known client gets the unknown one, whatever session parameters its URL
  carries, and a detected one ignores its parameters: the branch that reads a client's session
  headers from the query is dead, since detection already requires one of them as a header.
\<close>

theorem ws_query_never_names_a_client:
  "fst (resolve_session_id_ws ws providers generic_headers) =
     (case detect_client (lowered (ws_headers ws)) providers of
        None \<Rightarrow> unknown_client | Some p \<Rightarrow> cp_name p) \<and>
   (detect_client (lowered (ws_headers ws)) providers \<noteq> None \<longrightarrow>
     resolve_session_id_ws (ws\<lparr>ws_query_params := query\<rparr>) providers generic_headers =
     resolve_session_id_ws ws providers generic_headers)"
proof (cases "detect_client (lowered (ws_headers ws)) providers")
  case None
  then show ?thesis by (auto simp: resolve_session_id_ws_def Let_def split: option.split)
next
  case (Some p)
  with detect_session_values [OF Some] show ?thesis
    by (auto simp: resolve_session_id_ws_def Let_def)
qed

definition opencode_ws :: websocket_request where
  "opencode_ws =
     \<lparr>ws_path = ''/v1/live'', ws_query_params = [(''x-opencode-session'', ''s1'')],
      ws_headers = [(''X-Opencode-Session'', ''s7'')], ws_client = Some ''10.0.0.9''\<rparr>"

lemma ws_query_never_names_a_client_witness:
  "resolve_session_id_ws opencode_ws [opencode] [] =
     resolve_session_id_ws (opencode_ws\<lparr>ws_query_params := []\<rparr>) [opencode] [] \<and>
   fst (resolve_session_id_ws (opencode_ws\<lparr>ws_headers := []\<rparr>) [opencode] []) = unknown_client"
proof -
  have d: "detect_client (lowered (ws_headers opencode_ws)) [opencode] \<noteq> None"
    and n: "detect_client (lowered (ws_headers (opencode_ws\<lparr>ws_headers := []\<rparr>))) [opencode] = None"
    by code_simp+
  show ?thesis
    using ws_query_never_names_a_client [of opencode_ws "[opencode]" "[]" "[]"] d
      ws_query_never_names_a_client [of "opencode_ws\<lparr>ws_headers := []\<rparr>" "[opencode]" "[]"] n
    by simp
qed

end
