(* ===== verification/Relay_Transport.thy ===== *)
theory Relay_Transport
  imports Relay_Identify
begin

text \<open>
  The transports (relay/transport): the streaming HTTP forwarder and the WebSocket tunnel.

  The target and the server that runs the response are outside the program. What the target
  does is a \<open>send_outcome\<close>; how far the response body is driven is a \<open>drive\<close>: to its end,
  cancelled after some chunks went out, or never started. The callbacks \<open>release\<close> and
  \<open>record\<close> are reported as the list of calls made, in order.
\<close>

section \<open>HTTP\<close>

record target_call =
  tc_method :: string
  tc_url :: string
  tc_headers :: "(string, string) dict"
  tc_body :: string
  tc_read_timeout :: "int option"

text \<open>\<open>dict(request.headers)\<close>: one entry per name, in the order of first appearance, with the
  value of the first field of that name.\<close>

definition header_dict :: "(string \<times> string) list \<Rightarrow> (string, string) dict" where
  "header_dict headers = fold (\<lambda>(k, v) d. dict_setdefault k v d) headers []"

definition target_request :: "string \<Rightarrow> http_request \<Rightarrow> string \<Rightarrow> int \<Rightarrow> target_call" where
  "target_request base request path read_timeout =
     \<lparr>tc_method = rq_method request, tc_url = base @ path,
      tc_headers = dict_pop ''host'' (header_dict (rq_headers request)),
      tc_body = rq_body request,
      tc_read_timeout = (if read_timeout = 0 then None else Some read_timeout)\<rparr>"

datatype stream_end = EndOfBody | EndReadTimeout | EndError string

record upstream =
  up_status :: int
  up_headers :: "(string, string) dict"
  up_chunks :: "string list"
  up_end :: stream_end
  up_close_fails :: bool

datatype send_outcome = SendFailed string | SendCancelled | SendOk upstream

datatype drive = NeverStarted | CancelledAfter nat | DrivenToEnd

datatype callback = Release "int option" | Record "int option" nat nat time

record forwarded =
  fw_status :: int
  fw_body :: "string list"
  fw_calls :: "callback list"

text \<open>All the body may yield: the chunks, and the note that stands for a failure.\<close>

definition stream_yields :: "upstream \<Rightarrow> string list" where
  "stream_yields up =
     up_chunks up @
     (case up_end up of
        EndOfBody \<Rightarrow> []
      | EndReadTimeout \<Rightarrow> ['' [Error: Read Timeout] '']
      | EndError e \<Rightarrow> ['' [Error: '' @ e @ ''] ''])"

text \<open>The generator, once started: what it yields, and its \<open>finally\<close>. \<open>response_bytes\<close>
  counts a chunk before it is yielded. When closing the connection raises, nothing after it runs.\<close>

definition run_stream :: "upstream \<Rightarrow> nat \<Rightarrow> nat \<Rightarrow> time \<Rightarrow> string list \<times> callback list" where
  "run_stream up request_bytes yielded active_seconds =
     (take yielded (stream_yields up),
      if up_close_fails up then []
      else [Release (Some (up_status up)),
            Record (Some (up_status up)) request_bytes
              (sum_list (map length (take yielded (up_chunks up)))) active_seconds])"

text \<open>\<open>forward_request\<close>: None when the handler itself was cancelled, with no response.\<close>

definition forward_request ::
    "send_outcome \<Rightarrow> drive \<Rightarrow> nat \<Rightarrow> time \<Rightarrow> forwarded option" where
  "forward_request outcome driven request_bytes active_seconds =
     (case outcome of
        SendCancelled \<Rightarrow> None
      | SendFailed e \<Rightarrow>
          Some \<lparr>fw_status = 502, fw_body = [''Proxy error: '' @ e],
                fw_calls = [Release None, Record None request_bytes 0 0]\<rparr>
      | SendOk up \<Rightarrow>
          (let (body, calls) =
             (case driven of
                NeverStarted \<Rightarrow> ([], [])
              | CancelledAfter n \<Rightarrow> run_stream up request_bytes n active_seconds
              | DrivenToEnd \<Rightarrow> run_stream up request_bytes (length (stream_yields up)) active_seconds)
           in Some \<lparr>fw_status = up_status up, fw_body = body, fw_calls = calls\<rparr>))"

section \<open>WebSockets\<close>

text \<open>\<open>urlsplit\<close> as far as the proxy uses it: the scheme and the network location.\<close>

definition scheme_char :: "char \<Rightarrow> bool" where
  "scheme_char c = (let n = (of_char c :: nat) in
     48 \<le> n \<and> n \<le> 57 \<or> 65 \<le> n \<and> n \<le> 90 \<or> 97 \<le> n \<and> n \<le> 122 \<or> n \<in> {43, 45, 46})"

definition alpha :: "char \<Rightarrow> bool" where
  "alpha c = (let n = (of_char c :: nat) in 65 \<le> n \<and> n \<le> 90 \<or> 97 \<le> n \<and> n \<le> 122)"

definition split_scheme :: "string \<Rightarrow> string \<times> string" where
  "split_scheme url =
     (let sch = takeWhile (\<lambda>c. c \<noteq> CHR '':'') url; rest = dropWhile (\<lambda>c. c \<noteq> CHR '':'') url in
      if sch \<noteq> [] \<and> rest \<noteq> [] \<and> alpha (hd sch) \<and> list_all scheme_char sch
      then (lower sch, tl rest) else ([], url))"

definition netloc_of :: "string \<Rightarrow> string" where
  "netloc_of rest =
     (if startswith rest ''//''
      then takeWhile (\<lambda>c. c \<notin> {CHR ''/'', CHR ''?'', CHR ''#''}) (drop 2 rest) else [])"

text \<open>\<open>urlunsplit((scheme, netloc, path, "", ""))\<close> for a scheme that takes a location.\<close>

definition unsplit :: "string \<Rightarrow> string \<Rightarrow> string \<Rightarrow> string" where
  "unsplit sch netloc path =
     sch @ '':'' @
     (if netloc \<noteq> [] then
        ''//'' @ netloc @ (if path \<noteq> [] \<and> \<not> startswith path ''/'' then ''/'' @ path else path)
      else if startswith path ''//'' \<or> path = [] \<or> startswith path ''/'' then ''//'' @ path
      else path)"

definition to_ws_url :: "string \<Rightarrow> string \<Rightarrow> string" where
  "to_ws_url base path =
     (let (sch, rest) = split_scheme base
      in unsplit (if sch = ''https'' then ''wss'' else ''ws'') (netloc_of rest) path)"

text \<open>Inbound messages: a frame with bytes or text, or the disconnect. The client queue ends with
  the sentinel.\<close>

datatype ws_message = WsFrame "string option" "string option" | WsDisconnect

datatype queue_item = Message "string option" "string option" | Sentinel

datatype ws_data = WsBytes string | WsText string

text \<open>\<open>read_client\<close>: what it leaves in the queue; it sets \<open>disconnected\<close> before the sentinel.\<close>

fun read_client :: "ws_message list \<Rightarrow> queue_item list" where
  "read_client [] = [Sentinel]"
| "read_client (WsDisconnect # ms) = [Sentinel]"
| "read_client (WsFrame b t # ms) = Message b t # read_client ms"

text \<open>\<open>client_to_target\<close>: the items it takes from the queue, each with the state of
  \<open>disconnected\<close> when it resumes, and the frames it sends.\<close>

fun frame_of :: "queue_item \<Rightarrow> ws_data list" where
  "frame_of (Message (Some b) t) = [WsBytes b]"
| "frame_of (Message None (Some t)) = [WsText t]"
| "frame_of (Message None None) = []"
| "frame_of Sentinel = []"

fun client_to_target :: "(queue_item \<times> bool) list \<Rightarrow> ws_data list" where
  "client_to_target [] = []"
| "client_to_target ((item, disconnected) # items) =
     (if item = Sentinel \<or> disconnected then [] else frame_of item @ client_to_target items)"

text \<open>\<open>target_to_client\<close>: a frame is sent on before \<open>disconnected\<close> is looked at.\<close>

fun target_to_client :: "(ws_data \<times> bool) list \<Rightarrow> ws_data list" where
  "target_to_client [] = []"
| "target_to_client ((frame, disconnected) # frames) =
     frame # (if disconnected then [] else target_to_client frames)"

record tunnelled =
  tn_to_target :: "ws_data list"
  tn_to_client :: "ws_data list"
  tn_releases :: nat

text \<open>
  \<open>tunnel\<close>: both pumps run until one ends, then the other is cancelled; what each took in by
  then is an argument. The release callback stands in a \<open>finally\<close> around everything.
\<close>

definition tunnel :: "bool \<Rightarrow> (queue_item \<times> bool) list \<Rightarrow> (ws_data \<times> bool) list \<Rightarrow> tunnelled" where
  "tunnel linked from_client from_target =
     \<lparr>tn_to_target = (if linked then client_to_target from_client else []),
      tn_to_client = (if linked then target_to_client from_target else []),
      tn_releases = 1\<rparr>"

section \<open>What the transports promise\<close>

definition releases :: "callback list \<Rightarrow> callback list" where
  "releases calls = filter (\<lambda>c. case c of Release _ \<Rightarrow> True | _ \<Rightarrow> False) calls"

definition records :: "callback list \<Rightarrow> callback list" where
  "records calls = filter (\<lambda>c. case c of Record _ _ _ _ \<Rightarrow> True | _ \<Rightarrow> False) calls"

text \<open>The response of the target was obtained but its body never ran to the release.\<close>

definition settles :: "send_outcome \<Rightarrow> drive \<Rightarrow> bool" where
  "settles outcome driven =
     (case outcome of SendFailed _ \<Rightarrow> True | SendCancelled \<Rightarrow> False
      | SendOk up \<Rightarrow> driven \<noteq> NeverStarted \<and> \<not> up_close_fails up)"

text \<open>
  C37: The slot of a forwarded request is released, and its record written, at most once, and
  exactly once when the send failed or the body was started and its connection closed
  cleanly - whether the stream ended, timed out, broke or was cancelled after any number of
  chunks. Otherwise neither happens: a body that is never started, a close that raises or
  a cancelled send leaves the slot held for good. A record's bytes are those of the chunks that went out.
\<close>

theorem forward_settles_at_most_once:
  "forward_request outcome driven request_bytes active = Some fw \<Longrightarrow>
     length (releases (fw_calls fw)) = (if settles outcome driven then 1 else 0) \<and>
     length (records (fw_calls fw)) = (if settles outcome driven then 1 else 0) \<and>
     (\<forall>code req resp secs. Record code req resp secs \<in> set (fw_calls fw) \<longrightarrow>
        Release code \<in> set (fw_calls fw) \<and> req = request_bytes \<and>
        (\<forall>up. outcome = SendOk up \<longrightarrow>
          code = Some (fw_status fw) \<and> resp \<le> sum_list (map length (fw_body fw)) \<and>
          (up_end up = EndOfBody \<longrightarrow> resp = sum_list (map length (fw_body fw)))))"
proof -
  assume f: "forward_request outcome driven request_bytes active = Some fw"
  show ?thesis
  proof (cases outcome)
    case (SendOk up)
    define n where "n = (case driven of CancelledAfter k \<Rightarrow> k | _ \<Rightarrow> length (stream_yields up))"
    have calls: "fw_calls fw = (if driven = NeverStarted then [] else snd (run_stream up request_bytes n active))"
      and body: "fw_body fw = (if driven = NeverStarted then [] else take n (stream_yields up))"
      and status: "fw_status fw = up_status up"
      using f by (auto simp: SendOk forward_request_def run_stream_def n_def split: drive.splits)
    have "sum_list (map length (take n (up_chunks up))) \<le> sum_list (map length (take n (stream_yields up)))"
      by (simp add: stream_yields_def)
    moreover have "take n (stream_yields up) = take n (up_chunks up)" if "up_end up = EndOfBody"
      using that by (simp add: stream_yields_def)
    ultimately show ?thesis
      by (auto simp: calls body status run_stream_def releases_def records_def settles_def SendOk)
  qed (use f in \<open>auto simp: forward_request_def releases_def records_def settles_def\<close>)
qed

definition demo_upstream :: upstream where
  "demo_upstream = \<lparr>up_status = 200, up_headers = [], up_chunks = [''ab'', ''cde''],
     up_end = EndReadTimeout, up_close_fails = False\<rparr>"

lemma forward_settles_at_most_once_witness:
  "length (releases (fw_calls (the (forward_request (SendOk demo_upstream) (CancelledAfter 1) 7 2)))) = 1 \<and>
   length (releases (fw_calls (the (forward_request (SendOk demo_upstream) NeverStarted 7 2)))) = 0"
proof -
  obtain a b where a: "forward_request (SendOk demo_upstream) (CancelledAfter 1) 7 2 = Some a"
    and b: "forward_request (SendOk demo_upstream) NeverStarted 7 2 = Some b"
    by (simp add: forward_request_def split_beta)
  show ?thesis
    using forward_settles_at_most_once [OF a] forward_settles_at_most_once [OF b]
    unfolding a b option.sel by (simp add: settles_def demo_upstream_def)
qed

section \<open>What reaches the target\<close>

lemma header_dict_get: "dict_get (header_dict headers) k = map_of headers k"
proof -
  have "dict_get (fold (\<lambda>(k, v) d. dict_setdefault k v d) headers d) k =
      (case dict_get d k of Some v \<Rightarrow> Some v | None \<Rightarrow> map_of headers k)" for d
    by (induction headers arbitrary: d)
       (auto simp: setdefault_get split: option.splits)
  then show ?thesis by (simp add: header_dict_def)
qed

text \<open>
  What is forwarded. The target gets the method and the body unchanged, at the service URL
  followed by the path, and each header by its first field, the host header excepted. The query
  of the request is no part of it: two requests that differ only in their query are forwarded alike.
\<close>

theorem forwarded_request_drops_query:
  "tc_method (target_request base request path t) = rq_method request \<and>
   tc_body (target_request base request path t) = rq_body request \<and>
   tc_url (target_request base request path t) = base @ path \<and>
   dict_get (tc_headers (target_request base request path t)) h =
     (if h = ''host'' then None else map_of (rq_headers request) h) \<and>
   target_request base (request\<lparr>rq_query := query\<rparr>) path t = target_request base request path t"
  by (simp add: target_request_def header_dict_get)

text \<open>
  The WebSocket target forgets the path of the service URL. For a service at
  http(s)://location/base-path the tunnel connects to ws(s)://location followed by the request's
  path, without the base path that an HTTP request to the same endpoint is sent under.
\<close>

theorem ws_target_drops_base_path:
  assumes "netloc \<noteq> []" and "list_all (\<lambda>c. c \<notin> {CHR ''/'', CHR ''?'', CHR ''#''}) netloc"
    and "base_path = [] \<or> startswith base_path ''/''" and "startswith path ''/''"
  shows "to_ws_url (''http://'' @ netloc @ base_path) path = ''ws://'' @ netloc @ path \<and>
    to_ws_url (''https://'' @ netloc @ base_path) path = ''wss://'' @ netloc @ path"
proof -
  have run: "takeWhile (\<lambda>c. c \<notin> {CHR ''/'', CHR ''?'', CHR ''#''}) (netloc @ base_path) = netloc"
    using assms(2,3) by (cases base_path) (auto simp: list_all_iff startswith_def takeWhile_append)
  have split: "split_scheme (''http://'' @ netloc @ base_path) = (''http'', ''//'' @ netloc @ base_path)"
    "split_scheme (''https://'' @ netloc @ base_path) = (''https'', ''//'' @ netloc @ base_path)"
    by (simp_all add: split_scheme_def alpha_def scheme_char_def lower_def lower_char_def Let_def)
  have loc: "netloc_of (''//'' @ netloc @ base_path) = netloc"
    using run by (simp add: netloc_of_def startswith_def)
  show ?thesis
    unfolding to_ws_url_def split Let_def prod.case loc unsplit_def
    using assms(1,4) by (auto simp: startswith_def)
qed

lemma ws_target_drops_base_path_witness:
  "to_ws_url ''http://gpu1:8000/api'' ''/v1/live'' = ''ws://gpu1:8000/v1/live'' \<and>
   ''http://gpu1:8000/api'' @ ''/v1/live'' = ''http://gpu1:8000/api/v1/live''"
  using ws_target_drops_base_path [of "''gpu1:8000''" "''/api''" "''/v1/live''"]
  by (simp add: startswith_def)

lemma client_to_target_takeWhile:
  "client_to_target items =
     concat (map (\<lambda>(i, _). frame_of i) (takeWhile (\<lambda>(i, gone). i \<noteq> Sentinel \<and> \<not> gone) items))"
  by (induction items rule: client_to_target.induct) auto

lemma read_client_items:
  "read_client ms = map (\<lambda>m. case m of WsFrame b t \<Rightarrow> Message b t | WsDisconnect \<Rightarrow> Sentinel)
     (takeWhile (\<lambda>m. m \<noteq> WsDisconnect) ms) @ [Sentinel]"
  by (induction ms rule: read_client.induct) auto

text \<open>The frames a client sent before it closed.\<close>

definition sent_frames :: "ws_message list \<Rightarrow> ws_data list" where
  "sent_frames ms = concat (map (\<lambda>m. case m of WsFrame b t \<Rightarrow> frame_of (Message b t) | WsDisconnect \<Rightarrow> [])
     (takeWhile (\<lambda>m. m \<noteq> WsDisconnect) ms))"

lemma client_to_target_open:
  "client_to_target (map (\<lambda>i. (i, False)) (read_client ms)) = sent_frames ms"
  by (induction ms rule: read_client.induct) (auto simp: sent_frames_def)

lemma client_to_target_append:
  "list_all (\<lambda>(i, gone). i \<noteq> Sentinel \<and> \<not> gone) xs \<Longrightarrow>
     client_to_target (xs @ ys) = client_to_target xs @ client_to_target ys"
  by (induction xs rule: client_to_target.induct) auto

text \<open>
  The tunnel and the end of a connection. It releases its slot exactly once in every case.
  While the client is there all its frames go to the target in order, bytes as bytes and text
  as text, up to the close. But a frame that is still in the queue when the close has been read is
  dropped: if the pump resumes with the disconnect already noted, what is queued never goes out.
\<close>

theorem tunnel_frames_and_close:
  "tn_releases (tunnel linked from_client from_target) = 1 \<and>
   tn_to_target (tunnel True (map (\<lambda>i. (i, False)) (read_client ms)) from_target) = sent_frames ms \<and>
   tn_to_target (tunnel True
       (map (\<lambda>i. (i, False)) (take k (read_client ms)) @ map (\<lambda>i. (i, True)) (drop k (read_client ms)))
       from_target) =
     sent_frames (take k ms)"
proof -
  have late: "client_to_target (map (\<lambda>i. (i, True)) is) = []" for "is"
    by (cases "is") auto
  have "client_to_target (map (\<lambda>i. (i, False)) (take k (read_client ms)) @
      map (\<lambda>i. (i, True)) (drop k (read_client ms))) = sent_frames (take k ms)"
  proof (induction ms arbitrary: k rule: read_client.induct)
    case (3 b t ms)
    show ?case
      using "3.IH" [of "k - 1"] late [of "drop k (read_client (WsFrame b t # ms))"]
      by (cases k) (auto simp: sent_frames_def)
  qed (auto simp: sent_frames_def take_Cons drop_Cons split: nat.split)
  then show ?thesis by (simp add: tunnel_def client_to_target_open)
qed

end
