(* ===== verification/Relay_Queue_Views.thy ===== *)
theory Relay_Queue_Views
  imports Relay_Queue_Machine
begin

text \<open>
  What leaves the queue: the answer of \<open>wait_for_slot\<close>, the rows of the monitor snapshot, and
  the tracker of requests that bypass the queue.
\<close>

section \<open>The hold\<close>

definition poll_decides :: "time option \<Rightarrow> slot_poll \<Rightarrow> bool" where
  "poll_decides deadline p \<longleftrightarrow> p_go p \<or> p_gone p \<or> past_deadline deadline (p_now p)"

definition poll_answer :: "slot_poll \<Rightarrow> wait_result" where
  "poll_answer p = (if p_go p then WOk else if p_gone p then WDisconnected else WTimedOut)"

lemma wait_loop_find:
  "wait_loop deadline polls = map_option poll_answer (List.find (poll_decides deadline) polls)"
  by (induction polls) (auto simp: poll_decides_def poll_answer_def)

text \<open>
  C18: The hold of a request. It ends exactly when a poll finds the entry promoted, the client
  gone or the deadline past, and answers by the first such poll, promotion first and a
  disconnect before a timeout. A configured timeout bounds the hold: it is over by the first
  poll at or after \<open>enqueued_at + timeout\<close>, and it never times out before that instant or
  when no timeout (None or 0) is configured.
\<close>

theorem hold_outcome:
  "wait_for_slot x timeout polls =
     map_option poll_answer (List.find (poll_decides (wait_deadline timeout (e_enqueued_at x))) polls) \<and>
   (\<forall>t p. timeout = Some t \<and> 0 < t \<and> p \<in> set polls \<and> e_enqueued_at x + t \<le> p_now p \<longrightarrow>
     wait_for_slot x timeout polls \<noteq> None) \<and>
   (wait_for_slot x timeout polls = Some WTimedOut \<longrightarrow>
     (\<exists>t p. timeout = Some t \<and> 0 < t \<and> p \<in> set polls \<and> e_enqueued_at x + t \<le> p_now p \<and>
        \<not> p_go p \<and> \<not> p_gone p))"
proof -
  have 1: "wait_for_slot x timeout polls =
      map_option poll_answer (List.find (poll_decides (wait_deadline timeout (e_enqueued_at x))) polls)"
    by (simp add: wait_for_slot_def wait_loop_find)
  have 2: "wait_for_slot x timeout polls \<noteq> None"
    if "timeout = Some t" "0 < t" "p \<in> set polls" "e_enqueued_at x + t \<le> p_now p" for t p
  proof -
    have "poll_decides (wait_deadline timeout (e_enqueued_at x)) p"
      using that by (simp add: poll_decides_def wait_deadline_def past_deadline_def)
    then show ?thesis using that(3) unfolding 1 by (auto simp: find_None_iff)
  qed
  have 3: "\<exists>t p. timeout = Some t \<and> 0 < t \<and> p \<in> set polls \<and> e_enqueued_at x + t \<le> p_now p \<and> \<not> p_go p \<and> \<not> p_gone p"
    if timed_out: "wait_for_slot x timeout polls = Some WTimedOut"
  proof -
    obtain p where p: "List.find (poll_decides (wait_deadline timeout (e_enqueued_at x))) polls = Some p"
      "poll_answer p = WTimedOut" using timed_out unfolding 1 by auto
    then have "p \<in> set polls" "poll_decides (wait_deadline timeout (e_enqueued_at x)) p"
      by (auto simp: find_Some_iff)
    with p(2) show ?thesis
      by (auto simp: poll_answer_def poll_decides_def past_deadline_def wait_deadline_def
          split: if_splits option.splits)
  qed
  show ?thesis using 1 2 3 by blast
qed

lemma hold_outcome_witness:
  "wait_for_slot (new_entry 0 ''/v1'' ''{}'' 5) (Some 10)
     [\<lparr>p_go = False, p_gone = False, p_now = 6\<rparr>, \<lparr>p_go = False, p_gone = False, p_now = 15\<rparr>] = Some WTimedOut"
  using hold_outcome [of "new_entry 0 ''/v1'' ''{}'' 5" "Some 10"
      "[\<lparr>p_go = False, p_gone = False, p_now = 6\<rparr>, \<lparr>p_go = False, p_gone = False, p_now = 15\<rparr>]"]
  by (simp add: new_entry_def wait_deadline_def poll_decides_def past_deadline_def poll_answer_def)

section \<open>The monitor snapshot\<close>

lemma first_pos_fold:
  "dict_get (fold (\<lambda>(i, e) d. dict_setdefault (f e) i d) (List.enumerate n es) d) k =
     (case dict_get d k of Some v \<Rightarrow> Some v
      | None \<Rightarrow> map_option fst (List.find (\<lambda>(i, e). f e = k) (List.enumerate n es)))"
  by (induction es arbitrary: n d)
     (auto simp: dict_setdefault_def dict_has_def split: option.splits)

lemma first_pos_get:
  "dict_get (first_pos q) k =
     map_option fst (List.find (\<lambda>(i, e). s_key (sess q (e_session (ent q e))) = k) (List.enumerate 1 (q_queue q)))"
  unfolding first_pos_def by (simp add: first_pos_fold)

lemma find_enumerate:
  "(List.find (\<lambda>(i, e). P e) (List.enumerate n es) = None) = (\<forall>e \<in> set es. \<not> P e)"
  by (induction es arbitrary: n) auto

lemma first_pos_has: "dict_has (first_pos q) k \<longleftrightarrow> (\<exists>e \<in> set (q_queue q). s_key (sess q (e_session (ent q e))) = k)"
  by (simp add: dict_has_def first_pos_get find_enumerate)

lemma fold_push:
  "\<exists>ys. fold (\<lambda>x acc. case g x of None \<Rightarrow> acc | Some r \<Rightarrow> push_new r acc) xs acc = acc @ ys \<and>
     set (acc @ ys) = set acc \<union> {r. \<exists>x \<in> set xs. g x = Some r} \<and> (distinct acc \<longrightarrow> distinct (acc @ ys))"
proof (induction xs arbitrary: acc)
  case (Cons x xs)
  show ?case
  proof (cases "g x")
    case None
    then show ?thesis using Cons [of acc] by auto
  next
    case (Some r)
    obtain ys where "fold (\<lambda>x acc. case g x of None \<Rightarrow> acc | Some r \<Rightarrow> push_new r acc) xs (push_new r acc) =
        push_new r acc @ ys" "set (push_new r acc @ ys) = set (push_new r acc) \<union> {r. \<exists>x \<in> set xs. g x = Some r}"
      "distinct (push_new r acc) \<longrightarrow> distinct (push_new r acc @ ys)" using Cons [of "push_new r acc"] by blast
    then show ?thesis
      using Some by (cases "r \<in> set acc") (auto simp: push_new_def intro!: exI [of _ "r # ys"])
  qed
qed simp

definition shares_spot :: "equeue \<Rightarrow> sref \<Rightarrow> bool" where
  "shares_spot q r \<longleftrightarrow>
     (case s_shared_spot_key (sess q r) of None \<Rightarrow> False | Some k \<Rightarrow> dict_has (q_spots q) k)"

lemma snapshot_sharers:
  "(case s_shared_spot_key (sess q r) of None \<Rightarrow> acc
     | Some shared \<Rightarrow> if dict_has (q_spots q) shared then push_new r acc else acc) =
   (case (if shares_spot q r then Some r else None) of None \<Rightarrow> acc | Some r \<Rightarrow> push_new r acc)"
  by (simp add: shares_spot_def split: option.split)

lemma set_map_filter: "set (List.map_filter f xs) = {y. \<exists>x \<in> set xs. f x = Some y}"
  by (induction xs) (auto simp: map_filter_simps split: option.splits)

lemma snapshot_order_active:
  assumes inv: "q_inv R W q"
  shows "distinct (snapshot_order q) \<and>
    set (snapshot_order q) =
      {r. tracked q r \<and> (s_spot_held (sess q r) \<or> 0 < s_waiting (sess q r) \<or> shares_spot q r)} \<and>
    map (\<lambda>r. s_key (sess q r)) (take (length (q_spots q)) (snapshot_order q)) = dict_keys (q_spots q) \<and>
    map r_position (snapshot q now) = [1..<Suc (length (snapshot_order q))]"
proof -
  have D: "dict_ok (q_sessions q)" "dict_ok (q_spots q)"
    and keys: "\<And>k r. dict_get (q_sessions q) k = Some r \<Longrightarrow> s_key (sess q r) = k"
    using inv by (simp_all add: q_inv_def q_dicts_def)
  have held: "\<And>k r. dict_get (q_sessions q) k = Some r \<Longrightarrow> s_spot_held (sess q r) = dict_has (q_spots q) k"
    and sub: "\<And>k. dict_has (q_spots q) k \<Longrightarrow> dict_has (q_sessions q) k"
    using inv by (simp_all add: q_inv_def q_spots_ok_def)
  have wait: "0 < s_waiting (sess q r) \<longleftrightarrow> (\<exists>e \<in> set (q_queue q). e_session (ent q e) = r)" if "tracked q r" for r
    using inv that of_session_zero [of "set (q_queue q)" q r] by (auto simp: q_inv_def q_counts_def)
  have etr: "tracked q (e_session (ent q e))" if "e \<in> set (q_queue q)" for e
    using inv that by (simp add: q_inv_def q_entries_ok_def)
  have has: "\<exists>r. dict_get (q_sessions q) k = Some r" if "dict_has (q_spots q) k" for k
    using sub [OF that] by (auto simp: dict_has_def)
  define holders where "holders = List.map_filter (\<lambda>k. dict_get (q_sessions q) k) (dict_keys (q_spots q))"
  have hk: "map (\<lambda>r. s_key (sess q r)) (List.map_filter (\<lambda>k. dict_get (q_sessions q) k) ks) = ks"
    if "\<forall>k \<in> set ks. dict_has (q_spots q) k" for ks
    using that
  proof (induction ks)
    case (Cons k ks)
    obtain r where "dict_get (q_sessions q) k = Some r" using has [of k] Cons.prems by auto
    then show ?case using Cons keys by (simp add: map_filter_simps)
  qed (simp add: map_filter_simps)
  have hkeys: "map (\<lambda>r. s_key (sess q r)) holders = dict_keys (q_spots q)"
    unfolding holders_def by (rule hk) (simp add: dict_has_iff)
  have "distinct (map (\<lambda>r. s_key (sess q r)) holders)" using D(2) by (simp add: hkeys dict_ok_def)
  then have hdist: "distinct holders" by (simp add: distinct_map)
  have hlen: "length holders = length (q_spots q)" using arg_cong [OF hkeys, of length] by simp
  have hset: "set holders = {r. tracked q r \<and> s_spot_held (sess q r)}"
  proof (intro set_eqI iffI)
    fix r
    assume "r \<in> set holders"
    then obtain k where "dict_get (q_sessions q) k = Some r" "dict_has (q_spots q) k"
      unfolding holders_def set_map_filter dict_has_iff by blast
    then show "r \<in> {r. tracked q r \<and> s_spot_held (sess q r)}"
      using keys [of k r] held [of k r] by (simp add: tracked_def)
  next
    fix r
    assume "r \<in> {r. tracked q r \<and> s_spot_held (sess q r)}"
    then have "dict_get (q_sessions q) (s_key (sess q r)) = Some r" "dict_has (q_spots q) (s_key (sess q r))"
      using held [of "s_key (sess q r)" r] by (simp_all add: tracked_def)
    then show "r \<in> set holders" unfolding holders_def set_map_filter dict_has_iff by blast
  qed
  obtain ws where w: "fold (\<lambda>k acc. case dict_get (q_sessions q) k of None \<Rightarrow> acc | Some r \<Rightarrow> push_new r acc)
      (dict_keys (first_pos q)) holders = holders @ ws"
    "set (holders @ ws) = set holders \<union> {r. \<exists>k \<in> set (dict_keys (first_pos q)). dict_get (q_sessions q) k = Some r}"
    "distinct (holders @ ws)" using fold_push hdist by metis
  have fold3: "snapshot_order q = fold (\<lambda>kr acc. case (if shares_spot q (snd kr) then Some (snd kr) else None) of
      None \<Rightarrow> acc | Some r \<Rightarrow> push_new r acc) (q_sessions q) (holders @ ws)"
    unfolding snapshot_order_def Let_def holders_def [symmetric] w(1) snapshot_sharers
    by (simp add: split_beta')
  obtain ys where y: "snapshot_order q = (holders @ ws) @ ys"
    "set ((holders @ ws) @ ys) = set (holders @ ws) \<union>
      {r. \<exists>kr \<in> set (q_sessions q). (if shares_spot q (snd kr) then Some (snd kr) else None) = Some r}"
    "distinct ((holders @ ws) @ ys)" using fold_push [of "\<lambda>kr. if shares_spot q (snd kr) then Some (snd kr) else None"
      "q_sessions q" "holders @ ws"] w(3) fold3 by metis
  have waiters: "{r. \<exists>k \<in> set (dict_keys (first_pos q)). dict_get (q_sessions q) k = Some r} =
      {r. tracked q r \<and> 0 < s_waiting (sess q r)}"
  proof (intro set_eqI iffI)
    fix r
    assume "r \<in> {r. \<exists>k \<in> set (dict_keys (first_pos q)). dict_get (q_sessions q) k = Some r}"
    then obtain k where k: "dict_get (q_sessions q) k = Some r" "dict_has (first_pos q) k"
      unfolding dict_has_iff by blast
    then obtain e where e: "e \<in> set (q_queue q)" "s_key (sess q (e_session (ent q e))) = k"
      unfolding first_pos_has by blast
    have "tracked q r" using keys [OF k(1)] k(1) by (simp add: tracked_def)
    moreover have "e_session (ent q e) = r" using etr [OF e(1)] k e(2) by (simp add: tracked_def)
    ultimately show "r \<in> {r. tracked q r \<and> 0 < s_waiting (sess q r)}" using wait e(1) by blast
  next
    fix r
    assume "r \<in> {r. tracked q r \<and> 0 < s_waiting (sess q r)}"
    then obtain e where e: "tracked q r" "e \<in> set (q_queue q)" "e_session (ent q e) = r" using wait by blast
    then have "dict_has (first_pos q) (s_key (sess q r))" using first_pos_has by blast
    then show "r \<in> {r. \<exists>k \<in> set (dict_keys (first_pos q)). dict_get (q_sessions q) k = Some r}"
      using e(1) unfolding tracked_def dict_has_iff by blast
  qed
  have sharers: "{r. \<exists>kr \<in> set (q_sessions q). (if shares_spot q (snd kr) then Some (snd kr) else None) = Some r} =
      {r. tracked q r \<and> shares_spot q r}"
  proof (intro set_eqI iffI)
    fix r
    assume "r \<in> {r. \<exists>kr \<in> set (q_sessions q). (if shares_spot q (snd kr) then Some (snd kr) else None) = Some r}"
    then obtain k where "(k, r) \<in> set (q_sessions q)" "shares_spot q r" by (auto split: if_splits)
    then show "r \<in> {r. tracked q r \<and> shares_spot q r}"
      using keys [of k r] dict_ok_get [OF D(1), of k r] by (simp add: tracked_def)
  next
    fix r
    assume "r \<in> {r. tracked q r \<and> shares_spot q r}"
    then have "(s_key (sess q r), r) \<in> set (q_sessions q)" "shares_spot q r"
      using dict_ok_get [OF D(1)] by (simp_all add: tracked_def)
    then show "r \<in> {r. \<exists>kr \<in> set (q_sessions q). (if shares_spot q (snd kr) then Some (snd kr) else None) = Some r}"
      by force
  qed
  have "set (snapshot_order q) =
      {r. tracked q r \<and> (s_spot_held (sess q r) \<or> 0 < s_waiting (sess q r) \<or> shares_spot q r)}"
    unfolding y(1) y(2) w(2) hset waiters sharers by blast
  moreover have "take (length (q_spots q)) (snapshot_order q) = holders" by (simp add: y(1) hlen)
  moreover have "map r_position (snapshot q now) = [1..<Suc (length (snapshot_order q))]"
    by (simp add: snapshot_def snapshot_row_of_def Let_def comp_def split_beta enumerate_eq_zip)
  ultimately show ?thesis using y(1,3) hkeys by simp
qed

lemma sum_card_fibres:
  assumes "finite A" "finite B" "f ` A \<subseteq> B"
  shows "(\<Sum>y \<in> B. card {x \<in> A. f x = y}) = card A"
  using sum.group [OF assms, of "\<lambda>_. 1 :: nat"] by simp

lemma map_enumerate_snd: "(\<And>i x. f (g i x) = h x) \<Longrightarrow> map f (map (\<lambda>(i, x). g i x) (List.enumerate n xs)) = map h xs"
  by (induction xs arbitrary: n) simp_all

lemma snapshot_session:
  "map r_spot (snapshot q now) = map (\<lambda>r. r_spot (snapshot_row_of q now 0 r)) (snapshot_order q)"
  "map r_waiting (snapshot q now) = map (\<lambda>r. s_waiting (sess q r)) (snapshot_order q)"
  unfolding snapshot_def by (rule map_enumerate_snd, simp add: snapshot_row_of_def Let_def)+

text \<open>The rows that hold a spot are as many as the spots, and the waiting requests of
  all rows are the queue.\<close>

lemma snapshot_held_rows:
  assumes inv: "q_inv R W q"
  shows "length (filter (\<lambda>row. r_spot row = ''held'') (snapshot q now)) = length (q_spots q)"
proof -
  let ?n = "length (q_spots q)" and ?k = "\<lambda>r. s_key (sess q r)"
  let ?held = "\<lambda>r. dict_has (q_spots q) (?k r)"
  note act = snapshot_order_active [OF inv, of now]
  have first: "map ?k (take ?n (snapshot_order q)) = dict_keys (q_spots q)" using act by simp
  have split: "filter ?held (snapshot_order q) =
      filter ?held (take ?n (snapshot_order q)) @ filter ?held (drop ?n (snapshot_order q))"
    by (metis append_take_drop_id filter_append)
  have "?held r" if "r \<in> set (take ?n (snapshot_order q))" for r
  proof -
    have "?k r \<in> set (map ?k (take ?n (snapshot_order q)))" using that by simp
    then show ?thesis unfolding first dict_has_iff .
  qed
  then have 1: "filter ?held (take ?n (snapshot_order q)) = take ?n (snapshot_order q)" by simp
  have "\<not> ?held r" if r: "r \<in> set (drop ?n (snapshot_order q))" for r
  proof
    assume "?held r"
    then have "?k r \<in> set (map ?k (take ?n (snapshot_order q)))" unfolding first dict_has_iff .
    then obtain r' where r': "r' \<in> set (take ?n (snapshot_order q))" "?k r' = ?k r" by auto
    moreover have "tracked q r" "tracked q r'"
      using act r r'(1) by (auto dest!: in_set_dropD in_set_takeD)
    ultimately have "r' = r" by (simp add: tracked_def)
    then show False using r'(1) r act set_take_disj_set_drop_if_distinct [of "snapshot_order q" ?n ?n] by blast
  qed
  then have 2: "filter ?held (drop ?n (snapshot_order q)) = []" by (simp add: filter_empty_conv)
  have "length (filter (\<lambda>row. r_spot row = ''held'') (snapshot q now)) =
      length (filter (\<lambda>x. x = ''held'') (map r_spot (snapshot q now)))" by (simp add: filter_map comp_def)
  also have "\<dots> = length (filter ?held (snapshot_order q))"
    unfolding snapshot_session filter_map length_map
    by (rule arg_cong [where f = length], rule filter_cong)
       (simp_all add: snapshot_row_of_def Let_def split: option.split)
  also have "\<dots> = length (take ?n (snapshot_order q))" by (simp only: split 1 2 append_Nil2)
  also have "\<dots> = ?n" using arg_cong [OF first, of length] by simp
  finally show ?thesis .
qed

lemma snapshot_waiting_total:
  assumes inv: "q_inv R W q"
  shows "sum_list (map r_waiting (snapshot q now)) = int (length (q_queue q))"
proof -
  note act = snapshot_order_active [OF inv, of now]
  let ?E = "set (q_queue q)" and ?s = "\<lambda>e. e_session (ent q e)"
  have q: "distinct (q_queue q)" and tr: "\<And>e. e \<in> ?E \<Longrightarrow> tracked q (?s e)"
    and w: "\<And>r. tracked q r \<Longrightarrow> s_waiting (sess q r) = int (of_session q ?E r)"
    using inv by (simp_all add: q_inv_def q_entries_ok_def q_counts_def)
  have sub: "?s ` ?E \<subseteq> set (snapshot_order q)"
  proof
    fix r
    assume "r \<in> ?s ` ?E"
    then obtain e where e: "e \<in> ?E" "r = ?s e" by blast
    then have "0 < s_waiting (sess q r)" using w [OF tr] of_session_pos [of ?E e q] by simp
    then show "r \<in> set (snapshot_order q)" using act tr e by simp
  qed
  have "sum_list (map r_waiting (snapshot q now)) = (\<Sum>r \<in> set (snapshot_order q). s_waiting (sess q r))"
    unfolding snapshot_session using act by (simp add: sum_list_distinct_conv_sum_set)
  also have "\<dots> = (\<Sum>r \<in> set (snapshot_order q). int (card {e \<in> ?E. ?s e = r}))"
    using act w by (intro sum.cong) (auto simp: of_session_def)
  also have "\<dots> = int (card ?E)"
    using sum_card_fibres [OF _ _ sub] by (simp flip: of_nat_sum)
  finally show ?thesis using q by (simp add: distinct_card)
qed



section \<open>Requests that bypass the queue\<close>

record unknown_entry =
  u_ip :: string
  u_ua :: string
  u_method :: string
  u_path :: string
  u_target_url :: string
  u_first_at :: time
  u_last_at :: time
  u_count :: nat

type_synonym tracker = "(string \<times> string, unknown_entry) dict"

text \<open>\<open>user_agent or "-"\<close>\<close>

definition ua_or_dash :: "string \<Rightarrow> string" where
  "ua_or_dash ua = (if ua = [] then ''-'' else ua)"

definition tracker_record ::
    "string \<Rightarrow> string \<Rightarrow> string \<Rightarrow> string \<Rightarrow> string \<Rightarrow> time \<Rightarrow> tracker \<Rightarrow> tracker" where
  "tracker_record ip user_agent method path target_url now d =
     (let key = (ip, ua_or_dash user_agent) in
      case dict_get d key of
        None \<Rightarrow> dict_put key
          \<lparr>u_ip = ip, u_ua = ua_or_dash user_agent, u_method = method, u_path = path,
           u_target_url = target_url, u_first_at = now, u_last_at = now, u_count = 1\<rparr> d
      | Some e \<Rightarrow> dict_put key
          (e\<lparr>u_method := method, u_path := path, u_target_url := target_url, u_last_at := now,
             u_count := u_count e + 1\<rparr>) d)"

definition tracker_prune :: "time \<Rightarrow> time \<Rightarrow> tracker \<Rightarrow> tracker" where
  "tracker_prune now expiry d = filter (\<lambda>(k, e). \<not> expiry \<le> now - u_last_at e) d"

record unknown_row =
  ur_id :: string
  ur_method :: string
  ur_target_url :: string
  ur_requests :: nat
  ur_last_activity :: time

definition unknown_row_of :: "time \<Rightarrow> unknown_entry \<Rightarrow> unknown_row" where
  "unknown_row_of now e =
     \<lparr>ur_id = u_ip e @ '' ('' @ u_ua e @ '')'', ur_method = u_method e,
      ur_target_url = u_target_url e, ur_requests = u_count e,
      ur_last_activity = round1 (now - u_last_at e)\<rparr>"

definition tracker_snapshot :: "time \<Rightarrow> tracker \<Rightarrow> unknown_row list" where
  "tracker_snapshot now d = sort_key ur_last_activity (map (unknown_row_of now \<circ> snd) d)"

text \<open>A request seen by the tracker, and a batch of them.\<close>

record seen =
  n_ip :: string
  n_ua :: string
  n_method :: string
  n_path :: string
  n_target :: string
  n_at :: time

definition tracker_see :: "seen \<Rightarrow> tracker \<Rightarrow> tracker" where
  "tracker_see x d = tracker_record (n_ip x) (n_ua x) (n_method x) (n_path x) (n_target x) (n_at x) d"

definition seen_key :: "seen \<Rightarrow> string \<times> string" where
  "seen_key x = (n_ip x, ua_or_dash (n_ua x))"

lemma tracker_see_get:
  "dict_get (tracker_see x d) k =
     (if k = seen_key x then
        Some (case dict_get d k of
            None \<Rightarrow> \<lparr>u_ip = fst k, u_ua = snd k, u_method = n_method x, u_path = n_path x,
              u_target_url = n_target x, u_first_at = n_at x, u_last_at = n_at x, u_count = 1\<rparr>
          | Some e \<Rightarrow> e\<lparr>u_method := n_method x, u_path := n_path x, u_target_url := n_target x,
              u_last_at := n_at x, u_count := u_count e + 1\<rparr>)
      else dict_get d k)"
  by (auto simp: tracker_see_def tracker_record_def seen_key_def Let_def split: option.splits)

lemma tracker_see_ok: "dict_ok d \<Longrightarrow> dict_ok (tracker_see x d)"
  by (simp add: tracker_see_def tracker_record_def Let_def split: option.split)

lemma fold_see_ok: "dict_ok d \<Longrightarrow> dict_ok (fold tracker_see xs d)"
  by (induction xs arbitrary: d) (simp_all add: tracker_see_ok)

text \<open>What the tracker holds of a client after a batch of requests.\<close>

lemma tracker_entry:
  "case filter (\<lambda>x. seen_key x = k) xs of
     [] \<Rightarrow> dict_get (fold tracker_see xs []) k = None
   | y # ys \<Rightarrow> dict_get (fold tracker_see xs []) k =
       Some \<lparr>u_ip = fst k, u_ua = snd k, u_method = n_method (last (y # ys)),
         u_path = n_path (last (y # ys)), u_target_url = n_target (last (y # ys)),
         u_first_at = n_at y, u_last_at = n_at (last (y # ys)), u_count = length (y # ys)\<rparr>"
proof (induction xs rule: rev_induct)
  case (snoc x xs)
  then show ?case
    by (cases "filter (\<lambda>x. seen_key x = k) xs") (auto simp: tracker_see_get)
qed simp

text \<open>
  The tracker of unqueued traffic. After any batch of requests and a prune, the rows of
  the snapshot are exactly one per client (source address and user agent, a missing user
  agent counting as one) whose last request is younger than the expiry; a row counts all
  the client's requests and shows the latest; and the rows are sorted by last activity.
\<close>

theorem tracker_accounts_for_requests:
  "sorted (map ur_last_activity (tracker_snapshot now (tracker_prune now expiry (fold tracker_see xs [])))) \<and>
   set (tracker_snapshot now (tracker_prune now expiry (fold tracker_see xs []))) =
     {\<lparr>ur_id = fst k @ '' ('' @ snd k @ '')'', ur_method = n_method (last ys),
        ur_target_url = n_target (last ys), ur_requests = length ys,
        ur_last_activity = round1 (now - n_at (last ys))\<rparr> | k ys.
      ys = filter (\<lambda>x. seen_key x = k) xs \<and> ys \<noteq> [] \<and> now - n_at (last ys) < expiry} \<and>
   length (tracker_snapshot now (tracker_prune now expiry (fold tracker_see xs []))) =
     card {k. \<exists>ys. ys = filter (\<lambda>x. seen_key x = k) xs \<and> ys \<noteq> [] \<and> now - n_at (last ys) < expiry}"
proof (intro conjI)
  let ?d = "fold tracker_see xs []"
  let ?p = "tracker_prune now expiry ?d"
  have ok: "dict_ok ?d" by (rule fold_see_ok) simp
  define E where "E k ys = \<lparr>u_ip = fst k, u_ua = snd k, u_method = n_method (last ys),
      u_path = n_path (last ys), u_target_url = n_target (last ys),
      u_first_at = n_at (hd ys), u_last_at = n_at (last ys), u_count = length ys\<rparr>" for k :: "string \<times> string" and ys :: "seen list"
  have get: "(k, e) \<in> set ?d \<longleftrightarrow> (\<exists>ys. ys = filter (\<lambda>x. seen_key x = k) xs \<and> ys \<noteq> [] \<and> e = E k ys)" for k e
    using tracker_entry [where k = k and xs = xs] dict_ok_get [OF ok, of k e]
    by (cases "filter (\<lambda>x. seen_key x = k) xs") (auto simp: E_def)
  have p: "(k, e) \<in> set ?p \<longleftrightarrow>
      (\<exists>ys. ys = filter (\<lambda>x. seen_key x = k) xs \<and> ys \<noteq> [] \<and> now - n_at (last ys) < expiry \<and> e = E k ys)" for k e
    unfolding tracker_prune_def by (auto simp: get E_def)
  show "sorted (map ur_last_activity (tracker_snapshot now ?p))" by (simp add: tracker_snapshot_def)
  have "set (tracker_snapshot now ?p) = {unknown_row_of now e | k e. (k, e) \<in> set ?p}"
    by (force simp: tracker_snapshot_def)
  also have "\<dots> = {unknown_row_of now (E k ys) | k ys.
      ys = filter (\<lambda>x. seen_key x = k) xs \<and> ys \<noteq> [] \<and> now - n_at (last ys) < expiry}"
    unfolding p by blast
  finally show "set (tracker_snapshot now ?p) = {\<lparr>ur_id = fst k @ '' ('' @ snd k @ '')'',
        ur_method = n_method (last ys),
        ur_target_url = n_target (last ys), ur_requests = length ys,
        ur_last_activity = round1 (now - n_at (last ys))\<rparr> | k ys.
      ys = filter (\<lambda>x. seen_key x = k) xs \<and> ys \<noteq> [] \<and> now - n_at (last ys) < expiry}"
    by (simp add: unknown_row_of_def E_def)
  have "distinct (map fst ?p)"
    using ok by (simp add: dict_ok_def tracker_prune_def distinct_map_filter)
  then have "length ?p = card (fst ` set ?p)"
    using distinct_card [of "map fst ?p"] by simp
  moreover have "fst ` set ?p = {k. \<exists>e. (k, e) \<in> set ?p}" by force
  moreover have "length (tracker_snapshot now ?p) = length ?p" by (simp add: tracker_snapshot_def)
  ultimately show "length (tracker_snapshot now ?p) =
      card {k. \<exists>ys. ys = filter (\<lambda>x. seen_key x = k) xs \<and> ys \<noteq> [] \<and> now - n_at (last ys) < expiry}"
    by (simp add: p)
qed

end
