(* ===== verification/Relay_Power.thy ===== *)
theory Relay_Power
  imports Relay_Models
begin

text \<open>
  The power backends (relay/power): the interface a server is managed through, the shared
  BMC client with its retry loop, the Redfish backend and the scripted no-op backend, and
  the registry.

  The BMC is not part of the program. A world gives the answer to each management call
  by its number (any answers at all) and records the calls in order.
\<close>

section \<open>The interface\<close>

datatype power_state = PowerOn | PowerOff | PowerUnknown

text \<open>
  A backend is a set of operations on its own state; each may raise. The law a client of the
  interface relies on: in a sound environment no operation raises (an unreachable
  machine is False or UNKNOWN, not an exception), and soundness persists.
\<close>

record 'b power_ops =
  op_power_on :: "'b \<Rightarrow> bool res \<times> 'b"
  op_power_off :: "'b \<Rightarrow> bool res \<times> 'b"
  op_power_state :: "'b \<Rightarrow> power_state res \<times> 'b"

locale power_backend =
  fixes sound :: "'b \<Rightarrow> bool" and ops :: "'b power_ops"
  assumes on_total: "sound b \<Longrightarrow> \<exists>ok b'. op_power_on ops b = (Inr ok, b') \<and> sound b'"
    and off_total: "sound b \<Longrightarrow> \<exists>ok b'. op_power_off ops b = (Inr ok, b') \<and> sound b'"
    and state_total: "sound b \<Longrightarrow> \<exists>st b'. op_power_state ops b = (Inr st, b') \<and> sound b'"
begin

lemma no_exception:
  "sound b \<Longrightarrow> \<not> isl (fst (op_power_on ops b)) \<and> \<not> isl (fst (op_power_off ops b)) \<and>
     \<not> isl (fst (op_power_state ops b))"
  using on_total [of b] off_total [of b] state_total [of b] by auto

lemma sound_after:
  "sound b \<Longrightarrow> sound (snd (op_power_on ops b)) \<and> sound (snd (op_power_off ops b)) \<and>
     sound (snd (op_power_state ops b))"
  using on_total [of b] off_total [of b] state_total [of b] by auto

end

section \<open>The BMC client\<close>

datatype bmc_answer =
    BmcResponse int "pyval option"
  | BmcTransportError
  | BmcOtherError string

record bmc_call =
  bc_method :: string
  bc_url :: string
  bc_json :: "(string \<times> string) list option"

record bmc_world =
  bw_answer :: "nat \<Rightarrow> bmc_answer"
  bw_calls :: "bmc_call list"

definition bmc_send :: "bmc_call \<Rightarrow> bmc_world \<Rightarrow> bmc_answer \<times> bmc_world" where
  "bmc_send c w = (bw_answer w (length (bw_calls w)), w\<lparr>bw_calls := bw_calls w @ [c]\<rparr>)"

record bmc_client =
  bm_base_url :: string
  bm_auth :: "string \<times> string"
  bm_verify_ssl :: bool
  bm_timeout :: time
  bm_max_attempts :: int
  bm_retry_backoff :: time

definition is_slash :: "char \<Rightarrow> bool" where
  "is_slash c = (c = CHR ''/'')"

definition new_bmc_client :: "string \<Rightarrow> string \<Rightarrow> string \<Rightarrow> bool \<Rightarrow> time \<Rightarrow> int \<Rightarrow> time \<Rightarrow> bmc_client" where
  "new_bmc_client base_url user password verify_ssl timeout max_attempts retry_backoff =
     \<lparr>bm_base_url = rstrip_by is_slash base_url, bm_auth = (user, password),
      bm_verify_ssl = verify_ssl, bm_timeout = timeout, bm_max_attempts = max 1 max_attempts,
      bm_retry_backoff = retry_backoff\<rparr>"

text \<open>\<open>json_body\<close> is only sent with a POST.\<close>

definition bmc_call_of :: "bmc_client \<Rightarrow> string \<Rightarrow> string \<Rightarrow> (string \<times> string) list option \<Rightarrow> bmc_call" where
  "bmc_call_of c meth path json_body =
     \<lparr>bc_method = (if meth = ''POST'' then ''POST'' else ''GET''),
      bc_url = bm_base_url c @ ''/'' @ lstrip_by is_slash path,
      bc_json = (if meth = ''POST'' then json_body else None)\<rparr>"

text \<open>The attempts left are the fuel of \<open>for attempt in range(1, max_attempts + 1)\<close>.\<close>

fun request_loop :: "nat \<Rightarrow> bmc_call \<Rightarrow> bmc_world \<Rightarrow> (int \<times> pyval option) option res \<times> bmc_world" where
  "request_loop 0 call w = (Inr None, w)"
| "request_loop (Suc n) call w =
     (case bmc_send call w of
        (BmcResponse code body, w') \<Rightarrow> (Inr (Some (code, body)), w')
      | (BmcTransportError, w') \<Rightarrow> request_loop n call w'
      | (BmcOtherError x, w') \<Rightarrow> (Inl (OtherExn x), w'))"

definition bmc_request ::
    "bmc_client \<Rightarrow> string \<Rightarrow> string \<Rightarrow> (string \<times> string) list option \<Rightarrow> bmc_world \<Rightarrow>
     (int \<times> pyval option) option res \<times> bmc_world" where
  "bmc_request c meth path json_body w =
     request_loop (nat (bm_max_attempts c)) (bmc_call_of c meth path json_body) w"

section \<open>Redfish\<close>

record redfish_backend =
  rb_bmc :: bmc_client
  rb_system_path :: string
  rb_world :: bmc_world

definition new_redfish_backend :: "redfish_power_config \<Rightarrow> bmc_world \<Rightarrow> redfish_backend" where
  "new_redfish_backend config w =
     \<lparr>rb_bmc = new_bmc_client (str_or (rf_base_url config) (''https://'' @ rf_host config))
        (rf_user config) (rf_password config) (rf_verify_ssl config) 10 2 1,
      rb_system_path = rf_system_path config, rb_world = w\<rparr>"

definition parse_power_state :: "(int \<times> pyval option) option \<Rightarrow> power_state" where
  "parse_power_state response =
     (case response of
        None \<Rightarrow> PowerUnknown
      | Some (code, body) \<Rightarrow>
          if code \<noteq> 200 then PowerUnknown
          else case body of
            Some (PDict d) \<Rightarrow>
              (if map_of d ''PowerState'' = Some (PStr ''On'') then PowerOn
               else if map_of d ''PowerState'' = Some (PStr ''Off'') then PowerOff
               else PowerUnknown)
          | _ \<Rightarrow> PowerUnknown)"

definition read_power_state :: "redfish_backend \<Rightarrow> power_state res \<times> redfish_backend" where
  "read_power_state b =
     (case bmc_request (rb_bmc b) ''GET'' (rb_system_path b) None (rb_world b) of
        (Inl x, w) \<Rightarrow> (Inl x, b\<lparr>rb_world := w\<rparr>)
      | (Inr response, w) \<Rightarrow> (Inr (parse_power_state response), b\<lparr>rb_world := w\<rparr>))"

definition send_reset :: "string \<Rightarrow> redfish_backend \<Rightarrow> bool res \<times> redfish_backend" where
  "send_reset reset_type b =
     (case bmc_request (rb_bmc b) ''POST'' (rb_system_path b @ ''/Actions/ComputerSystem.Reset'')
             (Some [(''ResetType'', reset_type)]) (rb_world b) of
        (Inl x, w) \<Rightarrow> (Inl x, b\<lparr>rb_world := w\<rparr>)
      | (Inr None, w) \<Rightarrow> (Inr False, b\<lparr>rb_world := w\<rparr>)
      | (Inr (Some (code, body)), w) \<Rightarrow> (Inr (code \<in> {200, 202, 204}), b\<lparr>rb_world := w\<rparr>))"

definition graceful_off_reset_type :: string where
  "graceful_off_reset_type = ''GracefulShutdown''"

definition ipmi_power_on :: "redfish_backend \<Rightarrow> bool res \<times> redfish_backend" where
  "ipmi_power_on b = send_reset ''On'' b"

definition ipmi_power_off :: "redfish_backend \<Rightarrow> bool res \<times> redfish_backend" where
  "ipmi_power_off b = send_reset graceful_off_reset_type b"

definition ipmi_power_state :: "redfish_backend \<Rightarrow> power_state res \<times> redfish_backend" where
  "ipmi_power_state b = read_power_state b"

section \<open>No-op\<close>

record noop_backend =
  nb_state :: power_state
  nb_actions :: "string list"

definition new_noop_backend :: "noop_power_config option \<Rightarrow> noop_backend" where
  "new_noop_backend config =
     (let initial = (case config of Some c \<Rightarrow> np_initial_state c | None \<Rightarrow> ''on'') in
      \<lparr>nb_state = (if initial = ''on'' then PowerOn else PowerOff), nb_actions = []\<rparr>)"

definition noop_power_on :: "noop_backend \<Rightarrow> bool res \<times> noop_backend" where
  "noop_power_on b = (Inr True, b\<lparr>nb_actions := nb_actions b @ [''power_on''], nb_state := PowerOn\<rparr>)"

definition noop_power_off :: "noop_backend \<Rightarrow> bool res \<times> noop_backend" where
  "noop_power_off b = (Inr True, b\<lparr>nb_actions := nb_actions b @ [''power_off''], nb_state := PowerOff\<rparr>)"

definition noop_power_state :: "noop_backend \<Rightarrow> power_state res \<times> noop_backend" where
  "noop_power_state b = (Inr (nb_state b), b)"

definition noop_set_state :: "power_state \<Rightarrow> noop_backend \<Rightarrow> noop_backend" where
  "noop_set_state st b = b\<lparr>nb_state := st\<rparr>"

section \<open>The registry\<close>

datatype backend = RedfishBackend redfish_backend | NoopBackend noop_backend

definition create_power_backend :: "bmc_world \<Rightarrow> server_config \<Rightarrow> backend res" where
  "create_power_backend w server =
     (if vc_type server = ''redfish'' then
        (case vc_power server of
           RedfishPowerConfig c \<Rightarrow> Inr (RedfishBackend (new_redfish_backend c w))
         | _ \<Rightarrow> Inl (OtherExn ''AttributeError''))
      else if vc_type server = ''noop'' then
        (case vc_power server of
           NoopPowerConfig c \<Rightarrow> Inr (NoopBackend (new_noop_backend (Some c)))
         | _ \<Rightarrow> Inl (OtherExn ''AttributeError''))
      else Inl (ConfigError (''server '' @ py_repr (vc_name server) @
             '': no power backend available for type '' @ py_repr (vc_type server) @
             '' in this version (aws-ec2 lands in Phase 2)'')))"

text \<open>Dynamic dispatch on the backend.\<close>

definition lift_backend :: "('c \<Rightarrow> backend) \<Rightarrow> 'a res \<times> 'c \<Rightarrow> 'a res \<times> backend" where
  "lift_backend wrap x = (fst x, wrap (snd x))"

fun backend_on :: "backend \<Rightarrow> bool res \<times> backend" where
  "backend_on (RedfishBackend b) = lift_backend RedfishBackend (ipmi_power_on b)"
| "backend_on (NoopBackend b) = lift_backend NoopBackend (noop_power_on b)"

fun backend_off :: "backend \<Rightarrow> bool res \<times> backend" where
  "backend_off (RedfishBackend b) = lift_backend RedfishBackend (ipmi_power_off b)"
| "backend_off (NoopBackend b) = lift_backend NoopBackend (noop_power_off b)"

fun backend_state :: "backend \<Rightarrow> power_state res \<times> backend" where
  "backend_state (RedfishBackend b) = lift_backend RedfishBackend (ipmi_power_state b)"
| "backend_state (NoopBackend b) = lift_backend NoopBackend (noop_power_state b)"

definition backend_ops :: "backend power_ops" where
  "backend_ops = \<lparr>op_power_on = backend_on, op_power_off = backend_off, op_power_state = backend_state\<rparr>"

section \<open>The retry loop\<close>

text \<open>The answers to the next calls, as long as they are transport errors.\<close>

definition answer_at :: "bmc_world \<Rightarrow> nat \<Rightarrow> bmc_answer" where
  "answer_at w i = bw_answer w (length (bw_calls w) + i)"

lemma answer_at_sent [simp]:
  "answer_at (w\<lparr>bw_calls := bw_calls w @ [c]\<rparr>) i = answer_at w (Suc i)"
  by (simp add: answer_at_def)

definition answer_result :: "bmc_answer \<Rightarrow> (int \<times> pyval option) option res" where
  "answer_result a =
     (case a of BmcResponse code body \<Rightarrow> Inr (Some (code, body)) | BmcTransportError \<Rightarrow> Inr None
      | BmcOtherError x \<Rightarrow> Inl (OtherExn x))"

definition first_answer :: "bmc_world \<Rightarrow> nat \<Rightarrow> nat option" where
  "first_answer w n = List.find (\<lambda>i. answer_at w i \<noteq> BmcTransportError) [0..<n]"

lemma first_answer_Suc:
  "first_answer w (Suc n) =
     (if answer_at w 0 \<noteq> BmcTransportError then Some 0
      else map_option Suc (List.find (\<lambda>i. answer_at w (Suc i) \<noteq> BmcTransportError) [0..<n]))"
proof -
  have shift: "List.find P (map Suc xs) = map_option Suc (List.find (\<lambda>i. P (Suc i)) xs)" for P xs
    by (induction xs) auto
  have "[0..<Suc n] = 0 # map Suc [0..<n]" by (simp add: upt_conv_Cons map_Suc_upt del: upt_Suc)
  then show ?thesis by (simp add: first_answer_def shift del: upt_Suc)
qed

lemma request_loop_eq:
  "request_loop n call w =
     (case first_answer w n of
        None \<Rightarrow> (Inr None, w\<lparr>bw_calls := bw_calls w @ replicate n call\<rparr>)
      | Some i \<Rightarrow> (answer_result (answer_at w i), w\<lparr>bw_calls := bw_calls w @ replicate (Suc i) call\<rparr>))"
proof (induction n arbitrary: w)
  case 0
  then show ?case by (simp add: first_answer_def)
next
  case (Suc n)
  show ?case
  proof (cases "answer_at w 0")
    case BmcTransportError
    then have "request_loop (Suc n) call w = request_loop n call (w\<lparr>bw_calls := bw_calls w @ [call]\<rparr>)"
      by (simp add: bmc_send_def answer_at_def)
    then show ?thesis
      unfolding Suc.IH first_answer_Suc using BmcTransportError
      by (simp add: first_answer_def split: option.split)
  qed (simp_all add: bmc_send_def first_answer_Suc answer_result_def answer_at_def)
qed

text \<open>
  A management call and its retries. \<open>BmcClient.request\<close> sends the same call until an
  attempt is answered, at most \<open>max_attempts\<close> times: it returns the answer of the first
  attempt that is not a transport error, and None exactly when all attempts are transport
  errors. Only an exception of another kind escapes it.
\<close>

theorem bmc_request_retries:
  "bmc_request c meth path json w =
     (let n = nat (bm_max_attempts c); call = bmc_call_of c meth path json in
      case List.find (\<lambda>i. answer_at w i \<noteq> BmcTransportError) [0..<n] of
        None \<Rightarrow> (Inr None, w\<lparr>bw_calls := bw_calls w @ replicate n call\<rparr>)
      | Some i \<Rightarrow> (answer_result (answer_at w i), w\<lparr>bw_calls := bw_calls w @ replicate (Suc i) call\<rparr>))"
  unfolding bmc_request_def Let_def request_loop_eq first_answer_def by (rule refl)

section \<open>The backends keep the contract\<close>

definition redfish_sound :: "redfish_backend \<Rightarrow> bool" where
  "redfish_sound b \<longleftrightarrow> (\<forall>i x. bw_answer (rb_world b) i \<noteq> BmcOtherError x)"

lemma bmc_request_sound:
  assumes "\<forall>i x. bw_answer w i \<noteq> BmcOtherError x"
  shows "\<exists>r w'. bmc_request c meth path json w = (Inr r, w') \<and> bw_answer w' = bw_answer w"
proof -
  have "\<exists>r. answer_result (answer_at w i) = Inr r" for i
    using assms by (cases "answer_at w i") (auto simp: answer_result_def answer_at_def)
  then show ?thesis
    unfolding bmc_request_def request_loop_eq by (cases "first_answer w (nat (bm_max_attempts c))") auto
qed

definition redfish_ops :: "redfish_backend power_ops" where
  "redfish_ops = \<lparr>op_power_on = ipmi_power_on, op_power_off = ipmi_power_off, op_power_state = ipmi_power_state\<rparr>"

definition noop_ops :: "noop_backend power_ops" where
  "noop_ops = \<lparr>op_power_on = noop_power_on, op_power_off = noop_power_off, op_power_state = noop_power_state\<rparr>"

lemma send_reset_total: "redfish_sound b \<Longrightarrow> \<exists>ok b'. send_reset t b = (Inr ok, b') \<and> redfish_sound b'"
proof -
  assume "redfish_sound b"
  then obtain r w where "bmc_request (rb_bmc b) ''POST'' (rb_system_path b @ ''/Actions/ComputerSystem.Reset'')
      (Some [(''ResetType'', t)]) (rb_world b) = (Inr r, w)" "bw_answer w = bw_answer (rb_world b)"
    using bmc_request_sound unfolding redfish_sound_def by metis
  then show ?thesis using \<open>redfish_sound b\<close>
    by (cases r) (auto simp: send_reset_def redfish_sound_def)
qed

lemma read_power_state_total:
  "redfish_sound b \<Longrightarrow> \<exists>st b'. read_power_state b = (Inr st, b') \<and> redfish_sound b'"
proof -
  assume "redfish_sound b"
  then obtain r w where "bmc_request (rb_bmc b) ''GET'' (rb_system_path b) None (rb_world b) = (Inr r, w)"
    "bw_answer w = bw_answer (rb_world b)"
    using bmc_request_sound unfolding redfish_sound_def by metis
  then show ?thesis using \<open>redfish_sound b\<close> by (auto simp: read_power_state_def redfish_sound_def)
qed

interpretation redfish: power_backend redfish_sound redfish_ops
  by unfold_locales
     (simp_all add: redfish_ops_def ipmi_power_on_def ipmi_power_off_def ipmi_power_state_def
        send_reset_total read_power_state_total)

interpretation noop: power_backend "\<lambda>_. True" noop_ops
  by unfold_locales (auto simp: noop_ops_def noop_power_on_def noop_power_off_def noop_power_state_def)

fun backend_sound :: "backend \<Rightarrow> bool" where
  "backend_sound (RedfishBackend b) = redfish_sound b"
| "backend_sound (NoopBackend b) = True"

lemma lift_backend_Inr: "x = (Inr v, b') \<Longrightarrow> lift_backend wrap x = (Inr v, wrap b')"
  by (simp add: lift_backend_def)

interpretation backends: power_backend backend_sound backend_ops
proof
  fix b
  assume s: "backend_sound b"
  show "\<exists>ok b'. op_power_on backend_ops b = (Inr ok, b') \<and> backend_sound b'"
  proof (cases b)
    case (RedfishBackend x)
    then obtain ok x' where "op_power_on redfish_ops x = (Inr ok, x')" "redfish_sound x'"
      using redfish.on_total [of x] s by auto
    then show ?thesis using RedfishBackend by (simp add: backend_ops_def redfish_ops_def lift_backend_def)
  next
    case (NoopBackend x)
    then show ?thesis
      by (auto simp: backend_ops_def noop_power_on_def lift_backend_def)
  qed
  show "\<exists>ok b'. op_power_off backend_ops b = (Inr ok, b') \<and> backend_sound b'"
  proof (cases b)
    case (RedfishBackend x)
    then obtain ok x' where "op_power_off redfish_ops x = (Inr ok, x')" "redfish_sound x'"
      using redfish.off_total [of x] s by auto
    then show ?thesis using RedfishBackend by (simp add: backend_ops_def redfish_ops_def lift_backend_def)
  next
    case (NoopBackend x)
    then show ?thesis
      by (auto simp: backend_ops_def noop_power_off_def lift_backend_def)
  qed
  show "\<exists>st b'. op_power_state backend_ops b = (Inr st, b') \<and> backend_sound b'"
  proof (cases b)
    case (RedfishBackend x)
    then obtain st x' where "op_power_state redfish_ops x = (Inr st, x')" "redfish_sound x'"
      using redfish.state_total [of x] s by auto
    then show ?thesis using RedfishBackend by (simp add: backend_ops_def redfish_ops_def lift_backend_def)
  next
    case (NoopBackend x)
    then show ?thesis
      by (auto simp: backend_ops_def noop_power_state_def lift_backend_def)
  qed
qed

text \<open>
  A Redfish power-off is a graceful shutdown request and nothing else: it POSTs
  \<open>GracefulShutdown\<close> to the system's reset action, one to two identical calls, the second only
  when the first was a transport error, and it reports success exactly when the last
  call was answered with 200, 202 or 204. Reading the power state only ever GETs, and
  answers ON or OFF only for a 200 answer that says so.
\<close>

theorem redfish_off_is_graceful:
  fixes config w
  defines "b \<equiv> new_redfish_backend config w"
  shows "(\<exists>m. m \<in> {1, 2} \<and>
      bw_calls (rb_world (snd (ipmi_power_off b))) = bw_calls w @ replicate m
        \<lparr>bc_method = ''POST'',
         bc_url = rstrip_by is_slash (str_or (rf_base_url config) (''https://'' @ rf_host config)) @ ''/'' @
           lstrip_by is_slash (rf_system_path config @ ''/Actions/ComputerSystem.Reset''),
         bc_json = Some [(''ResetType'', ''GracefulShutdown'')]\<rparr> \<and>
      (m = 2) = (answer_at w 0 = BmcTransportError) \<and>
      (fst (ipmi_power_off b) = Inr True) =
        (\<exists>code body. answer_at w (m - 1) = BmcResponse code body \<and> code \<in> {200, 202, 204})) \<and>
    (\<exists>m call. bw_calls (rb_world (snd (ipmi_power_state b))) = bw_calls w @ replicate m call \<and>
      bc_method call = ''GET'' \<and>
      (fst (ipmi_power_state b) = Inr PowerOn) =
        (\<exists>d. answer_at w (m - 1) = BmcResponse 200 (Some (PDict d)) \<and> map_of d ''PowerState'' = Some (PStr ''On'')))"
proof
  let ?c = "rb_bmc b"
  have max: "nat (bm_max_attempts ?c) = Suc (Suc 0)"
    by (simp add: b_def new_redfish_backend_def new_bmc_client_def)
  have fa: "first_answer w (Suc (Suc 0)) = (if answer_at w 0 \<noteq> BmcTransportError then Some 0
      else if answer_at w 1 \<noteq> BmcTransportError then Some 1 else None)"
    by (simp add: first_answer_Suc)
  define call where "call = bmc_call_of ?c ''POST'' (rf_system_path config @ ''/Actions/ComputerSystem.Reset'')
      (Some [(''ResetType'', ''GracefulShutdown'')])"
  have off: "ipmi_power_off b = (case request_loop (Suc (Suc 0)) call w of
      (Inl x, w) \<Rightarrow> (Inl x, b\<lparr>rb_world := w\<rparr>) | (Inr None, w) \<Rightarrow> (Inr False, b\<lparr>rb_world := w\<rparr>)
    | (Inr (Some (code, body)), w) \<Rightarrow> (Inr (code \<in> {200, 202, 204}), b\<lparr>rb_world := w\<rparr>))"
    unfolding ipmi_power_off_def send_reset_def bmc_request_def max call_def graceful_off_reset_type_def
    by (simp add: b_def new_redfish_backend_def)
  have call_eq: "call = \<lparr>bc_method = ''POST'',
      bc_url = rstrip_by is_slash (str_or (rf_base_url config) (''https://'' @ rf_host config)) @ ''/'' @
        lstrip_by is_slash (rf_system_path config @ ''/Actions/ComputerSystem.Reset''),
      bc_json = Some [(''ResetType'', ''GracefulShutdown'')]\<rparr>"
    by (simp add: call_def bmc_call_of_def b_def new_redfish_backend_def new_bmc_client_def)
  show "\<exists>m. m \<in> {1, 2} \<and>
      bw_calls (rb_world (snd (ipmi_power_off b))) = bw_calls w @ replicate m
        \<lparr>bc_method = ''POST'',
         bc_url = rstrip_by is_slash (str_or (rf_base_url config) (''https://'' @ rf_host config)) @ ''/'' @
           lstrip_by is_slash (rf_system_path config @ ''/Actions/ComputerSystem.Reset''),
         bc_json = Some [(''ResetType'', ''GracefulShutdown'')]\<rparr> \<and>
      (m = 2) = (answer_at w 0 = BmcTransportError) \<and>
      (fst (ipmi_power_off b) = Inr True) =
        (\<exists>code body. answer_at w (m - 1) = BmcResponse code body \<and> code \<in> {200, 202, 204})"
    unfolding call_eq [symmetric] off request_loop_eq fa
    by (cases "answer_at w 0"; cases "answer_at w 1")
       (auto simp: answer_result_def numeral_2_eq_2 intro: exI [of _ "1 :: nat"] exI [of _ "2 :: nat"])
  show "\<exists>m call. bw_calls (rb_world (snd (ipmi_power_state b))) = bw_calls w @ replicate m call \<and>
      bc_method call = ''GET'' \<and>
      (fst (ipmi_power_state b) = Inr PowerOn) =
        (\<exists>d. answer_at w (m - 1) = BmcResponse 200 (Some (PDict d)) \<and> map_of d ''PowerState'' = Some (PStr ''On''))"
  proof -
    define get where "get = bmc_call_of ?c ''GET'' (rf_system_path config) None"
    have st: "ipmi_power_state b = (case request_loop (Suc (Suc 0)) get w of
        (Inl x, w) \<Rightarrow> (Inl x, b\<lparr>rb_world := w\<rparr>)
      | (Inr response, w) \<Rightarrow> (Inr (parse_power_state response), b\<lparr>rb_world := w\<rparr>))"
      unfolding ipmi_power_state_def read_power_state_def bmc_request_def max get_def
      by (simp add: b_def new_redfish_backend_def)
    have on: "parse_power_state r = PowerOn \<longleftrightarrow>
        (\<exists>d. r = Some (200, Some (PDict d)) \<and> map_of d ''PowerState'' = Some (PStr ''On''))" for r
      by (auto simp: parse_power_state_def split: option.splits pyval.splits if_splits)
    have call: "bc_method get = ''GET''" by (simp add: get_def bmc_call_of_def)
    define m where "m = (if answer_at w 0 = BmcTransportError then 2 else 1 :: nat)"
    have "bw_calls (rb_world (snd (ipmi_power_state b))) = bw_calls w @ replicate m get"
      unfolding st request_loop_eq fa m_def
      by (cases "answer_at w 0"; cases "answer_at w 1") (auto simp: answer_result_def numeral_2_eq_2)
    moreover have "(fst (ipmi_power_state b) = Inr PowerOn) =
        (\<exists>d. answer_at w (m - 1) = BmcResponse 200 (Some (PDict d)) \<and> map_of d ''PowerState'' = Some (PStr ''On''))"
      unfolding st request_loop_eq fa m_def
      by (cases "answer_at w 0"; cases "answer_at w 1") (auto simp: answer_result_def on)
    ultimately show ?thesis using call by blast
  qed
qed

text \<open>
  C30: The backend the registry builds never raises. For any configured server the registry
  knows, and answers of the management controller that are responses or transport errors,
  every operation of the backend returns; the no-op backend always succeeds, and its
  state follows the last action.
\<close>

theorem created_backend_never_raises:
  assumes "create_power_backend w server = Inr b" and "\<forall>i x. bw_answer w i \<noteq> BmcOtherError x"
  shows "\<not> isl (fst (backend_on b)) \<and> \<not> isl (fst (backend_off b)) \<and> \<not> isl (fst (backend_state b)) \<and>
    (vc_type server = ''noop'' \<longrightarrow>
      fst (backend_on b) = Inr True \<and> fst (backend_state (snd (backend_on b))) = Inr PowerOn \<and>
      fst (backend_off b) = Inr True \<and> fst (backend_state (snd (backend_off b))) = Inr PowerOff)"
proof -
  have "backend_sound b"
    using assms by (auto simp: create_power_backend_def redfish_sound_def new_redfish_backend_def
        split: if_splits power_config.splits)
  then show ?thesis
    using backends.no_exception [of b] assms(1)
    by (auto simp: backend_ops_def create_power_backend_def noop_power_on_def noop_power_off_def
        noop_power_state_def lift_backend_def split: if_splits power_config.splits)
qed

lemma created_backend_never_raises_witness:
  "\<not> isl (fst (backend_off (RedfishBackend (new_redfish_backend
     \<lparr>rf_host = ''bmc'', rf_user = ''u'', rf_password = ''p'', rf_base_url = None,
      rf_system_path = ''/redfish/v1/Systems/Self'', rf_verify_ssl = False\<rparr>
     \<lparr>bw_answer = (\<lambda>_. BmcTransportError), bw_calls = []\<rparr>))))"
  using created_backend_never_raises [of "\<lparr>bw_answer = (\<lambda>_. BmcTransportError), bw_calls = []\<rparr>"
      "default_server_config ''gpu'' ''redfish'' (RedfishPowerConfig
         \<lparr>rf_host = ''bmc'', rf_user = ''u'', rf_password = ''p'', rf_base_url = None,
          rf_system_path = ''/redfish/v1/Systems/Self'', rf_verify_ssl = False\<rparr>) ''http://gpu''"]
  by (simp add: create_power_backend_def default_server_config_def)

end
