(* ===== verification/Relay_Servers.thy ===== *)
theory Relay_Servers
  imports Relay_Power Relay_Store
begin

text \<open>
  The runtime of one server (relay/servers.py): power state, ownership, the wake cooldown, the
  power-state poll, and the shutdown engine with its idle and scheduled halves.

  The runtime is an object of the event loop. A handler runs alone up to its next await;
  while it awaits the backend or the store, other tasks may change the server. A handler
  therefore takes \<open>env\<close>: \<open>env i\<close> is what the rest of the program does to the server
  during the handler's i-th await. \<open>still\<close> is the interference of nobody. A handler
  returns a value or the exception that escapes it, and the state it leaves behind either way.

  The server sees of its endpoints whether they are ready and whether they have activity
  (\<open>v_endpoints\<close>). \<open>v_log\<close> is a ghost: the power commands issued to the backend, each
  power-off with the ownership and the activity of the server at that instant. Identifiers
  drawn by \<open>uuid.uuid4\<close> and clock readings are arguments.
\<close>

record endpoint_view =
  ev_ready :: bool
  ev_activity :: bool

datatype power_command = CmdOn string time | CmdOff string bool bool

record 'b server =
  v_config :: server_config
  v_backend :: 'b
  v_store :: store
  v_power_on_cooldown :: time
  v_endpoints :: "endpoint_view list"
  v_power_state :: power_state
  v_transient :: "string option"
  v_powered_on_at :: "time option"
  v_powered_off_at :: "time option"
  v_owned :: bool
  v_shutdown_override :: "bool option"
  v_cycle_id :: "string option"
  v_last_fired_cron :: "time option"
  v_schedule_deferred :: bool
  v_last_activity :: time
  v_last_power_on_attempt :: time
  v_last_sync_at :: "time option"
  v_log :: "power_command list"

definition power_on_cooldown :: time where
  "power_on_cooldown = 30"

definition new_server :: "server_config \<Rightarrow> 'b \<Rightarrow> store \<Rightarrow> time \<Rightarrow> time \<Rightarrow> 'b server" where
  "new_server config b st cooldown now =
     \<lparr>v_config = config, v_backend = b, v_store = st, v_power_on_cooldown = cooldown,
      v_endpoints = [], v_power_state = PowerUnknown, v_transient = None,
      v_powered_on_at = None, v_powered_off_at = None, v_owned = False,
      v_shutdown_override = None, v_cycle_id = None, v_last_fired_cron = None,
      v_schedule_deferred = False, v_last_activity = now, v_last_power_on_attempt = 0,
      v_last_sync_at = None, v_log = []\<rparr>"

definition state_value :: "power_state \<Rightarrow> string" where
  "state_value p = (case p of PowerOn \<Rightarrow> ''on'' | PowerOff \<Rightarrow> ''off'' | PowerUnknown \<Rightarrow> ''unknown'')"

definition parse_state_value :: "string \<Rightarrow> power_state option" where
  "parse_state_value x =
     (if x = ''on'' then Some PowerOn else if x = ''off'' then Some PowerOff
      else if x = ''unknown'' then Some PowerUnknown else None)"

definition server_name :: "'b server \<Rightarrow> string" where
  "server_name s = vc_name (v_config s)"

definition display_state :: "'b server \<Rightarrow> string" where
  "display_state s = str_or (v_transient s) (state_value (v_power_state s))"

definition shutdown_enabled_now :: "'b server \<Rightarrow> bool" where
  "shutdown_enabled_now s =
     (case v_shutdown_override s of Some b \<Rightarrow> b | None \<Rightarrow> vc_shutdown_enabled (v_config s))"

definition server_has_activity :: "'b server \<Rightarrow> bool" where
  "server_has_activity s = list_ex ev_activity (v_endpoints s)"

section \<open>Handlers\<close>

type_synonym 'b interference = "nat \<Rightarrow> 'b server \<Rightarrow> 'b server"
type_synonym ('b, 'a) handler = "'b server \<Rightarrow> 'a res \<times> 'b server"

definition still :: "'b interference" where
  "still i s = s"

definition later :: "nat \<Rightarrow> 'b interference \<Rightarrow> 'b interference" where
  "later k env = (\<lambda>i. env (i + k))"

definition await_backend ::
    "('b server \<Rightarrow> 'b server) \<Rightarrow> ('b \<Rightarrow> 'a res \<times> 'b) \<Rightarrow> ('b, 'a) handler" where
  "await_backend others f s = (let (r, b) = f (v_backend s) in (r, others (s\<lparr>v_backend := b\<rparr>)))"

definition await_store ::
    "('b server \<Rightarrow> 'b server) \<Rightarrow> (store \<Rightarrow> 'a res \<times> store) \<Rightarrow> ('b, 'a) handler" where
  "await_store others f s = (let (r, st) = f (v_store s) in (r, others (s\<lparr>v_store := st\<rparr>)))"

definition set_state :: "power_state \<Rightarrow> time \<Rightarrow> 'b server \<Rightarrow> 'b server" where
  "set_state st now s0 =
     (if st = v_power_state s0 then s0
      else let s = s0\<lparr>v_power_state := st, v_transient := None\<rparr> in
        if st = PowerOn then s\<lparr>v_powered_on_at := Some now\<rparr>
        else if st = PowerOff then s\<lparr>v_powered_off_at := Some now\<rparr> else s)"

definition restore_row :: "server_row \<Rightarrow> 'b server \<Rightarrow> 'b server" where
  "restore_row row s0 =
     (let s = s0\<lparr>v_owned := sr_owned row, v_shutdown_override := sr_shutdown_override row,
                 v_cycle_id := sr_cycle_id row\<rparr> in
      case sr_power_state row of
        None \<Rightarrow> s
      | Some p \<Rightarrow> (case parse_state_value p of None \<Rightarrow> s | Some st \<Rightarrow> s\<lparr>v_power_state := st\<rparr>))"

definition sync_state :: "'b power_ops \<Rightarrow> 'b interference \<Rightarrow> time \<Rightarrow> ('b, unit) handler" where
  "sync_state ops env now =
     hbind (await_backend (env 0) (op_power_state ops)) (\<lambda>st0 s0.
       let healthy = list_ex ev_ready (v_endpoints s0);
           st = (if healthy \<and> st0 \<noteq> PowerOn then PowerOn else st0);
           s = set_state st now s0
       in hbind (await_store (env 1) (set_server_runtime (server_name s)
              (no_values\<lparr>rv_power_state := Some (state_value st)\<rparr>) now)) (\<lambda>_.
          await_store (env 2)
            (log_power_event (server_name s) ''state_sync'' ''startup_sync'' ''startup'' True now)) s)"

section \<open>Power actions\<close>

definition transient_on :: string where "transient_on = ''powering_on''"
definition transient_off :: string where "transient_off = ''powering_off''"

definition server_power_on ::
    "'b power_ops \<Rightarrow> 'b interference \<Rightarrow> string \<Rightarrow> string \<Rightarrow> string \<Rightarrow> time \<Rightarrow> ('b, bool) handler" where
  "server_power_on ops env reason initiated_by uid now =
     hbind (hmod (\<lambda>s. s\<lparr>v_transient := Some transient_on, v_log := v_log s @ [CmdOn reason now]\<rparr>)) (\<lambda>_.
     hbind (await_backend (env 0) (op_power_on ops)) (\<lambda>ok.
     hbind
       (if ok then
          hbind (hmod (\<lambda>s. s\<lparr>v_owned := True, v_shutdown_override := None, v_cycle_id := Some uid\<rparr>)) (\<lambda>_ s.
            await_store (env 1) (set_server_runtime (server_name s)
              (no_values\<lparr>rv_owned := Some True, rv_shutdown_override := Some None,
                 rv_cycle_id := Some (v_cycle_id s)\<rparr>) now) s)
        else hmod (\<lambda>s. s\<lparr>v_transient := None\<rparr>)) (\<lambda>_.
     hbind (\<lambda>s. await_store (env 2)
       (log_power_event (server_name s) ''power_on'' reason initiated_by ok now) s) (\<lambda>_. hret ok))))"

definition maybe_power_on ::
    "'b power_ops \<Rightarrow> 'b interference \<Rightarrow> string \<Rightarrow> string \<Rightarrow> time \<Rightarrow> ('b, bool) handler" where
  "maybe_power_on ops env reason uid now s =
     (if now - v_last_power_on_attempt s \<le> v_power_on_cooldown s then (Inr False, s)
      else server_power_on ops env reason ''proxy'' uid now (s\<lparr>v_last_power_on_attempt := now\<rparr>))"

definition server_power_off ::
    "'b power_ops \<Rightarrow> 'b interference \<Rightarrow> string \<Rightarrow> string \<Rightarrow> time \<Rightarrow> ('b, bool) handler" where
  "server_power_off ops env reason initiated_by now =
     hbind (hmod (\<lambda>s. s\<lparr>v_transient := Some transient_off,
         v_log := v_log s @ [CmdOff reason (v_owned s) (server_has_activity s)]\<rparr>)) (\<lambda>_.
     hbind (await_backend (env 0) (op_power_off ops)) (\<lambda>ok.
     hbind
       (if ok then
          hbind (hmod (\<lambda>s. s\<lparr>v_owned := False\<rparr>)) (\<lambda>_ s.
            await_store (env 1)
              (set_server_runtime (server_name s) (no_values\<lparr>rv_owned := Some False\<rparr>) now) s)
        else hmod (\<lambda>s. s\<lparr>v_transient := None\<rparr>)) (\<lambda>_.
     hbind (\<lambda>s. await_store (env 2)
       (log_power_event (server_name s) ''power_off'' reason initiated_by ok now) s) (\<lambda>_. hret ok))))"

section \<open>Traffic, readiness and the override\<close>

definition on_routed_traffic :: "'b interference \<Rightarrow> string \<Rightarrow> time \<Rightarrow> ('b, unit) handler" where
  "on_routed_traffic env uid now s0 =
     (let s = s0\<lparr>v_last_activity := now\<rparr> in
      if vc_adopt_on_traffic (v_config s) \<and> \<not> v_owned s then
        (let s = s\<lparr>v_owned := True, v_cycle_id := (if v_cycle_id s = None then Some uid else v_cycle_id s)\<rparr>
         in hbind (await_store (env 0) (set_server_runtime (server_name s)
              (no_values\<lparr>rv_owned := Some True, rv_cycle_id := Some (v_cycle_id s)\<rparr>) now)) (\<lambda>_ s.
            await_store (env 1)
              (log_power_event (server_name s) ''external_change'' ''adopted'' ''proxy'' True now) s) s)
      else (Inr (), s))"

definition note_service_ready :: "'b interference \<Rightarrow> time \<Rightarrow> ('b, unit) handler" where
  "note_service_ready env now s0 =
     (if v_power_state s0 = PowerOn then (Inr (), s0)
      else let s = set_state PowerOn now s0 in
        hbind (await_store (env 0) (set_server_runtime (server_name s)
            (no_values\<lparr>rv_power_state := Some (state_value PowerOn)\<rparr>) now)) (\<lambda>_ s.
          await_store (env 1)
            (log_power_event (server_name s) ''state_sync'' ''service_ready'' ''proxy'' True now) s) s)"

definition set_shutdown_override :: "'b interference \<Rightarrow> bool \<Rightarrow> time \<Rightarrow> ('b, unit) handler" where
  "set_shutdown_override env enabled now s0 =
     (let s = s0\<lparr>v_shutdown_override := Some enabled\<rparr> in
      await_store (env 0) (set_server_runtime (server_name s)
        (no_values\<lparr>rv_shutdown_override := Some (Some enabled)\<rparr>) now) s)"

section \<open>Background loops\<close>

definition power_sync_tick :: "'b power_ops \<Rightarrow> 'b interference \<Rightarrow> time \<Rightarrow> ('b, unit) handler" where
  "power_sync_tick ops env now =
     hbind (await_backend (env 0) (op_power_state ops)) (\<lambda>st s0.
       let s = s0\<lparr>v_last_sync_at := Some now\<rparr> in
       if st = v_power_state s then (Inr (), s)
       else let (action, initiated_by) =
             (if v_transient s \<noteq> None then (''state_sync'', ''proxy'') else (''external_change'', ''external''));
           s = set_state st now s
         in hbind (await_store (env 1) (set_server_runtime (server_name s)
                (no_values\<lparr>rv_power_state := Some (state_value st)\<rparr>) now)) (\<lambda>_ s.
            await_store (env 2) (log_power_event (server_name s) action ''poll'' initiated_by True now) s) s)"

text \<open>One pass of a loop: an exception is logged and the loop goes on.\<close>

definition loop_pass :: "('b, 'a) handler \<Rightarrow> 'b server \<Rightarrow> 'b server" where
  "loop_pass h s = snd (h s)"

definition can_power_off :: "'b power_ops \<Rightarrow> 'b interference \<Rightarrow> ('b, bool) handler" where
  "can_power_off ops env s =
     (if \<not> v_owned s \<or> \<not> shutdown_enabled_now s then (Inr False, s)
      else hbind (await_backend (env 0) (op_power_state ops)) (\<lambda>actual. hret (actual = PowerOn)) s)"

text \<open>\<open>if await self._can_power_off(): await self.power_off(reason="schedule")\<close>\<close>

definition scheduled_off :: "'b power_ops \<Rightarrow> 'b interference \<Rightarrow> time \<Rightarrow> ('b, unit) handler" where
  "scheduled_off ops env now =
     hbind (can_power_off ops env) (\<lambda>can.
       if can then hbind (server_power_off ops (later 1 env) ''schedule'' ''proxy'' now) (\<lambda>_. hret ())
       else hret ())"

text \<open>The cron evaluator is a library: \<open>prev\<close> is \<open>last_fire_before\<close> of the server's
  schedule. \<open>now\<close> is the wall clock, \<open>clk\<close> the monotonic one.\<close>

definition schedule_off_tick ::
    "(string \<Rightarrow> time \<Rightarrow> time) \<Rightarrow> 'b power_ops \<Rightarrow> 'b interference \<Rightarrow> time \<Rightarrow> ('b, unit) handler" where
  "schedule_off_tick prev ops env now s =
     (case vc_schedule (v_config s) of
        None \<Rightarrow> (Inr (), s)
      | Some cron \<Rightarrow>
        if cron = [] then (Inr (), s)
        else case v_last_fired_cron s of
          None \<Rightarrow> (Inr (), s\<lparr>v_last_fired_cron := Some now\<rparr>)
        | Some last_fired \<Rightarrow>
          (let prev_fire = prev cron now in
           if prev_fire \<le> last_fired then
             (if v_schedule_deferred s \<and> \<not> server_has_activity s then
                hbind (scheduled_off ops env now) (\<lambda>_.
                  hmod (\<lambda>s. s\<lparr>v_schedule_deferred := False\<rparr>)) s
              else (Inr (), s))
           else if server_has_activity s then
             (Inr (), s\<lparr>v_schedule_deferred := True, v_last_fired_cron := Some prev_fire\<rparr>)
           else
             hbind (scheduled_off ops env now) (\<lambda>_.
               hmod (\<lambda>s. s\<lparr>v_last_fired_cron := Some prev_fire, v_schedule_deferred := False\<rparr>)) s))"

definition idle_off_tick :: "'b power_ops \<Rightarrow> 'b interference \<Rightarrow> time \<Rightarrow> ('b, unit) handler" where
  "idle_off_tick ops env now s =
     (if server_has_activity s then (Inr (), s\<lparr>v_last_activity := now\<rparr>)
      else if \<not> shutdown_enabled_now s then (Inr (), s)
      else if now - v_last_activity s \<le> vc_idle_timeout (v_config s) then (Inr (), s)
      else hbind (await_backend (env 0) (op_power_state ops)) (\<lambda>actual.
        if actual = PowerOn then
          hbind (\<lambda>s. if v_owned s
              then hbind (server_power_off ops (later 1 env) ''idle_timeout'' ''proxy'' now) (\<lambda>_. hret ()) s
              else (Inr (), s)) (\<lambda>_.
            hmod (\<lambda>s. s\<lparr>v_last_activity := now\<rparr>))
        else hret ()) s)"

definition shutdown_tick ::
    "(string \<Rightarrow> time \<Rightarrow> time) \<Rightarrow> 'b power_ops \<Rightarrow> 'b interference \<Rightarrow> time \<Rightarrow> time \<Rightarrow> ('b, unit) handler" where
  "shutdown_tick prev ops env now clk =
     hbind (schedule_off_tick prev ops env now) (\<lambda>_. idle_off_tick ops (later 4 env) clk)"

definition next_scheduled_off :: "(string \<Rightarrow> time \<Rightarrow> time res) \<Rightarrow> time \<Rightarrow> 'b server \<Rightarrow> time option" where
  "next_scheduled_off next_fire now s =
     (case vc_schedule (v_config s) of
        None \<Rightarrow> None
      | Some cron \<Rightarrow> if cron = [] then None else (case next_fire cron now of Inl _ \<Rightarrow> None | Inr t \<Rightarrow> Some t))"

end
