(* ===== verification/Relay_Endpoints.thy ===== *)
theory Relay_Endpoints
  imports Relay_Transport Relay_Queue_Views Relay_Servers
begin

text \<open>
  The runtime of one endpoint (relay/endpoints.py): readiness, the queue manager, and the
  admission of HTTP requests and WebSockets.

  A handler runs alone up to its next await. At an await the rest of the program acts, and the
  outside answers: \<open>surroundings\<close> holds both, by the number of awaits so far, which the
  ghost \<open>ep_awaits\<close> counts. So a clock reading is constant within a synchronous stretch, and
  \<open>w_env n\<close> is whatever other tasks do to the endpoint (its queue, its server, the shared store,
  pollers and tracker) during the n-th await. A loop that waits is a recursion over the answers
  it polls; None says that it still waits after the last one.
\<close>

section \<open>State and surroundings\<close>

record 'b endpoint =
  ep_config :: endpoint_config
  ep_server :: "'b server"
  ep_queue :: equeue
  ep_pollers :: "(string, status_poller) dict"
  ep_providers :: "client_provider list"
  ep_generic_headers :: "string list"
  ep_tracker :: tracker
  ep_read_timeout :: int
  ep_ready_since :: "time option"
  ep_last_check_at :: "time option"
  ep_active_forwards :: int
  ep_last_manager_tick :: "time option"
  ep_awaits :: nat

definition new_endpoint ::
    "endpoint_config \<Rightarrow> 'b server \<Rightarrow> (string, status_poller) dict \<Rightarrow> client_provider list \<Rightarrow> string list \<Rightarrow>
     tracker \<Rightarrow> int \<Rightarrow> 'b endpoint" where
  "new_endpoint config srv pollers providers generic_headers tr read_timeout =
     \<lparr>ep_config = config, ep_server = srv,
      ep_queue = init_queue (ec_concurrency config) (sc_per_session_requests (ec_session config))
        (sc_busy_window (ec_session config)) (sc_expiry (ec_session config))
        (sc_request_mode (ec_session config) = ''atomic'')
        (sc_immediate_idle_release (ec_session config)),
      ep_pollers = pollers, ep_providers = providers, ep_generic_headers = generic_headers,
      ep_tracker = tr, ep_read_timeout = read_timeout, ep_ready_since = None,
      ep_last_check_at = None, ep_active_forwards = 0, ep_last_manager_tick = None, ep_awaits = 0\<rparr>"

record 'b surroundings =
  w_env :: "nat \<Rightarrow> 'b endpoint \<Rightarrow> 'b endpoint"
  w_server_env :: "nat \<Rightarrow> 'b interference"
  w_ops :: "'b power_ops"
  w_probe :: "nat \<Rightarrow> string \<times> string \<times> time \<Rightarrow> http_answer"
  w_ask :: "nat \<Rightarrow> http_get \<Rightarrow> http_answer"
  w_clock :: "nat \<Rightarrow> time"
  w_wall :: "nat \<Rightarrow> time"
  w_uid :: "nat \<Rightarrow> string"
  w_float_text :: "rat \<Rightarrow> string"
  w_loads :: "string \<Rightarrow> pyval option"

type_synonym ('b, 'a) task = "'b endpoint \<Rightarrow> 'a res \<times> 'b endpoint"

definition endpoint_name :: "'b endpoint \<Rightarrow> string" where
  "endpoint_name s = ec_name (ep_config s)"

definition endpoint_has_activity :: "'b endpoint \<Rightarrow> bool" where
  "endpoint_has_activity s = (has_activity (ep_queue s) \<or> 0 < ep_active_forwards s)"

definition clock :: "'b surroundings \<Rightarrow> 'b endpoint \<Rightarrow> time" where
  "clock W s = w_clock W (ep_awaits s)"

definition wall :: "'b surroundings \<Rightarrow> 'b endpoint \<Rightarrow> time" where
  "wall W s = w_wall W (ep_awaits s)"

definition pass :: "'b surroundings \<Rightarrow> 'b endpoint \<Rightarrow> 'b endpoint" where
  "pass W s = w_env W (ep_awaits s) (s\<lparr>ep_awaits := Suc (ep_awaits s)\<rparr>)"

definition pause :: "'b surroundings \<Rightarrow> ('b, unit) task" where
  "pause W s = (Inr (), pass W s)"

text \<open>An exchange with the outside: the answer to the question put at this await.\<close>

definition exchange :: "'b surroundings \<Rightarrow> (nat \<Rightarrow> 'a) \<Rightarrow> ('b, 'a) task" where
  "exchange W answer s = (Inr (answer (ep_awaits s)), pass W s)"

definition upd_queue :: "(equeue \<Rightarrow> equeue) \<Rightarrow> 'b endpoint \<Rightarrow> 'b endpoint" where
  "upd_queue f s = s\<lparr>ep_queue := f (ep_queue s)\<rparr>"

text \<open>A handler of the server, and an operation of the store, awaited by the endpoint.\<close>

definition on_server :: "'b surroundings \<Rightarrow> ('b interference \<Rightarrow> ('b, 'a) handler) \<Rightarrow> ('b, 'a) task" where
  "on_server W h s =
     (let (r, srv) = h (w_server_env W (ep_awaits s)) (ep_server s)
      in (r, pass W (s\<lparr>ep_server := srv\<rparr>)))"

definition on_store :: "'b surroundings \<Rightarrow> (store \<Rightarrow> 'a res \<times> store) \<Rightarrow> ('b, 'a) task" where
  "on_store W f s =
     (let (r, st) = f (v_store (ep_server s))
      in (r, pass W (s\<lparr>ep_server := (ep_server s)\<lparr>v_store := st\<rparr>\<rparr>)))"

section \<open>Readiness\<close>

definition healthy_answer :: "readiness_config \<Rightarrow> http_answer \<Rightarrow> bool" where
  "healthy_answer rc answer =
     (case answer of HttpFailed \<Rightarrow> False | HttpAnswer code _ \<Rightarrow> code \<in> set (rd_healthy_statuses rc))"

definition became_ready :: "'b surroundings \<Rightarrow> ('b, unit) task" where
  "became_ready W =
     hbind (hmod (\<lambda>s. s\<lparr>ep_ready_since := Some (wall W s)\<rparr>)) (\<lambda>_ s.
       on_server W (\<lambda>env. note_service_ready env (clock W s)) s)"

definition readiness_transition :: "'b surroundings \<Rightarrow> bool \<Rightarrow> ('b, unit) task" where
  "readiness_transition W ok =
     hbind (hmod (upd_queue (\<lambda>q. q\<lparr>q_ready := ok\<rparr>))) (\<lambda>_.
     hbind (if ok then became_ready W else hret ()) (\<lambda>_ s.
       on_store W (set_endpoint_runtime (endpoint_name s) ok (ep_ready_since s) (ep_last_check_at s)) s))"

definition check_readiness :: "'b surroundings \<Rightarrow> ('b, bool) task" where
  "check_readiness W s0 =
     (let rc = ec_readiness (ep_config s0);
          url = vc_service_url (v_config (ep_server s0)) @ rd_path rc
      in hbind (exchange W (\<lambda>n. healthy_answer rc (w_probe W n (rd_method rc, url, rd_timeout rc)))) (\<lambda>ok.
         hbind (hmod (\<lambda>s. s\<lparr>ep_last_check_at := Some (wall W s)\<rparr>)) (\<lambda>_ s.
           if ok = q_ready (ep_queue s) then (Inr ok, s)
           else hbind (readiness_transition W ok) (\<lambda>_. hret ok) s)) s0)"

text \<open>One turn of \<open>readiness_loop\<close>.\<close>

definition readiness_pass :: "'b surroundings \<Rightarrow> 'b endpoint \<Rightarrow> 'b endpoint" where
  "readiness_pass W s =
     (if q_queue (ep_queue s) \<noteq> [] then pass W s
      else snd (hbind (pause W) (\<lambda>_. check_readiness W) s))"

section \<open>Queue manager: client status polling\<close>

text \<open>\<open>bases\<close>: the sessions of known clients grouped by poller and client machine. A poller is
  named by its client.\<close>

definition group_session ::
    "'b endpoint \<Rightarrow> skey \<times> sref \<Rightarrow> (string \<times> string, sref list) dict \<Rightarrow> (string \<times> string, sref list) dict" where
  "group_session s kr groups =
     (let se = sess (ep_queue s) (snd kr) in
      if s_client se = unknown then groups
      else case dict_get (ep_pollers s) (s_client se) of
        None \<Rightarrow> groups
      | Some po \<Rightarrow>
          (let key = (s_client se, base_url po (s_client_ip se));
               old = (case dict_get groups key of None \<Rightarrow> [] | Some rs \<Rightarrow> rs)
           in dict_put key (old @ [snd kr]) groups))"

definition poll_groups :: "'b endpoint \<Rightarrow> (string \<times> string, sref list) dict" where
  "poll_groups s = fold (group_session s) (q_sessions (ep_queue s)) []"

definition poller_of :: "'b endpoint \<Rightarrow> string \<Rightarrow> status_poller" where
  "poller_of s client = the (dict_get (ep_pollers s) client)"

definition upd_poller :: "string \<Rightarrow> (status_poller \<Rightarrow> status_poller) \<Rightarrow> 'b endpoint \<Rightarrow> 'b endpoint" where
  "upd_poller client f s =
     s\<lparr>ep_pollers := dict_put client (f (poller_of s client)) (ep_pollers s)\<rparr>"

text \<open>The spot a session may share, from the queue's dictionaries and the poller's cache.\<close>

definition shared_spot_now :: "string \<Rightarrow> sref \<Rightarrow> string \<Rightarrow> 'b endpoint \<Rightarrow> skey option" where
  "shared_spot_now base r client s =
     (let q = ep_queue s; po = poller_of s client in
      if cp_children_kind (po_provider po) = ''parent-chain'' then
        resolve_shared_spot base (s_session_id (sess q r)) po
          (\<lambda>k. map_option (\<lambda>a. (s_key (sess q a), s_shared_spot_key (sess q a))) (dict_get (q_sessions q) k))
          (dict_has (q_spots q)) (s_client (sess q r)) (cp_children_depth (po_provider po))
      else None)"

definition add_to_dir :: "string \<Rightarrow> sref \<Rightarrow> (string, sref list) dict \<Rightarrow> (string, sref list) dict" where
  "add_to_dir d r by_dir =
     dict_put d ((case dict_get by_dir d of None \<Rightarrow> [] | Some rs \<Rightarrow> rs) @ [r]) by_dir"

text \<open>The directory of one session: cached, or looked up and cached; None skips the session.\<close>

definition session_directory :: "'b surroundings \<Rightarrow> string \<Rightarrow> string \<Rightarrow> sref \<Rightarrow> ('b, string option) task" where
  "session_directory W client base r s =
     (let sid = s_session_id (sess (ep_queue s) r); po = poller_of s client in
      case dict_get (po_session_dir po) (base, sid) of
        Some d \<Rightarrow> (Inr (Some d), s)
      | None \<Rightarrow>
          hbind (exchange W (\<lambda>n. fetch_session_info (w_ask W n) po base sid)) (\<lambda>info.
            case info of
              None \<Rightarrow> hret None
            | Some (d, parent) \<Rightarrow>
                hbind (hmod (upd_poller client (\<lambda>po.
                    po\<lparr>po_session_dir := dict_put (base, sid) d (po_session_dir po),
                       po_session_parent := dict_put (base, sid) parent (po_session_parent po)\<rparr>))) (\<lambda>_.
                hret (Some d))) s)"

fun resolve_dirs ::
    "'b surroundings \<Rightarrow> string \<Rightarrow> string \<Rightarrow> sref list \<Rightarrow> (string, sref list) dict \<Rightarrow>
     ('b, (string, sref list) dict) task" where
  "resolve_dirs W client base [] by_dir = hret by_dir"
| "resolve_dirs W client base (r # rs) by_dir =
     hbind (session_directory W client base r) (\<lambda>dir.
       case dir of
         None \<Rightarrow> resolve_dirs W client base rs by_dir
       | Some d \<Rightarrow>
           hbind (hmod (\<lambda>s. upd_queue
               (upd_sess r (\<lambda>se. se\<lparr>s_shared_spot_key := shared_spot_now base r client s\<rparr>)) s)) (\<lambda>_.
             resolve_dirs W client base rs (add_to_dir d r by_dir)))"

text \<open>What one poll says of a session. A pending request wins; without a status map nothing else
  is learnt; absent from a fresh map means idle; an unknown type changes nothing.\<close>

definition report_session ::
    "(rat \<Rightarrow> string) \<Rightarrow> (string, pyval) dict option \<Rightarrow> (string, string) dict option \<Rightarrow> time \<Rightarrow> session \<Rightarrow> session" where
  "report_session fl data pending reported se =
     (case (case pending of None \<Rightarrow> None | Some p \<Rightarrow> dict_get p (s_session_id se)) of
        Some reason \<Rightarrow>
          se\<lparr>s_client_status := Some ''waiting'', s_client_status_detail := reason,
             s_client_status_at := reported\<rparr>
      | None \<Rightarrow>
          (case data of
             None \<Rightarrow> se
           | Some d \<Rightarrow>
               (case dict_get d (s_session_id se) of
                  Some (PDict st) \<Rightarrow>
                    (case dict_get st ''type'' of
                       Some (PStr t) \<Rightarrow>
                         if t \<in> {''busy'', ''idle'', ''retry''} then
                           se\<lparr>s_client_status := Some t,
                              s_client_status_detail :=
                                (if t = ''retry'' then
                                   ''attempt '' @ str_val fl
                                     (case dict_get st ''attempt'' of None \<Rightarrow> PStr ''?'' | Some v \<Rightarrow> v)
                                 else []),
                              s_client_status_at := reported\<rparr>
                         else se
                     | _ \<Rightarrow> se)
                | _ \<Rightarrow>
                    se\<lparr>s_client_status := Some ''idle'',
                       s_client_status_detail := ''absent from status map (idle)'',
                       s_client_status_at := reported\<rparr>)))"

definition poll_dir :: "'b surroundings \<Rightarrow> string \<Rightarrow> string \<Rightarrow> string \<times> sref list \<Rightarrow> ('b, unit) task" where
  "poll_dir W client base dr =
     hbind (\<lambda>s. exchange W (\<lambda>n. fetch_statuses (w_ask W n) (poller_of s client) base (Some (fst dr))) s) (\<lambda>data.
     hbind (\<lambda>s. exchange W (\<lambda>n. fetch_pending (w_ask W n) (poller_of s client) base (Some (fst dr))) s) (\<lambda>pending.
       if data = None \<and> pending = None then hret ()
       else hmod (\<lambda>s. upd_queue
         (\<lambda>q. fold (\<lambda>r. upd_sess r (report_session (w_float_text W) data pending (clock W s))) (snd dr) q) s)))"

fun poll_dirs :: "'b surroundings \<Rightarrow> string \<Rightarrow> string \<Rightarrow> (string \<times> sref list) list \<Rightarrow> ('b, unit) task" where
  "poll_dirs W client base [] = hret ()"
| "poll_dirs W client base (dr # drs) = hbind (poll_dir W client base dr) (\<lambda>_. poll_dirs W client base drs)"

definition forget_gone :: "string \<Rightarrow> sref list \<Rightarrow> equeue \<Rightarrow> status_poller \<Rightarrow> status_poller" where
  "forget_gone base rs q po =
     (let live = (\<lambda>r. s_session_id (sess q r)) ` set rs
      in fold (\<lambda>k. forget (fst k) (snd k))
           (filter (\<lambda>k. fst k = base \<and> snd k \<notin> live) (dict_keys (po_session_dir po))) po)"

definition poll_group :: "'b surroundings \<Rightarrow> time \<Rightarrow> (string \<times> string) \<times> sref list \<Rightarrow> ('b, unit) task" where
  "poll_group W now grp s =
     (case grp of ((client, base), rs) \<Rightarrow>
      if \<not> due (poller_of s client) base now then (Inr (), s)
      else
        hbind (hmod (\<lambda>s. upd_poller client
            (\<lambda>po. po\<lparr>po_last_poll := dict_put base (clock W s) (po_last_poll po)\<rparr>) s)) (\<lambda>_.
        hbind (resolve_dirs W client base rs []) (\<lambda>by_dir.
        hbind (poll_dirs W client base by_dir) (\<lambda>_.
          hmod (\<lambda>s. upd_poller client (forget_gone base rs (ep_queue s)) s)))) s)"

fun poll_all :: "'b surroundings \<Rightarrow> time \<Rightarrow> ((string \<times> string) \<times> sref list) list \<Rightarrow> ('b, unit) task" where
  "poll_all W now [] = hret ()"
| "poll_all W now (g # gs) = hbind (poll_group W now g) (\<lambda>_. poll_all W now gs)"

section \<open>Queue manager: the tick\<close>

definition is_down :: "'b endpoint \<Rightarrow> bool" where
  "is_down s = (v_power_state (ep_server s) \<in> {PowerOff, PowerUnknown})"

definition wake :: "'b surroundings \<Rightarrow> ('b, unit) task" where
  "wake W s =
     hbind (on_server W (\<lambda>env. maybe_power_on (w_ops W) env ''request_wake'' (w_uid W (ep_awaits s)) (clock W s)))
       (\<lambda>_. hret ()) s"

definition serve_waiters :: "'b surroundings \<Rightarrow> time \<Rightarrow> time \<Rightarrow> ('b, time) task" where
  "serve_waiters W now last_check =
     hbind (if 2 \<le> now - last_check then hbind (check_readiness W) (\<lambda>_. hret now) else hret last_check) (\<lambda>last_check.
     hbind (\<lambda>s. if \<not> q_ready (ep_queue s) \<and> is_down s then wake W s else (Inr (), s)) (\<lambda>_.
     hbind (hmod (\<lambda>s. if q_ready (ep_queue s) then upd_queue (try_promote (clock W s)) s else s)) (\<lambda>_.
     hret last_check)))"

definition queue_manager_tick :: "'b surroundings \<Rightarrow> time \<Rightarrow> ('b, time) task" where
  "queue_manager_tick W last_check s0 =
     (let now = clock W s0 in
      hbind (poll_all W now (poll_groups s0)) (\<lambda>_.
      hbind (hmod (\<lambda>s. upd_queue (\<lambda>q. snd (tick now (clock W s) q)) s)) (\<lambda>_.
      hbind (\<lambda>s. if q_queue (ep_queue s) \<noteq> [] then serve_waiters W now last_check s
             else (Inr last_check, s)) (\<lambda>last_check.
      hbind (hmod (\<lambda>s. if ec_catch_all (ep_config s)
             then s\<lparr>ep_tracker := tracker_prune now (sc_expiry (ec_session (ep_config s))) (ep_tracker s)\<rparr>
             else s)) (\<lambda>_.
      hret last_check)))) s0)"

text \<open>One turn of \<open>queue_manager\<close>: an exception is logged and keeps the time of the last check.\<close>

definition manager_pass :: "'b surroundings \<Rightarrow> time \<Rightarrow> 'b endpoint \<Rightarrow> time \<times> 'b endpoint" where
  "manager_pass W last_check s =
     (case queue_manager_tick W last_check (pass W s) of
        (Inl _, s') \<Rightarrow> (last_check, s')
      | (Inr t, s') \<Rightarrow> (t, s'\<lparr>ep_last_manager_tick := Some (clock W s')\<rparr>))"

section \<open>Admission of HTTP requests\<close>

definition ensure_wake :: "'b surroundings \<Rightarrow> ('b, unit) task" where
  "ensure_wake W s =
     (if q_ready (ep_queue s) then (Inr (), s) else if is_down s then wake W s else (Inr (), s))"

definition opt_timeout :: "time \<Rightarrow> time option" where
  "opt_timeout t = (if t = 0 then None else Some t)"

text \<open>\<open>wait_until_ready\<close>: \<open>gone\<close> are the answers of \<open>is_disconnected\<close>.\<close>

fun wait_ready_loop :: "'b surroundings \<Rightarrow> time option \<Rightarrow> bool list \<Rightarrow> ('b, wait_result option) task" where
  "wait_ready_loop W deadline [] s = (if q_ready (ep_queue s) then (Inr (Some WOk), s) else (Inr None, s))"
| "wait_ready_loop W deadline (gone # polls) s =
     (if q_ready (ep_queue s) then (Inr (Some WOk), s)
      else
        hbind (ensure_wake W) (\<lambda>_.
        hbind (pause W) (\<lambda>_ s.
          if gone then (Inr (Some WDisconnected), s)
          else if past_deadline deadline (clock W s) then (Inr (Some WTimedOut), s)
          else hbind (pause W) (\<lambda>_. wait_ready_loop W deadline polls) s)) s)"

definition wait_until_ready :: "'b surroundings \<Rightarrow> time option \<Rightarrow> bool list \<Rightarrow> ('b, wait_result option) task" where
  "wait_until_ready W timeout polls s = wait_ready_loop W (wait_deadline timeout (clock W s)) polls s"

text \<open>What becomes of a request; the texts are those of the JSON bodies.\<close>

datatype response =
    BodyUnreadable
  | NotReady string
  | Disconnected
  | HoldTimedOut time
  | StillHolding
  | Answered forwarded

definition status_code :: "response \<Rightarrow> int option" where
  "status_code r = (case r of BodyUnreadable \<Rightarrow> Some 400 | NotReady _ \<Rightarrow> Some 503 | Disconnected \<Rightarrow> Some 503
     | HoldTimedOut _ \<Rightarrow> Some 504 | StillHolding \<Rightarrow> None | Answered fw \<Rightarrow> Some (fw_status fw))"

definition not_ready :: "'b endpoint \<Rightarrow> response" where
  "not_ready s =
     NotReady (''Service for endpoint '' @ [char_of (39 :: nat)] @ endpoint_name s @ [char_of (39 :: nat)] @
       '' is not ready; retry later.'')"

definition hold_rejected :: "wait_result \<Rightarrow> 'b endpoint \<Rightarrow> response" where
  "hold_rejected result s =
     (if result = WDisconnected then Disconnected else HoldTimedOut (ec_queue_timeout (ep_config s)))"

text \<open>The record a forwarded request leaves, staged in the store.\<close>

definition make_record ::
    "string \<Rightarrow> string \<Rightarrow> time \<Rightarrow> time \<Rightarrow> int option \<Rightarrow> nat \<Rightarrow> nat \<Rightarrow> time \<Rightarrow> 'b endpoint \<Rightarrow> request_record" where
  "make_record client session_id wait_seconds now code request_bytes response_bytes active_seconds s =
     \<lparr>rr_ts = now, rr_server = server_name (ep_server s), rr_endpoint = endpoint_name s,
      rr_client = client, rr_session_id = session_id, rr_wait_seconds = wait_seconds,
      rr_active_seconds = active_seconds, rr_status_code = code,
      rr_request_bytes = int request_bytes, rr_response_bytes = int response_bytes\<rparr>"

definition stage_record :: "request_record \<Rightarrow> 'b endpoint \<Rightarrow> 'b endpoint" where
  "stage_record rec s =
     s\<lparr>ep_server := (ep_server s)\<lparr>v_store := enqueue_request rec (v_store (ep_server s))\<rparr>\<rparr>"

definition run_callback ::
    "(int option \<Rightarrow> 'b endpoint \<Rightarrow> 'b endpoint) \<Rightarrow>
     (int option \<Rightarrow> nat \<Rightarrow> nat \<Rightarrow> time \<Rightarrow> 'b endpoint \<Rightarrow> request_record) \<Rightarrow> callback \<Rightarrow> 'b endpoint \<Rightarrow> 'b endpoint" where
  "run_callback rel mk c s =
     (case c of
        Release code \<Rightarrow> rel code s
      | Record code req resp secs \<Rightarrow> stage_record (mk code req resp secs s) s)"

text \<open>
  \<open>_forward\<close>: the target answers at the first await, the body is streamed during the second, and
  the callbacks run where the stream left them. A cancelled send is an exception.
\<close>

definition forward ::
    "'b surroundings \<Rightarrow> send_outcome \<Rightarrow> drive \<Rightarrow> string \<Rightarrow> (int option \<Rightarrow> 'b endpoint \<Rightarrow> 'b endpoint) \<Rightarrow>
     (int option \<Rightarrow> nat \<Rightarrow> nat \<Rightarrow> time \<Rightarrow> 'b endpoint \<Rightarrow> request_record) \<Rightarrow> ('b, response) task" where
  "forward W outcome driven body rel mk =
     hbind (pause W) (\<lambda>_ s1.
     hbind (pause W) (\<lambda>_ s.
       case forward_request outcome driven (length body) (clock W s - clock W s1) of
         None \<Rightarrow> (Inl (OtherExn ''CancelledError''), s)
       | Some fw \<Rightarrow> (Inr (Answered fw), fold (run_callback rel mk) (fw_calls fw) s)) s1)"

definition user_agent_of :: "(string \<times> string) list \<Rightarrow> string" where
  "user_agent_of headers = str_get (lowered headers) ''user-agent'' []"

definition client_ip_of :: "string option \<Rightarrow> string" where
  "client_ip_of host = (case host of Some h \<Rightarrow> h | None \<Rightarrow> ''unknown'')"

definition session_of :: "'b surroundings \<Rightarrow> http_request \<Rightarrow> 'b endpoint \<Rightarrow> string \<times> string" where
  "session_of W request s =
     resolve_session_id (w_loads W) (w_float_text W) request (ec_session_id_body_fields (ep_config s))
       (ep_providers s) (ep_generic_headers s)"

definition display_of :: "http_request \<Rightarrow> string \<Rightarrow> string" where
  "display_of request client_name =
     client_display client_name (client_ip_of (rq_client request)) (user_agent_of (rq_headers request))"

definition finish_forward :: "int option \<Rightarrow> 'b endpoint \<Rightarrow> 'b endpoint" where
  "finish_forward code s = s\<lparr>ep_active_forwards := max 0 (ep_active_forwards s - 1)\<rparr>"

text \<open>The readiness gate: a fresh probe when nothing waits.\<close>

definition readiness_gate :: "'b surroundings \<Rightarrow> ('b, unit) task" where
  "readiness_gate W s =
     (if q_queue (ep_queue s) = [] then hbind (check_readiness W) (\<lambda>_. hret ()) s else (Inr (), s))"

definition forward_unqueued ::
    "'b surroundings \<Rightarrow> http_request \<Rightarrow> send_outcome \<Rightarrow> drive \<Rightarrow> ('b, response) task" where
  "forward_unqueued W request outcome driven s0 =
     (let s = s0\<lparr>ep_active_forwards := ep_active_forwards s0 + 1\<rparr>;
          (client_name, session_id) = session_of W request s
      in forward W outcome driven (rq_body request) finish_forward
           (\<lambda>code req resp secs t. make_record (display_of request client_name) session_id 0 (wall W t)
              code req resp secs t) s)"

definition admit_unqueued ::
    "'b surroundings \<Rightarrow> http_request \<Rightarrow> bool list \<Rightarrow> send_outcome \<Rightarrow> drive \<Rightarrow> ('b, response) task" where
  "admit_unqueued W request polls outcome driven =
     hbind (readiness_gate W) (\<lambda>_ s.
       if q_ready (ep_queue s) then forward_unqueued W request outcome driven s
       else if ec_wait_policy (ep_config s) = ''error'' then (Inr (not_ready s), s)
       else hbind (wait_until_ready W (opt_timeout (ec_queue_timeout (ep_config s))) polls) (\<lambda>result s.
         case result of
           None \<Rightarrow> (Inr StillHolding, s)
         | Some r \<Rightarrow>
             if r \<noteq> WOk then (Inr (hold_rejected r s), s)
             else forward_unqueued W request outcome driven s) s)"

text \<open>The hold of a queued request: \<open>wait_for_slot\<close> on the live queue.\<close>

fun hold_loop :: "'b surroundings \<Rightarrow> eref \<Rightarrow> time option \<Rightarrow> bool list \<Rightarrow> ('b, wait_result option) task" where
  "hold_loop W e deadline [] s = (if e_go (ent (ep_queue s) e) then (Inr (Some WOk), s) else (Inr None, s))"
| "hold_loop W e deadline (gone # polls) s =
     (if e_go (ent (ep_queue s) e) then (Inr (Some WOk), s)
      else
        hbind (pause W) (\<lambda>_ s.
          if gone then (Inr (Some WDisconnected), s)
          else if past_deadline deadline (clock W s) then (Inr (Some WTimedOut), s)
          else hbind (pause W) (\<lambda>_. hold_loop W e deadline polls) s) s)"

text \<open>A hold that did not end well gives back what it has: the spot, when the promotion won the
  race, else the place in the queue.\<close>

definition settle :: "'b surroundings \<Rightarrow> eref \<Rightarrow> 'b endpoint \<Rightarrow> 'b endpoint" where
  "settle W e s =
     (if e_done (ent (ep_queue s) e) then upd_queue (release (clock W s) e) s
      else upd_queue (abandon e) s)"

definition enter_queue :: "'b surroundings \<Rightarrow> sref \<Rightarrow> string \<Rightarrow> string \<Rightarrow> ('b, eref) task" where
  "enter_queue W r path body s =
     (let now = clock W s; (e, q) = alloc_entry r path body now (ep_queue s)
      in (Inr e, s\<lparr>ep_queue := enqueue now e q\<rparr>))"

text \<open>A request in the queue, up to its response: the hold, then the forward or the settling.\<close>

definition serve_entry ::
    "'b surroundings \<Rightarrow> http_request \<Rightarrow> string \<times> string \<Rightarrow> bool list \<Rightarrow> send_outcome \<Rightarrow> drive \<Rightarrow> eref \<Rightarrow>
     ('b, response) task" where
  "serve_entry W request ident polls outcome driven e s =
     (let entered = e_enqueued_at (ent (ep_queue s) e);
          deadline = wait_deadline (opt_timeout (ec_queue_timeout (ep_config s))) entered
      in hbind (hold_loop W e deadline polls) (\<lambda>result s.
        case result of
          None \<Rightarrow> (Inr StillHolding, s)
        | Some w \<Rightarrow>
            if w \<noteq> WOk then
              (let s = settle W e s in
               (Inr (if w = WDisconnected then Disconnected else hold_rejected WTimedOut s), s))
            else
              (let wait_seconds = clock W s - entered in
               forward W outcome driven (rq_body request)
                 (\<lambda>code t. upd_queue (release (clock W t) e) t)
                 (\<lambda>code req resp secs t. make_record (display_of request (fst ident)) (snd ident)
                    wait_seconds (wall W t) code req resp secs t) s)) s)"

definition admit_queued ::
    "'b surroundings \<Rightarrow> http_request \<Rightarrow> string \<Rightarrow> bool list \<Rightarrow> send_outcome \<Rightarrow> drive \<Rightarrow> ('b, response) task" where
  "admit_queued W request full_path polls outcome driven =
     hbind (readiness_gate W) (\<lambda>_ s.
       if \<not> q_ready (ep_queue s) \<and> ec_wait_policy (ep_config s) = ''error'' then (Inr (not_ready s), s)
       else
         hbind (ensure_wake W) (\<lambda>_ s.
           let ident = session_of W request s;
               (r, q) = get_or_create_session (fst ident) (snd ident) (endpoint_name s)
                 (client_ip_of (rq_client request)) (user_agent_of (rq_headers request)) (clock W s) (ep_queue s)
           in hbind (on_store W (upsert_session (fst ident) (snd ident) (endpoint_name s) (wall W s))) (\<lambda>_.
              hbind (enter_queue W r full_path (rq_body request)) (\<lambda>e.
                serve_entry W request ident polls outcome driven e))
              (s\<lparr>ep_queue := q\<rparr>)) s)"

text \<open>\<open>readable\<close>: whether the body of the request could be read.\<close>

definition admit ::
    "'b surroundings \<Rightarrow> bool \<Rightarrow> http_request \<Rightarrow> string \<Rightarrow> bool list \<Rightarrow> send_outcome \<Rightarrow> drive \<Rightarrow> ('b, response) task" where
  "admit W readable request full_path polls outcome driven =
     hbind (pause W) (\<lambda>_ s.
       if \<not> readable then (Inr BodyUnreadable, s)
       else if ec_routing (ep_config s) = ''queued''
       then admit_queued W request full_path polls outcome driven s
       else admit_unqueued W request polls outcome driven s)"

definition admit_catch_all ::
    "'b surroundings \<Rightarrow> bool \<Rightarrow> http_request \<Rightarrow> bool list \<Rightarrow> send_outcome \<Rightarrow> drive \<Rightarrow> ('b, response) task" where
  "admit_catch_all W readable request polls outcome driven =
     hbind (pause W) (\<lambda>_ s.
       if \<not> readable then (Inr BodyUnreadable, s) else admit_unqueued W request polls outcome driven s)"

section \<open>Admission of WebSockets\<close>

text \<open>\<open>gone\<close> are the states of the disconnect event, poll by poll.\<close>

fun wait_ws_ready :: "'b surroundings \<Rightarrow> time option \<Rightarrow> bool list \<Rightarrow> ('b, wait_result option) task" where
  "wait_ws_ready W deadline [] s = (if q_ready (ep_queue s) then (Inr (Some WOk), s) else (Inr None, s))"
| "wait_ws_ready W deadline (gone # polls) s =
     (if q_ready (ep_queue s) then (Inr (Some WOk), s)
      else if gone then (Inr (Some WDisconnected), s)
      else if past_deadline deadline (clock W s) then (Inr (Some WTimedOut), s)
      else hbind (pause W) (\<lambda>_. wait_ws_ready W deadline polls) s)"

text \<open>One attempt of \<open>_hold_ws_spot\<close>: on the session's own spot, on one it shares, on a free one.\<close>

definition ws_take_spot :: "time \<Rightarrow> sref \<Rightarrow> equeue \<Rightarrow> equeue option" where
  "ws_take_spot now r q =
     (let se = sess q r; run = (\<lambda>s. s\<lparr>s_inflight := s_inflight s + 1\<rparr>) in
      if dict_has (q_spots q) (s_key se) then Some (upd_sess r run q)
      else if (case s_shared_spot_key se of None \<Rightarrow> False | Some k \<Rightarrow> dict_has (q_spots q) k)
      then Some (upd_sess r run q)
      else if int (length (q_spots q)) < q_max_spots q then
        Some (upd_sess r (\<lambda>s. run (s\<lparr>s_spot_held := True, s_spot_acquired_at := now\<rparr>))
          (q\<lparr>q_spots := dict_put (s_key se) now (q_spots q)\<rparr>))
      else None)"

fun hold_ws_spot :: "'b surroundings \<Rightarrow> sref \<Rightarrow> time option \<Rightarrow> bool list \<Rightarrow> ('b, bool option) task" where
  "hold_ws_spot W r deadline [] s =
     (case ws_take_spot (clock W s) r (ep_queue s) of
        Some q \<Rightarrow> (Inr (Some True), s\<lparr>ep_queue := q\<rparr>)
      | None \<Rightarrow> (Inr None, s))"
| "hold_ws_spot W r deadline (gone # polls) s =
     (case ws_take_spot (clock W s) r (ep_queue s) of
        Some q \<Rightarrow> (Inr (Some True), s\<lparr>ep_queue := q\<rparr>)
      | None \<Rightarrow>
          if past_deadline deadline (clock W s) then (Inr (Some False), s)
          else if gone then (Inr (Some False), s)
          else hbind (pause W) (\<lambda>_. hold_ws_spot W r deadline polls) s)"

definition release_ws_spot :: "time \<Rightarrow> sref \<Rightarrow> equeue \<Rightarrow> equeue" where
  "release_ws_spot now r q0 =
     (let q = (if 0 < s_inflight (sess q0 r)
               then upd_sess r (\<lambda>s. s\<lparr>s_inflight := s_inflight s - 1\<rparr>) q0 else q0);
          key = s_key (sess q r)
      in if dict_has (q_spots q) key
         then try_promote now
           (upd_sess r (\<lambda>s. s\<lparr>s_spot_held := False\<rparr>) (q\<lparr>q_spots := dict_pop key (q_spots q)\<rparr>))
         else q)"

datatype ws_outcome = WsNotReady | WsRejected | WsHolding | WsTunnelled tunnelled

text \<open>
  The connection once the endpoint is ready. The tunnel lasts one await; what it carries is an
  argument.
\<close>

definition run_ws ::
    "'b surroundings \<Rightarrow> websocket_request \<Rightarrow> string \<times> string \<Rightarrow> bool \<Rightarrow> bool list \<Rightarrow> tunnelled \<Rightarrow> ('b, ws_outcome) task" where
  "run_ws W ws ident passthrough polls carried s =
     (if ec_routing (ep_config s) = ''queued'' \<and> \<not> passthrough then
        (let (r, q) = get_or_create_session (fst ident) (snd ident) (endpoint_name s)
               (client_ip_of (ws_client ws)) (user_agent_of (ws_headers ws)) (clock W s) (ep_queue s);
             s = s\<lparr>ep_queue := q\<rparr>
         in hbind (hold_ws_spot W r (wait_deadline (opt_timeout (ec_queue_timeout (ep_config s))) (clock W s)) polls)
              (\<lambda>held.
                case held of
                  None \<Rightarrow> hret WsHolding
                | Some False \<Rightarrow> hret WsRejected
                | Some True \<Rightarrow>
                    hbind (pause W) (\<lambda>_.
                    hbind (hmod (\<lambda>s. upd_queue (release_ws_spot (clock W s) r) s)) (\<lambda>_.
                    hret (WsTunnelled carried)))) s)
      else
        hbind (hmod (\<lambda>s. s\<lparr>ep_active_forwards := ep_active_forwards s + 1\<rparr>)) (\<lambda>_.
        hbind (pause W) (\<lambda>_.
        hbind (hmod (finish_forward None)) (\<lambda>_.
        hret (WsTunnelled carried)))) s)"

definition admit_ws ::
    "'b surroundings \<Rightarrow> websocket_request \<Rightarrow> bool \<Rightarrow> bool list \<Rightarrow> bool list \<Rightarrow> tunnelled \<Rightarrow> ('b, ws_outcome) task" where
  "admit_ws W ws passthrough ready_polls spot_polls carried s0 =
     (let ident = resolve_session_id_ws ws (ep_providers s0) (ep_generic_headers s0) in
      hbind (pause W) (\<lambda>_.
      hbind (readiness_gate W) (\<lambda>_ s.
        if q_ready (ep_queue s) then run_ws W ws ident passthrough spot_polls carried s
        else if ec_wait_policy (ep_config s) = ''error'' then (Inr WsNotReady, s)
        else
          hbind (wait_ws_ready W (wait_deadline (opt_timeout (ec_queue_timeout (ep_config s))) (clock W s)) ready_polls)
            (\<lambda>result s.
              case result of
                None \<Rightarrow> (Inr WsHolding, s)
              | Some w \<Rightarrow>
                  if w \<noteq> WOk then (Inr WsRejected, s)
                  else run_ws W ws ident passthrough spot_polls carried s) s)) s0)"

end
