(* ===== verification/Relay_Queue_Policy.thy ===== *)
theory Relay_Queue_Policy
  imports Relay_Queue_Machine
begin

text \<open>
  What the queue promises its users: who is promoted and in which order, when a spot
  is surrendered, what the monitor lists, and how the hold of a request ends.
\<close>

section \<open>Order of promotion\<close>

lemma promote_loop_None:
  "List.find (eligible q) (q_queue q) = None \<Longrightarrow> promote_loop now q = q"
  by (simp add: promote_loop.simps [of now q])

lemma promote_loop_Some:
  "List.find (eligible q) (q_queue q) = Some e \<Longrightarrow> promote_loop now q = promote_loop now (promote now e q)"
  by (simp add: promote_loop.simps [of now q])

lemma promote_loop_stops: "List.find (eligible (promote_loop now q)) (q_queue (promote_loop now q)) = None"
proof (induction now q rule: promote_loop.induct)
  case (1 now q)
  show ?case
  proof (cases "List.find (eligible q) (q_queue q)")
    case None
    then show ?thesis using promote_loop_None [OF None, of now] by simp
  next
    case (Some e)
    then show ?thesis using "1.IH" [OF Some] promote_loop_Some [OF Some, of now] by simp
  qed
qed

lemma subseq_remove1: "subseq (remove1 x xs) xs"
  by (induction xs) auto

lemma promote_loop_subseq: "subseq (q_queue (promote_loop now q)) (q_queue q)"
proof (induction now q rule: promote_loop.induct)
  case (1 now q)
  show ?case
  proof (cases "List.find (eligible q) (q_queue q)")
    case None
    then show ?thesis using promote_loop_None [OF None, of now] by simp
  next
    case (Some e)
    then show ?thesis
      using "1.IH" [OF Some] promote_loop_Some [OF Some, of now] subseq_remove1 [of e "q_queue q"]
      by (auto intro: subseq_order.trans)
  qed
qed

lemma promote_loop_subset: "set (q_queue (promote_loop now q)) \<subseteq> set (q_queue q)"
  using promote_loop_subseq by (metis set_nths_subset subseq_conv_nths)

lemma promote_sess_of [simp]: "e_session (ent (promote_loop now q) e) = e_session (ent q e)"
proof (induction now q rule: promote_loop.induct)
  case (1 now q)
  then show ?case
    by (cases "List.find (eligible q) (q_queue q)") (simp_all add: promote_loop.simps [of now q])
qed

text \<open>Eligibility looks at the session only, so two entries of a session stand together.\<close>

lemma eligible_session:
  "e_session (ent q e) = e_session (ent q e') \<Longrightarrow> eligible q e = eligible q e'"
  by (simp add: eligible_def)

definition before :: "'a list \<Rightarrow> 'a \<Rightarrow> 'a \<Rightarrow> bool" where
  "before xs x y \<longleftrightarrow> (\<exists>us vs ws. xs = us @ x # vs @ y # ws)"

lemma before_remove1:
  assumes "before xs x y" and "z \<noteq> x" and "z \<noteq> y"
  shows "before (remove1 z xs) x y"
proof -
  obtain us vs ws where xs: "xs = us @ x # vs @ y # ws" using assms(1) by (auto simp: before_def)
  have "\<exists>us' vs' ws'. remove1 z xs = us' @ x # vs' @ y # ws'"
    unfolding xs using assms(2,3)
    by (cases "z \<in> set us"; cases "z \<in> set vs"; cases "z \<in> set ws") (force simp: remove1_append)+
  then show ?thesis by (simp add: before_def)
qed

lemma find_before:
  assumes "before xs x y" and "List.find P xs = Some y" and "P x" and "distinct xs"
  shows False
proof -
  obtain us vs where xs: "xs = us @ y # vs" "\<forall>u \<in> set us. \<not> P u"
    using find_Some_split [OF assms(2)] by blast
  obtain as bs cs where ys: "xs = as @ x # bs @ y # cs" using assms(1) by (auto simp: before_def)
  have "us = as @ x # bs"
    using assms(4) xs(1) ys append_eq_append_conv2 [of us "y # vs" "as @ x # bs" "y # cs"]
    by (auto simp: Cons_eq_append_conv append_eq_Cons_conv)
  then show False using xs(2) assms(3) by auto
qed

lemma same_session_fifo_loop:
  assumes "before (q_queue q) e e'" and "e_session (ent q e) = e_session (ent q e')"
    and "distinct (q_queue q)" and "e \<in> set (q_queue (promote_loop now q))"
  shows "e' \<in> set (q_queue (promote_loop now q))"
  using assms
proof (induction now q rule: promote_loop.induct)
  case (1 now q)
  show ?case
  proof (cases "List.find (eligible q) (q_queue q)")
    case None
    then show ?thesis
      using "1.prems"(1) by (auto simp: promote_loop_None before_def)
  next
    case (Some t)
    have loop: "promote_loop now q = promote_loop now (promote now t q)"
      by (rule promote_loop_Some [OF Some])
    have "e \<in> set (q_queue (promote now t q))"
      using promote_loop_subset [of now "promote now t q"] "1.prems"(4) loop by auto
    then have "t \<noteq> e" using "1.prems"(3) by auto
    have "eligible q t" using Some by (auto simp: find_Some_iff)
    then have "t \<noteq> e'"
      using find_before [of "q_queue q" e e' "eligible q"] Some "1.prems"
        eligible_session [of q e e'] by auto
    show ?thesis
      unfolding loop
      by (rule "1.IH" [OF Some])
         (use "1.prems" \<open>t \<noteq> e\<close> \<open>t \<noteq> e'\<close> loop in \<open>simp_all add: before_remove1\<close>)
  qed
qed

text \<open>
  C9: After \<open>_try_promote\<close> on a READY endpoint no waiting request may run any more, the
  requests that still wait keep their order, and promoting again changes nothing: no
  spot is left idle while a request that could use it waits.
\<close>

theorem try_promote_work_conserving:
  assumes "q_ready q"
  shows "(\<forall>e. e \<in> set (q_queue (try_promote now q)) \<longrightarrow> \<not> eligible (try_promote now q) e) \<and>
    subseq (q_queue (try_promote now q)) (q_queue q) \<and>
    try_promote now' (try_promote now q) = try_promote now q"
  using promote_loop_stops [of now q] promote_loop_subseq [of now q] assms
    promote_loop_None [of "promote_loop now q" now']
  by (simp add: try_promote_def find_None_iff)

text \<open>
  C10: FIFO order. The first waiting request that may run is promoted, and of two
  requests of one session the later never overtakes the earlier.
\<close>

theorem try_promote_fifo:
  assumes "q_ready q" and "distinct (q_queue q)"
  shows "(List.find (eligible q) (q_queue q) = Some t \<longrightarrow> t \<notin> set (q_queue (try_promote now q))) \<and>
    (before (q_queue q) e e' \<and> e_session (ent q e) = e_session (ent q e') \<and>
      e' \<notin> set (q_queue (try_promote now q)) \<longrightarrow> e \<notin> set (q_queue (try_promote now q)))"
proof -
  have "t \<notin> set (q_queue (promote_loop now q))" if "List.find (eligible q) (q_queue q) = Some t"
    using promote_loop_subset [of now "promote now t q"] promote_loop_Some [OF that, of now] assms(2)
    by auto
  then show ?thesis
    using same_session_fifo_loop [of q e e' now] assms by (auto simp: try_promote_def)
qed

section \<open>Surrender of spots\<close>

text \<open>No waiting request belongs to a session with this key.\<close>

definition quiet :: "equeue \<Rightarrow> skey \<Rightarrow> bool" where
  "quiet q k \<longleftrightarrow> (\<forall>e \<in> set (q_queue q). s_key (sess q (e_session (ent q e))) \<noteq> k)"

text \<open>What an operation leaves alone for a session key.\<close>

definition same_for :: "skey \<Rightarrow> equeue \<Rightarrow> equeue \<Rightarrow> bool" where
  "same_for k q q' \<longleftrightarrow>
     dict_get (q_spots q') k = dict_get (q_spots q) k \<and>
     (\<forall>x. s_key (sess q' x) = s_key (sess q x)) \<and>
     (\<forall>x. s_key (sess q x) = k \<longrightarrow> sess q' x = sess q x) \<and>
     q_config q' = q_config q \<and> quiet q' k"

lemma same_for_trans: "same_for k q q' \<Longrightarrow> same_for k q' q'' \<Longrightarrow> same_for k q q''"
  by (simp add: same_for_def)

lemma same_for_refl: "quiet q k \<Longrightarrow> same_for k q q"
  by (simp add: same_for_def)

lemma quiet_cong:
  "q_queue q' = q_queue q \<Longrightarrow> q_entries q' = q_entries q \<Longrightarrow>
   (\<And>x. s_key (sess q' x) = s_key (sess q x)) \<Longrightarrow> quiet q' k = quiet q k"
  by (simp add: quiet_def)

lemma promote_same_for:
  assumes "quiet q k" and "e \<in> set (q_queue q)"
  shows "same_for k q (promote now e q)"
proof -
  have "s_key (sess q (e_session (ent q e))) \<noteq> k" using assms by (simp add: quiet_def)
  moreover have "quiet (promote now e q) k"
    using assms(1) notin_set_remove1 [of _ "q_queue q" e]
    by (auto simp: quiet_def)
  ultimately show ?thesis
    by (auto simp: same_for_def promote_spots promote_heap Let_def q_config_def)
qed

lemma try_promote_same_for: "quiet q k \<Longrightarrow> same_for k q (try_promote now q)"
proof -
  have "quiet q k \<Longrightarrow> same_for k q (promote_loop now q)"
  proof (induction now q rule: promote_loop.induct)
    case (1 now q)
    show ?case
    proof (cases "List.find (eligible q) (q_queue q)")
      case None
      then show ?thesis using "1.prems" by (simp add: promote_loop_None same_for_refl)
    next
      case (Some e)
      then have "same_for k q (promote now e q)"
        using promote_same_for [OF "1.prems"] by (auto simp: find_Some_iff)
      moreover from this have "same_for k (promote now e q) (promote_loop now (promote now e q))"
        using "1.IH" [OF Some] by (simp add: same_for_def)
      ultimately show ?thesis using promote_loop_Some [OF Some, of now] by (simp add: same_for_trans)
    qed
  qed
  then show "quiet q k \<Longrightarrow> same_for k q (try_promote now q)"
    by (simp add: try_promote_def same_for_refl)
qed

lemma tick_status_same_for:
  "quiet q k \<Longrightarrow> s_key (sess q r) \<noteq> k \<Longrightarrow> same_for k q (tick_status now r q)"
  by (auto simp: same_for_def quiet_def tick_status_def split: prod.splits)

lemma release_spot_same_for:
  assumes "quiet q k" and "s_key (sess q r) \<noteq> k" and "j \<noteq> k"
  shows "same_for k q (release_spot clk r j q)"
proof -
  let ?p = "upd_sess r (\<lambda>s. s\<lparr>s_spot_held := False, s_idle_since := None\<rparr>)
    (q\<lparr>q_spots := dict_pop j (q_spots q)\<rparr>)"
  let ?p' = "if s_waiting (sess ?p r) = 0 \<and> s_inflight (sess ?p r) = 0
    then ?p\<lparr>q_sessions := dict_pop j (q_sessions ?p)\<rparr> else ?p"
  have "quiet ?p' k" using assms(1) by (auto simp: quiet_def)
  then have "same_for k q ?p'" using assms by (auto simp: same_for_def)
  then have "same_for k q (try_promote clk ?p')"
    using try_promote_same_for [OF \<open>quiet ?p' k\<close>] same_for_trans by blast
  then show ?thesis by (simp add: release_spot_def Let_def)
qed

lemma tick_one_same_for:
  assumes "quiet q k" and "s_key (sess q r) = j" and "j \<noteq> k"
  shows "same_for k q (fst (tick_one now clk (j, r) (q, rel)))"
proof -
  let ?p = "tick_status now r q"
  have p: "same_for k q ?p" using tick_status_same_for assms by simp
  have "same_for k ?p (release_spot clk r j ?p)"
    using release_spot_same_for [of ?p k r j clk] p assms by (simp add: same_for_def)
  moreover have "same_for k ?p (?p\<lparr>q_sessions := d\<rparr>)" for d
    using p by (simp add: same_for_def quiet_def)
  ultimately show ?thesis
    using p by (auto simp: tick_one_fst Let_def intro: same_for_trans)
qed

lemma tick_one_released:
  "fst ` set (snd (tick_one now clk (j, r) (q, rel))) =
     (let p = tick_status now r q in
      if s_spot_held (sess p r) \<and> spot_due p (sess p r) now then insert j (fst ` set rel) else fst ` set rel)"
  by (auto simp: tick_one_def spot_due_def Let_def split: option.split)

lemma fold_tick_same_for:
  assumes "quiet q k" and "\<And>j r. (j, r) \<in> set items \<Longrightarrow> s_key (sess q r) = j \<and> j \<noteq> k"
  shows "same_for k q (fst (fold (tick_one now clk) items (q, rel))) \<and>
    dict_get (q_sessions (fst (fold (tick_one now clk) items (q, rel)))) k = dict_get (q_sessions q) k \<and>
    (k \<in> fst ` set (snd (fold (tick_one now clk) items (q, rel))) \<longleftrightarrow> k \<in> fst ` set rel)"
  using assms
proof (induction items arbitrary: q rel)
  case Nil
  then show ?case by (simp add: same_for_refl)
next
  case (Cons jr items)
  obtain j r where jr: "jr = (j, r)" by (cases jr)
  obtain q1 rel1 where one: "tick_one now clk jr (q, rel) = (q1, rel1)" by fastforce
  have j: "s_key (sess q r) = j" "j \<noteq> k" using Cons.prems(2) [of j r] jr by simp_all
  have s1: "same_for k q q1"
    using tick_one_same_for [OF Cons.prems(1) j, of now clk rel] one jr by simp
  have g1: "dict_get (q_sessions q1) k = dict_get (q_sessions q) k"
    using tick_one_sessions [of k jr now clk q rel] j one jr by simp
  have r1: "k \<in> fst ` set rel1 \<longleftrightarrow> k \<in> fst ` set rel"
    using tick_one_released [of now clk j r q rel] j one jr by (auto simp: Let_def split: if_splits)
  have "s_key (sess q1 r') = j' \<and> j' \<noteq> k" if "(j', r') \<in> set items" for j' r'
    using Cons.prems(2) [of j' r'] s1 that by (simp add: same_for_def)
  then have "same_for k q1 (fst (fold (tick_one now clk) items (q1, rel1))) \<and>
      dict_get (q_sessions (fst (fold (tick_one now clk) items (q1, rel1)))) k = dict_get (q_sessions q1) k \<and>
      (k \<in> fst ` set (snd (fold (tick_one now clk) items (q1, rel1))) \<longleftrightarrow> k \<in> fst ` set rel1)"
    using s1 by (intro Cons.IH) (simp_all add: same_for_def)
  then show ?case using same_for_trans [OF s1] g1 r1 by (simp add: one)
qed

lemma current_status_cong:
  "q_config q' = q_config q \<Longrightarrow> current_status q' s now = current_status q s now"
  by (cases "s_client_status s") (simp_all add: current_status_def q_config_def)

lemma release_deadline_cong:
  "q_config q' = q_config q \<Longrightarrow> release_deadline q' s now = release_deadline q s now"
  by (cases "s_idle_since s") (simp_all add: release_deadline_def q_config_def)

text \<open>What the tick makes of a session, as a function of the session alone.\<close>

definition ticked :: "equeue \<Rightarrow> session \<Rightarrow> time \<Rightarrow> session" where
  "ticked q s now =
     (let (status, detail) = current_status q s now in
      s\<lparr>s_status := status, s_status_detail := detail,
        s_idle_since := (if status \<in> {''idle'', ''waiting''}
          then (case s_idle_since s of None \<Rightarrow> Some now | Some i \<Rightarrow> Some i) else None)\<rparr>)"

lemma tick_status_sess: "sess (tick_status now r q) r = ticked q (sess q r) now"
  by (simp add: tick_status_def ticked_def split_beta Let_def)

lemma ticked_cong: "q_config q' = q_config q \<Longrightarrow> ticked q' s now = ticked q s now"
  using current_status_cong [of q' q s now] by (simp add: ticked_def)

lemma ticked_fields [simp]:
  "s_key (ticked q s now) = s_key s"
  "s_waiting (ticked q s now) = s_waiting s"
  "s_inflight (ticked q s now) = s_inflight s"
  "s_spot_held (ticked q s now) = s_spot_held s"
  "s_client (ticked q s now) = s_client s"
  "s_client_status (ticked q s now) = s_client_status s"
  "s_client_status_at (ticked q s now) = s_client_status_at s"
  "s_last_request_at (ticked q s now) = s_last_request_at s"
  "s_status (ticked q s now) = fst (current_status q s now)"
  by (simp_all add: ticked_def split_beta Let_def)

lemma idle_session_quiet:
  assumes "q_inv R W q" and "dict_get (q_sessions q) k = Some r" and "s_waiting (sess q r) = 0"
  shows "quiet q k"
proof -
  have tr: "tracked q r" and key: "s_key (sess q r) = k"
    using tracked_get [OF _ assms(2)] assms(1) by (auto simp: q_inv_def)
  have "of_session q (set (q_queue q)) r = 0"
    using assms(1,3) tr by (simp add: q_inv_def q_counts_def)
  then have none: "\<forall>e \<in> set (q_queue q). e_session (ent q e) \<noteq> r"
    by (simp add: of_session_zero)
  have "s_key (sess q (e_session (ent q e))) \<noteq> k" if "e \<in> set (q_queue q)" for e
  proof
    assume "s_key (sess q (e_session (ent q e))) = k"
    moreover have "tracked q (e_session (ent q e))"
      using assms(1) that by (simp add: q_inv_def q_entries_ok_def)
    ultimately have "e_session (ent q e) = r" using tr key tracked_unique by blast
    then show False using none that by blast
  qed
  then show ?thesis by (simp add: quiet_def)
qed

text \<open>
  C3: The tick surrenders exactly the spots that are due. For a session that holds a spot
  and has nothing waiting and nothing in flight, the tick recomputes its status; if its
  release deadline has passed, the spot is given up and the session is forgotten,
  otherwise it keeps its spot, its record and its idle countdown. What happens to
  other sessions in the same tick does not matter.
\<close>

theorem tick_surrenders_due_spots:
  assumes inv: "q_inv R W q" and g: "dict_get (q_sessions q) k = Some r"
    and held: "s_spot_held (sess q r)"
    and idle: "s_waiting (sess q r) = 0" "s_inflight (sess q r) = 0"
    and tick: "tick now clk q = (released, q')"
  shows "if spot_due q (ticked q (sess q r) now) now
    then k \<in> fst ` set released \<and> \<not> dict_has (q_sessions q') k \<and> \<not> dict_has (q_spots q') k
    else k \<notin> fst ` set released \<and> dict_get (q_sessions q') k = Some r \<and> dict_has (q_spots q') k \<and>
         sess q' r = ticked q (sess q r) now"
proof -
  have keys: "s_key (sess q x) = j" if "(j, x) \<in> set (q_sessions q)" for j x
    using inv that dict_ok_get [of "q_sessions q" j x] by (simp add: q_inv_def q_dicts_def)
  obtain us vs where split: "q_sessions q = us @ (k, r) # vs"
    using g map_of_SomeD split_list by fastforce
  have dist: "distinct (map fst (q_sessions q))"
    using inv by (simp add: q_inv_def q_dicts_def dict_ok_def)
  have quiet: "quiet q k" by (rule idle_session_quiet [OF inv g idle(1)])
  have others: "s_key (sess q x) = j \<and> j \<noteq> k" if "(j, x) \<in> set (us @ vs)" for j x
  proof
    show "s_key (sess q x) = j" using keys that split by auto
    show "j \<noteq> k" using dist that by (auto simp: split rev_image_eqI)
  qed
  have has: "dict_has (q_spots q) k" using inv g held by (simp add: q_inv_def q_spots_ok_def)
  have key: "s_key (sess q r) = k" by (rule keys [OF map_of_SomeD [OF g]])
  obtain q1 rel1 where f1: "fold (tick_one now clk) us (q, []) = (q1, rel1)" by fastforce
  have 1: "same_for k q q1" "dict_get (q_sessions q1) k = Some r" "k \<notin> fst ` set rel1"
    using fold_tick_same_for [OF quiet, of us now clk "[]"] others f1 g by auto
  have sess1: "sess q1 r = sess q r" and cfg1: "q_config q1 = q_config q"
    using 1(1) key by (auto simp: same_for_def)
  obtain q2 rel2 where f2: "tick_one now clk (k, r) (q1, rel1) = (q2, rel2)" by fastforce
  let ?p = "tick_status now r q1"
  have st: "sess ?p r = ticked q (sess q r) now"
    by (simp add: tick_status_sess sess1 ticked_cong [OF cfg1])
  have cfgp: "q_config ?p = q_config q" by (simp add: cfg1)
  have due: "spot_due ?p (sess ?p r) now = spot_due q (ticked q (sess q r) now) now"
    by (simp add: spot_due_def st release_deadline_cong [OF cfgp])
  have q2: "q2 = (if spot_due q (ticked q (sess q r) now) now then release_spot clk r k ?p else ?p)"
    using tick_one_fst [of now clk k r q1 rel1] f2 st held due by (simp add: Let_def)
  have rel2: "k \<in> fst ` set rel2 \<longleftrightarrow> spot_due q (ticked q (sess q r) now) now"
    using tick_one_released [of now clk k r q1 rel1] f2 st held due 1(3) by (simp add: Let_def)
  have quietp: "quiet ?p k"
    using 1(1) by (subst quiet_cong [of ?p q1]) (auto simp: same_for_def tick_status_def split: prod.split)
  let ?f = "upd_sess r (\<lambda>s. s\<lparr>s_spot_held := False, s_idle_since := None\<rparr>)
      (?p\<lparr>q_spots := dict_pop k (q_spots ?p)\<rparr>)\<lparr>q_sessions := dict_pop k (q_sessions ?p)\<rparr>"
  have rs: "release_spot clk r k ?p = try_promote clk ?f"
    using idle by (simp add: release_spot_def Let_def sess1)
  have sf: "same_for k ?f (release_spot clk r k ?p)"
    unfolding rs by (rule try_promote_same_for) (use quietp in \<open>auto simp: quiet_def\<close>)
  have quiet2: "quiet q2 k" using sf quietp by (simp add: q2 same_for_def)
  have keys2: "s_key (sess q2 x) = s_key (sess q x)" for x
    using sf 1(1) by (simp add: q2 same_for_def)
  have 3: "same_for k q2 q'" "dict_get (q_sessions q') k = dict_get (q_sessions q2) k"
    "k \<in> fst ` set released \<longleftrightarrow> k \<in> fst ` set rel2"
    using fold_tick_same_for [OF quiet2, of vs now clk rel2] others keys2 f1 f2 tick
    by (auto simp: tick_def split split: prod.splits)
  show ?thesis
  proof (cases "spot_due q (ticked q (sess q r) now) now")
    case True
    then have "dict_get (q_spots q2) k = None" "dict_get (q_sessions q2) k = None"
      using sf by (simp_all add: q2 same_for_def rs)
    then show ?thesis using True 3 rel2 by (simp add: same_for_def dict_has_def)
  next
    case False
    then have p: "q2 = ?p" by (simp add: q2)
    have "dict_has (q_spots ?p) k" using 1(1) has by (simp add: same_for_def dict_has_def)
    moreover have "sess q' r = sess q2 r"
      using 3(1) keys2 [of r] key by (simp add: same_for_def)
    ultimately show ?thesis
      using False 3 rel2 1(2) st unfolding p by (simp add: same_for_def dict_has_def)
  qed
qed

section \<open>Consequences for the clients\<close>

lemma spot_due_unknown:
  "s_client s = unknown \<Longrightarrow> s_inflight s \<le> 0 \<Longrightarrow>
   spot_due q (ticked q s now) now \<longleftrightarrow>
     s_last_request_at s + max (q_busy_window q) (q_session_expiry q) \<le> now"
  by (simp add: spot_due_def release_deadline_def)

text \<open>
  The surrender rule of parity item Q5, for a session with nothing in flight. A session of
  an unknown client gives its spot up when both the busy window and the expiry have
  passed since its last request. A known client whose fresh report says it waits for
  user input gives it up at once, whatever the flags; one that freshly reports busy or
  retry keeps it; one that freshly reports idle after its last request gives it up at
  once under immediate idle release; and in every other case a known client keeps the
  spot until it has been idle for the whole expiry.
\<close>

theorem surrender_rules:
  assumes "s_inflight s \<le> 0" and "0 \<le> q_session_expiry q"
    and "\<forall>i. s_idle_since s = Some i \<longrightarrow> i \<le> now"
  shows "(s_client s = unknown \<longrightarrow>
      (spot_due q (ticked q s now) now \<longleftrightarrow>
        s_last_request_at s + q_busy_window q \<le> now \<and> s_last_request_at s + q_session_expiry q \<le> now)) \<and>
    (s_client s \<noteq> unknown \<and> fresh_client_report s now \<longrightarrow>
      (s_client_status s = Some ''waiting'' \<longrightarrow> spot_due q (ticked q s now) now) \<and>
      (s_client_status s \<in> {Some ''busy'', Some ''retry''} \<longrightarrow> \<not> spot_due q (ticked q s now) now) \<and>
      (s_client_status s = Some ''idle'' \<and> q_immediate_idle_release q \<and>
         s_last_request_at s < s_client_status_at s \<longrightarrow> spot_due q (ticked q s now) now)) \<and>
    (s_client s \<noteq> unknown \<and> spot_due q (ticked q s now) now \<longrightarrow>
      s_client_status s = Some ''waiting'' \<and> fresh_client_report s now \<or>
      s_client_status s = Some ''idle'' \<and> fresh_client_report s now \<and> q_immediate_idle_release q \<or>
      (case s_idle_since s of None \<Rightarrow> q_session_expiry q \<le> 0 | Some i \<Rightarrow> i + q_session_expiry q \<le> now))"
proof (intro conjI impI)
  show "spot_due q (ticked q s now) now \<longleftrightarrow>
      s_last_request_at s + q_busy_window q \<le> now \<and> s_last_request_at s + q_session_expiry q \<le> now"
    if "s_client s = unknown"
    using spot_due_unknown [OF that assms(1), of q now] by (simp add: max_def) linarith
next
  assume known: "s_client s \<noteq> unknown \<and> fresh_client_report s now"
  have fresh: "s_client_status s \<noteq> None" "0 < s_client_status_at s"
    "now - s_client_status_at s < status_unreachable_grace"
    using known by (simp_all add: fresh_client_report_def)
  show "spot_due q (ticked q s now) now" if "s_client_status s = Some ''waiting''"
    using known that fresh assms
    by (auto simp: spot_due_def release_deadline_def ticked_def current_status_def
        fresh_client_report_def split: option.splits)
  show "\<not> spot_due q (ticked q s now) now" if "s_client_status s \<in> {Some ''busy'', Some ''retry''}"
    using known that fresh assms(1)
    by (auto simp: spot_due_def release_deadline_def ticked_def current_status_def)
  show "spot_due q (ticked q s now) now"
    if "s_client_status s = Some ''idle'' \<and> q_immediate_idle_release q \<and>
      s_last_request_at s < s_client_status_at s"
    using known that fresh assms
    by (auto simp: spot_due_def release_deadline_def ticked_def current_status_def
        fresh_client_report_def split: option.splits)
next
  assume "s_client s \<noteq> unknown \<and> spot_due q (ticked q s now) now"
  then show "s_client_status s = Some ''waiting'' \<and> fresh_client_report s now \<or>
      s_client_status s = Some ''idle'' \<and> fresh_client_report s now \<and> q_immediate_idle_release q \<or>
      (case s_idle_since s of None \<Rightarrow> q_session_expiry q \<le> 0 | Some i \<Rightarrow> i + q_session_expiry q \<le> now)"
    using assms(1)
    by (auto simp: spot_due_def release_deadline_def ticked_def current_status_def
        fresh_client_report_def split: option.splits if_splits)
qed

section \<open>Reachable queues\<close>


section \<open>Witnesses\<close>


lemma try_promote_work_conserving_witness:
  "q_queue (try_promote 7 ab_queue) = [1] \<and> \<not> eligible (try_promote 7 ab_queue) 1"
proof -
  have "try_promote 7 ab_queue = ab_queue"
    by (simp add: ab_defs queue_op_simps)
  then show ?thesis
    using try_promote_work_conserving [OF ab_queue_eq(2), of 7 8] by (simp add: ab_queue_eq)
qed

lemma try_promote_fifo_witness:
  "List.find (eligible (ab_queue\<lparr>q_spots := []\<rparr>)) [1] = Some 1 \<and>
   1 \<notin> set (q_queue (try_promote 7 (ab_queue\<lparr>q_spots := []\<rparr>)))"
proof -
  have "eligible (ab_queue\<lparr>q_spots := []\<rparr>) 1"
    by (simp add: ab_defs queue_op_simps)
  then have "List.find (eligible (ab_queue\<lparr>q_spots := []\<rparr>)) [1] = Some 1" by simp
  then show ?thesis
    using try_promote_fifo [of "ab_queue\<lparr>q_spots := []\<rparr>" 1 7 1 1] by (simp add: ab_queue_eq)
qed

lemma ab_queue_ticked:
  "tick 70 70 ab_queue =
     ([], ab_queue\<lparr>q_heap := (q_heap one_spot)
        (0 := ab_session_a\<lparr>s_status := ''idle'', s_status_detail := [], s_idle_since := Some 70\<rparr>,
         1 := ab_session_b\<lparr>s_status := ''idle'', s_status_detail := [], s_idle_since := Some 70\<rparr>)\<rparr>)"
  by (simp add: ab_defs queue_op_simps queue_tick_simps fun_upd_twist)

lemma tick_surrenders_due_spots_witness:
  "dict_has (q_spots (snd (tick 70 70 ab_queue))) (''claude'', ''a'') \<and>
   \<not> dict_has (q_spots (snd (tick 130 130 (snd (tick 70 70 ab_queue))))) (''claude'', ''a'')"
proof -
  let ?q = "snd (tick 70 70 ab_queue)"
  obtain R where inv: "q_inv R (\<lambda>_. 0) ?q"
    using tick_inv [OF ab_inv, of 70 70 "[]" ?q] ab_queue_ticked by auto
  have due: "spot_due ?q (ticked ?q (sess ?q 0) 130) 130"
    by (simp add: ab_queue_ticked ab_defs spot_due_def ticked_def queue_tick_simps init_queue_def
        new_session_def)
  show ?thesis
    using tick_surrenders_due_spots [OF inv, of "(''claude'', ''a'')" 0 130 130
        "fst (tick 130 130 ?q)" "snd (tick 130 130 ?q)"] due
    by (simp add: ab_queue_ticked ab_queue_eq ab_session_a_def new_session_def dict_has_def)
qed

lemma surrender_rules_witness:
  "spot_due ab_queue
     (ticked ab_queue (ab_session_a\<lparr>s_client_status := Some ''waiting'', s_client_status_at := 9\<rparr>) 12) 12 \<and>
   \<not> spot_due ab_queue
     (ticked ab_queue (ab_session_a\<lparr>s_client_status := Some ''busy'', s_client_status_at := 9\<rparr>) 12) 12"
  using surrender_rules [of "ab_session_a\<lparr>s_client_status := Some ''waiting'', s_client_status_at := 9\<rparr>"
      ab_queue 12]
    surrender_rules [of "ab_session_a\<lparr>s_client_status := Some ''busy'', s_client_status_at := 9\<rparr>"
      ab_queue 12]
  by (simp add: ab_defs new_session_def init_queue_def fresh_client_report_def unknown_def
      status_unreachable_grace_def)

end
