(* ===== verification/Relay_Servers_Props.thy ===== *)
theory Relay_Servers_Props
  imports Relay_Servers
begin

text \<open>
  Correctness of the server runtime: what the shutdown engine may do and what it may not, the
  spacing of wake-ups, the agreement of memory with the store, and the display state.
\<close>

section \<open>Frames\<close>

lemma await_backend_eq:
  "await_backend others f s = (fst (f (v_backend s)), others (s\<lparr>v_backend := snd (f (v_backend s))\<rparr>))"
  by (simp add: await_backend_def split_beta Let_def)

lemma await_store_eq:
  "await_store others f s = (fst (f (v_store s)), others (s\<lparr>v_store := snd (f (v_store s))\<rparr>))"
  by (simp add: await_store_def split_beta Let_def)

lemma still_id [simp]: "still i = (\<lambda>s. s)"
  by (rule ext) (simp add: still_def)

lemma later_still [simp]: "later k still = still"
  by (rule ext) (simp add: later_def)

text \<open>Interference that issues no power command.\<close>

definition commandless :: "'b interference \<Rightarrow> bool" where
  "commandless env \<longleftrightarrow> (\<forall>i s. v_log (env i s) = v_log s)"

lemma commandless_log: "commandless env \<Longrightarrow> v_log (env i s) = v_log s"
  by (simp add: commandless_def)

lemma commandless_later: "commandless env \<Longrightarrow> commandless (later k env)"
  by (simp add: commandless_def later_def)

lemma commandless_still: "commandless still"
  by (simp add: commandless_def)

lemma power_off_log:
  assumes "commandless env"
  shows "v_log (snd (server_power_off ops env reason by_whom now s)) =
    v_log s @ [CmdOff reason (v_owned s) (server_has_activity s)]"
  using commandless_log [OF assms]
  by (simp add: server_power_off_def snd_hbind await_backend_eq await_store_eq split: sum.split)

lemma power_on_log:
  assumes "commandless env"
  shows "v_log (snd (server_power_on ops env reason by_whom uid now s)) = v_log s @ [CmdOn reason now]"
  using commandless_log [OF assms]
  by (simp add: server_power_on_def snd_hbind await_backend_eq await_store_eq split: sum.split)

section \<open>The idle half of the shutdown engine\<close>

lemma idle_tick_log:
  fixes s :: "'b server" and ops :: "'b power_ops"
  assumes "commandless env"
  defines "s1 \<equiv> env 0 (s\<lparr>v_backend := snd (op_power_state ops (v_backend s))\<rparr>)"
  shows "v_log (snd (idle_off_tick ops env now s)) = v_log s \<or>
    v_log (snd (idle_off_tick ops env now s)) = v_log s @ [CmdOff ''idle_timeout'' True (server_has_activity s1)] \<and>
      v_owned s1 \<and> \<not> server_has_activity s \<and> shutdown_enabled_now s \<and>
      vc_idle_timeout (v_config s) < now - v_last_activity s \<and>
      fst (op_power_state ops (v_backend s)) = Inr PowerOn"
proof (cases "server_has_activity s \<or> \<not> shutdown_enabled_now s \<or>
    now - v_last_activity s \<le> vc_idle_timeout (v_config s)")
  case True
  then show ?thesis by (auto simp: idle_off_tick_def)
next
  case False
  have log1: "v_log s1 = v_log s" using commandless_log [OF assms(1)] by (simp add: s1_def)
  show ?thesis
  proof (cases "fst (op_power_state ops (v_backend s))")
    case (Inl x)
    then show ?thesis using False log1 by (simp add: idle_off_tick_def snd_hbind await_backend_eq s1_def)
  next
    case (Inr st)
    let ?h = "hbind (server_power_off ops (later 1 env) ''idle_timeout'' ''proxy'' now) (\<lambda>_. hret ())"
    have off: "v_log (snd (?h s1)) = v_log s @ [CmdOff ''idle_timeout'' (v_owned s1) (server_has_activity s1)]"
      using power_off_log [OF commandless_later [OF assms(1)], where s = s1] log1
      by (simp add: snd_hbind split: sum.split)
    have fin: "v_log (snd (hbind ?h (\<lambda>_. hmod (\<lambda>s. s\<lparr>v_last_activity := now\<rparr>)) s1)) = v_log (snd (?h s1))"
      by (simp add: snd_hbind split: sum.split)
    show ?thesis
    proof (cases "st = PowerOn \<and> v_owned s1")
      case True
      have "snd (idle_off_tick ops env now s) =
          snd (hbind ?h (\<lambda>_. hmod (\<lambda>s. s\<lparr>v_last_activity := now\<rparr>)) s1)"
        using False Inr True
        by (simp add: idle_off_tick_def snd_hbind await_backend_eq s1_def del: One_nat_def)
      then show ?thesis using off fin True False Inr by auto
    next
      case nf: False
      have "v_log (snd (idle_off_tick ops env now s)) = v_log s1"
        using False Inr nf
        by (cases "st = PowerOn") (simp_all add: idle_off_tick_def snd_hbind await_backend_eq s1_def)
      then show ?thesis using log1 by simp
    qed
  qed
qed

text \<open>
  The idle tick under any interference of other tasks that issue no power command of
  their own. It issues at most one command, a power-off; and if it does, then the server was
  owned at the instant of the command, and when the tick began it had no activity, auto-off
  was on, the idle timeout had passed, and the query verified it ON.
\<close>

theorem idle_tick_powers_off_only_owned:
  assumes "commandless env"
  shows "v_log (snd (idle_off_tick ops env now s)) = v_log s \<or>
    (\<exists>active. v_log (snd (idle_off_tick ops env now s)) = v_log s @ [CmdOff ''idle_timeout'' True active] \<and>
      \<not> server_has_activity s \<and> shutdown_enabled_now s \<and>
      vc_idle_timeout (v_config s) < now - v_last_activity s \<and>
      fst (op_power_state ops (v_backend s)) = Inr PowerOn)"
  using idle_tick_log [OF assms, of ops now s] by blast

text \<open>
  C28: The window of the idle tick. The tick looks for activity before it awaits the power state
  and not after. If traffic arrives during that await, the power-off is issued all the
  same, to a server that is serving.
\<close>

theorem idle_tick_races_with_traffic:
  assumes "commandless env" and "\<forall>x. server_has_activity (env 0 x) \<and> v_owned (env 0 x) = v_owned x"
    and "v_owned s" and "\<not> server_has_activity s" and "shutdown_enabled_now s"
    and "vc_idle_timeout (v_config s) < now - v_last_activity s"
    and "fst (op_power_state ops (v_backend s)) = Inr PowerOn"
  shows "v_log (snd (idle_off_tick ops env now s)) = v_log s @ [CmdOff ''idle_timeout'' True True]"
proof -
  let ?s1 = "env 0 (s\<lparr>v_backend := snd (op_power_state ops (v_backend s))\<rparr>)"
  have "v_log ?s1 = v_log s" using commandless_log [OF assms(1)] by simp
  moreover have "v_owned ?s1" "server_has_activity ?s1" using assms(2,3) by simp_all
  ultimately show ?thesis
    using power_off_log [OF commandless_later [OF assms(1)], where s = ?s1] assms(4-7)
    by (simp add: idle_off_tick_def snd_hbind await_backend_eq del: One_nat_def split: sum.split)
qed

section \<open>The server as a machine\<close>

text \<open>
  Handlers run one after another here (interference \<open>still\<close>); a manual action comes from the
  monitor, with a reason of its own.
\<close>

datatype server_event =
    EvWake string time
  | EvManualOn string string time
  | EvManualOff string time
  | EvTraffic string time
  | EvReady time
  | EvOverride bool time
  | EvSync time
  | EvShutdown time time
  | EvEndpoints "endpoint_view list"

primrec server_step ::
    "'b power_ops \<Rightarrow> (string \<Rightarrow> time \<Rightarrow> time) \<Rightarrow> server_event \<Rightarrow> 'b server \<Rightarrow> 'b server" where
  "server_step ops prev (EvWake uid now) s = snd (maybe_power_on ops still ''request_wake'' uid now s)"
| "server_step ops prev (EvManualOn reason uid now) s =
     snd (server_power_on ops still reason ''monitor-ui'' uid now s)"
| "server_step ops prev (EvManualOff reason now) s =
     snd (server_power_off ops still reason ''monitor-ui'' now s)"
| "server_step ops prev (EvTraffic uid now) s = snd (on_routed_traffic still uid now s)"
| "server_step ops prev (EvReady now) s = snd (note_service_ready still now s)"
| "server_step ops prev (EvOverride b now) s = snd (set_shutdown_override still b now s)"
| "server_step ops prev (EvSync now) s = loop_pass (power_sync_tick ops still now) s"
| "server_step ops prev (EvShutdown now clk) s = loop_pass (shutdown_tick prev ops still now clk) s"
| "server_step ops prev (EvEndpoints eps) s = s\<lparr>v_endpoints := eps\<rparr>"

text \<open>What the handlers leave alone.\<close>

lemma set_state_frame [simp]:
  "v_log (set_state st now s) = v_log s" "v_config (set_state st now s) = v_config s"
  "v_owned (set_state st now s) = v_owned s" "v_store (set_state st now s) = v_store s"
  "v_endpoints (set_state st now s) = v_endpoints s"
  "v_shutdown_override (set_state st now s) = v_shutdown_override s"
  "v_cycle_id (set_state st now s) = v_cycle_id s"
  "v_last_power_on_attempt (set_state st now s) = v_last_power_on_attempt s"
  "v_power_on_cooldown (set_state st now s) = v_power_on_cooldown s"
  "v_power_state (set_state st now s) = st" "v_backend (set_state st now s) = v_backend s"
  by (simp_all add: set_state_def Let_def)

text \<open>The fields that a handler without interference changes besides the log.\<close>

definition same_cooldown :: "'b server \<Rightarrow> 'b server \<Rightarrow> bool" where
  "same_cooldown s s' \<longleftrightarrow> v_config s' = v_config s \<and> v_power_on_cooldown s' = v_power_on_cooldown s \<and>
     v_last_power_on_attempt s' = v_last_power_on_attempt s"

lemma same_cooldown_trans: "same_cooldown s t \<Longrightarrow> same_cooldown t u \<Longrightarrow> same_cooldown s u"
  by (simp add: same_cooldown_def)

lemma power_off_keeps_cooldown: "same_cooldown s (snd (server_power_off ops still reason by_whom now s))"
  by (simp add: same_cooldown_def server_power_off_def snd_hbind await_backend_eq await_store_eq split: sum.split)

lemma power_on_keeps_cooldown: "same_cooldown s (snd (server_power_on ops still reason by_whom uid now s))"
  by (simp add: same_cooldown_def server_power_on_def snd_hbind await_backend_eq await_store_eq split: sum.split)

lemma small_handlers_cooldown:
  "same_cooldown s (snd (on_routed_traffic still uid now s))"
  "same_cooldown s (snd (note_service_ready still now s))"
  "same_cooldown s (snd (set_shutdown_override still b now s))"
  "same_cooldown s (snd (power_sync_tick ops still now s))"
  by (simp_all add: same_cooldown_def on_routed_traffic_def note_service_ready_def set_shutdown_override_def
      power_sync_tick_def snd_hbind await_backend_eq await_store_eq Let_def split: sum.split prod.split)

lemma small_handlers_log:
  "v_log (snd (on_routed_traffic still uid now s)) = v_log s"
  "v_log (snd (note_service_ready still now s)) = v_log s"
  "v_log (snd (set_shutdown_override still b now s)) = v_log s"
  "v_log (snd (power_sync_tick ops still now s)) = v_log s"
  by (simp_all add: on_routed_traffic_def note_service_ready_def set_shutdown_override_def
      power_sync_tick_def snd_hbind await_backend_eq await_store_eq Let_def split: sum.split prod.split)

text \<open>A relation between states that no await breaks: what a whole handler keeps follows from what
  its own updates keep.\<close>

locale kept_handlers = kept_relation P for P :: "'b server \<Rightarrow> 'b server \<Rightarrow> bool" +
  assumes kept_backend: "P s (s\<lparr>v_backend := b\<rparr>)"
begin

lemma keeps_await_backend: "P s (snd (await_backend (\<lambda>s. s) g s))"
  by (simp add: await_backend_eq kept_backend)

lemma keeps_can_power_off: "P s (snd (can_power_off ops still s))"
proof -
  have "P s (snd (hbind (await_backend (\<lambda>s. s) (op_power_state ops)) (\<lambda>actual. hret (actual = PowerOn)) s))"
    by (intro keeps_bind keeps_await_backend keeps_hret)
  then show ?thesis by (simp add: can_power_off_def kept_refl)
qed

text \<open>The two halves of the shutdown engine keep what a power-off and their own bookkeeping keep.\<close>

lemma keeps_scheduled_off:
  assumes "\<And>s. P s (snd (server_power_off ops still ''schedule'' ''proxy'' now s))"
  shows "P s (snd (scheduled_off ops still now s))"
proof -
  have "P s (snd ((if can then hbind (server_power_off ops still ''schedule'' ''proxy'' now) (\<lambda>_. hret ())
      else hret ()) s))" for can s
    by (simp add: kept_refl keeps_then_return [OF assms])
  then show ?thesis
    unfolding scheduled_off_def later_still by (rule keeps_bind [OF keeps_can_power_off])
qed

lemma keeps_schedule_tick:
  assumes "\<And>s. P s (snd (server_power_off ops still ''schedule'' ''proxy'' now s))"
    and "\<And>s d. P s (s\<lparr>v_schedule_deferred := d\<rparr>)" and "\<And>s t. P s (s\<lparr>v_last_fired_cron := t\<rparr>)"
  shows "P s (snd (schedule_off_tick prev ops still now s))"
proof -
  have both: "P s (s\<lparr>v_schedule_deferred := d, v_last_fired_cron := t\<rparr>)" for s d t
    using kept_trans [OF assms(2) [of s d] assms(3)] by simp
  have both': "P s (s\<lparr>v_last_fired_cron := t, v_schedule_deferred := d\<rparr>)" for s d t
    using kept_trans [OF assms(3) [of s t] assms(2)] by simp
  have "P s (snd (hbind (scheduled_off ops still now) (\<lambda>_. hmod f) s))" if "\<And>s. P s (f s)" for f
    by (rule keeps_bind, rule keeps_scheduled_off, rule assms(1)) (simp add: that)
  then show ?thesis
    using assms(2,3) both both' by (simp add: schedule_off_tick_def Let_def kept_refl split: option.split)
qed

lemma keeps_idle_tick:
  assumes "\<And>s. P s (snd (server_power_off ops still ''idle_timeout'' ''proxy'' now s))"
    and "\<And>s. P s (s\<lparr>v_last_activity := now\<rparr>)"
  shows "P s (snd (idle_off_tick ops still now s))"
proof -
  let ?off = "\<lambda>s. if v_owned s
      then hbind (server_power_off ops still ''idle_timeout'' ''proxy'' now) (\<lambda>_. hret ()) s else (Inr (), s)"
  have 1: "P s (snd (?off s))" for s
    by (simp add: kept_refl keeps_then_return [OF assms(1)])
  have 2: "P s (snd (hbind ?off (\<lambda>_. hmod (\<lambda>s. s\<lparr>v_last_activity := now\<rparr>)) s))" for s
    by (rule keeps_bind, rule 1) (simp add: assms(2))
  have "P s (snd (hbind (await_backend (\<lambda>s. s) (op_power_state ops)) (\<lambda>actual.
      if actual = PowerOn then hbind ?off (\<lambda>_. hmod (\<lambda>s. s\<lparr>v_last_activity := now\<rparr>)) else hret ()) s))"
    by (rule keeps_bind, rule keeps_await_backend) (simp add: 2 kept_refl)
  then show ?thesis
    unfolding idle_off_tick_def later_still by (simp add: assms(2) kept_refl)
qed

lemma keeps_shutdown_tick:
  assumes "\<And>s reason. P s (snd (server_power_off ops still reason ''proxy'' now s))"
    and "\<And>s reason. P s (snd (server_power_off ops still reason ''proxy'' clk s))"
    and "\<And>s d. P s (s\<lparr>v_schedule_deferred := d\<rparr>)" and "\<And>s t. P s (s\<lparr>v_last_fired_cron := t\<rparr>)"
    and "\<And>s. P s (s\<lparr>v_last_activity := clk\<rparr>)"
  shows "P s (snd (shutdown_tick prev ops still now clk s))"
  unfolding shutdown_tick_def later_still
  by (rule keeps_bind, rule keeps_schedule_tick [OF assms(1,3,4)], rule keeps_idle_tick [OF assms(2,5)])

end

text \<open>Relations that do not look at the store either.\<close>

locale kept = kept_handlers +
  assumes kept_store: "P s (s\<lparr>v_store := x\<rparr>)"
begin

lemma keeps_await_store: "P s (snd (await_store (\<lambda>s. s) g s))"
  by (simp add: await_store_eq kept_store)

lemmas keeps = keeps_bind keeps_await_store keeps_await_backend keeps_hret keeps_hmod kept_refl

end

text \<open>A server nobody adopts: ownership is only ever lost.\<close>

definition loses_ownership :: "'b server \<Rightarrow> 'b server \<Rightarrow> bool" where
  "loses_ownership s s' \<longleftrightarrow> v_config s' = v_config s \<and> (v_owned s' \<longrightarrow> v_owned s)"

interpretation cool: kept same_cooldown
  by unfold_locales (simp_all add: same_cooldown_def)

interpretation unown: kept loses_ownership
  by unfold_locales (auto simp: loses_ownership_def)

lemma power_off_loses: "loses_ownership s (snd (server_power_off ops still reason by_whom now s))"
  unfolding server_power_off_def still_id
  by (intro unown.keeps_bind unown.keeps_hmod unown.keeps)
     (auto simp: loses_ownership_def snd_hbind await_store_eq)

lemma small_updates_keep:
  "same_cooldown s (s\<lparr>v_schedule_deferred := d\<rparr>)" "loses_ownership s (s\<lparr>v_schedule_deferred := d\<rparr>)"
  "same_cooldown s (s\<lparr>v_last_fired_cron := t\<rparr>)" "loses_ownership s (s\<lparr>v_last_fired_cron := t\<rparr>)"
  "same_cooldown s (s\<lparr>v_last_activity := a\<rparr>)" "loses_ownership s (s\<lparr>v_last_activity := a\<rparr>)"
  by (simp_all add: same_cooldown_def loses_ownership_def)

lemma schedule_tick_loses: "loses_ownership s (snd (schedule_off_tick prev ops still now s))"
  by (rule unown.keeps_schedule_tick) (simp_all add: power_off_loses small_updates_keep)

lemma shutdown_tick_keeps:
  "same_cooldown s (snd (shutdown_tick prev ops still now clk s))"
  "loses_ownership s (snd (shutdown_tick prev ops still now clk s))"
  by (rule cool.keeps_shutdown_tick; simp add: power_off_keeps_cooldown small_updates_keep)
     (rule unown.keeps_shutdown_tick; simp add: power_off_loses small_updates_keep)

lemma can_power_off_still:
  "\<exists>b. snd (can_power_off ops still s) = s\<lparr>v_backend := b\<rparr>"
  "fst (can_power_off ops still s) = Inr True \<Longrightarrow> v_owned s"
proof -
  have "snd (can_power_off ops still s) = s \<or>
      snd (can_power_off ops still s) = s\<lparr>v_backend := snd (op_power_state ops (v_backend s))\<rparr>"
    by (simp add: can_power_off_def snd_hbind await_backend_eq split: sum.split)
  moreover have "s = s\<lparr>v_backend := v_backend s\<rparr>" by simp
  ultimately show "\<exists>b. snd (can_power_off ops still s) = s\<lparr>v_backend := b\<rparr>" by metis
  show "fst (can_power_off ops still s) = Inr True \<Longrightarrow> v_owned s"
    by (auto simp: can_power_off_def split: if_splits)
qed

lemma scheduled_off_log:
  "v_log (snd (scheduled_off ops still now s)) = v_log s \<or>
   v_log (snd (scheduled_off ops still now s)) = v_log s @ [CmdOff ''schedule'' True (server_has_activity s)]"
proof -
  obtain b where b: "snd (can_power_off ops still s) = s\<lparr>v_backend := b\<rparr>"
    using can_power_off_still(1) [of ops s] by blast
  have owned: "fst (can_power_off ops still s) = Inr True \<Longrightarrow> v_owned s" by (rule can_power_off_still(2))
  have "v_log (snd (server_power_off ops still ''schedule'' ''proxy'' now (s\<lparr>v_backend := b\<rparr>))) =
      v_log s @ [CmdOff ''schedule'' (v_owned s) (server_has_activity s)]"
    using power_off_log [OF commandless_still, of ops "''schedule''" "''proxy''" now "s\<lparr>v_backend := b\<rparr>"]
    by (simp add: server_has_activity_def)
  then show ?thesis
    using b owned by (auto simp: scheduled_off_def snd_hbind split: sum.split)
qed

lemma schedule_tick_log:
  "v_log (snd (schedule_off_tick prev ops still now s)) = v_log s \<or>
   v_log (snd (schedule_off_tick prev ops still now s)) = v_log s @ [CmdOff ''schedule'' True False]"
proof -
  have "v_log (snd (hbind (scheduled_off ops still now) (\<lambda>_. hmod f) s)) = v_log (snd (scheduled_off ops still now s))"
    if "\<And>x. v_log (f x) = v_log x" for f
    using that by (simp add: snd_hbind split: sum.split)
  then show ?thesis
    using scheduled_off_log [of ops now s]
    by (auto simp: schedule_off_tick_def Let_def split: option.split)
qed

lemma idle_tick_log_still:
  "v_log (snd (idle_off_tick ops still now s)) = v_log s \<or>
   v_log (snd (idle_off_tick ops still now s)) = v_log s @ [CmdOff ''idle_timeout'' True False]"
  using idle_tick_log [OF commandless_still, of ops now s] by (auto simp: server_has_activity_def)

lemma shutdown_tick_state:
  "snd (shutdown_tick prev ops still now clk s) =
     (let s1 = snd (schedule_off_tick prev ops still now s) in
      case fst (schedule_off_tick prev ops still now s) of
        Inl _ \<Rightarrow> s1 | Inr _ \<Rightarrow> snd (idle_off_tick ops still clk s1))"
  by (simp add: shutdown_tick_def snd_hbind Let_def)

text \<open>The commands the shutdown engine adds to the log in one pass, all of them sound.\<close>

lemma shutdown_tick_log:
  "\<exists>cs. v_log (snd (shutdown_tick prev ops still now clk s)) = v_log s @ cs \<and>
     set cs \<subseteq> {CmdOff ''schedule'' True False, CmdOff ''idle_timeout'' True False}"
proof -
  let ?s1 = "snd (schedule_off_tick prev ops still now s)"
  have 1: "\<exists>cs. v_log ?s1 = v_log s @ cs \<and> set cs \<subseteq> {CmdOff ''schedule'' True False}"
    using schedule_tick_log [of prev ops now s] by auto
  have 2: "\<exists>cs. v_log (snd (idle_off_tick ops still clk ?s1)) = v_log ?s1 @ cs \<and>
      set cs \<subseteq> {CmdOff ''idle_timeout'' True False}"
    using idle_tick_log_still [of ops clk ?s1] by auto
  show ?thesis
    using 1 2 by (auto simp: shutdown_tick_state Let_def split: sum.split)
qed

section \<open>What the engine may do\<close>

fun engine_ok :: "power_command \<Rightarrow> bool" where
  "engine_ok (CmdOff reason owned active) = (reason \<in> {''idle_timeout'', ''schedule''} \<longrightarrow> owned \<and> \<not> active)"
| "engine_ok (CmdOn reason t) = True"

fun wake_time :: "power_command \<Rightarrow> time list" where
  "wake_time (CmdOn reason t) = (if reason = ''request_wake'' then [t] else [])"
| "wake_time (CmdOff reason owned active) = []"

definition wake_times :: "'b server \<Rightarrow> time list" where
  "wake_times s = concat (map wake_time (v_log s))"

definition spaced :: "time \<Rightarrow> time list \<Rightarrow> bool" where
  "spaced gap ts \<longleftrightarrow> sorted_wrt (\<lambda>a b. a + gap < b) ts"

definition server_inv :: "'b server \<Rightarrow> bool" where
  "server_inv s \<longleftrightarrow> 0 \<le> v_power_on_cooldown s \<and> (\<forall>c \<in> set (v_log s). engine_ok c) \<and>
     spaced (v_power_on_cooldown s) (wake_times s) \<and>
     (\<forall>t \<in> set (wake_times s). t \<le> v_last_power_on_attempt s)"

primrec server_guard :: "server_event \<Rightarrow> 'b server \<Rightarrow> bool" where
  "server_guard (EvWake uid now) s = True"
| "server_guard (EvManualOn reason uid now) s = (reason \<noteq> ''request_wake'')"
| "server_guard (EvManualOff reason now) s = (reason \<notin> {''idle_timeout'', ''schedule''})"
| "server_guard (EvTraffic uid now) s = True"
| "server_guard (EvReady now) s = True"
| "server_guard (EvOverride b now) s = True"
| "server_guard (EvSync now) s = True"
| "server_guard (EvShutdown now clk) s = True"
| "server_guard (EvEndpoints eps) s = True"

lemma server_inv_silent:
  "server_inv s \<Longrightarrow> same_cooldown s s' \<Longrightarrow> v_log s' = v_log s \<Longrightarrow> server_inv s'"
  by (simp add: server_inv_def same_cooldown_def wake_times_def)

lemma server_inv_commands:
  assumes "server_inv s" and "same_cooldown s s'" and "v_log s' = v_log s @ cs"
    and "\<And>c. c \<in> set cs \<Longrightarrow> engine_ok c \<and> wake_time c = []"
  shows "server_inv s'"
proof -
  have "concat (map wake_time cs) = []" using assms(4) by (induction cs) auto
  then have "wake_times s' = wake_times s" using assms(3) by (simp add: wake_times_def)
  then show ?thesis using assms by (auto simp: server_inv_def same_cooldown_def)
qed

lemma server_inv_wake:
  assumes inv: "server_inv s" and due: "v_power_on_cooldown s < now - v_last_power_on_attempt s"
    and s': "v_log s' = v_log s @ [CmdOn ''request_wake'' now]" "v_last_power_on_attempt s' = now"
      "v_power_on_cooldown s' = v_power_on_cooldown s"
  shows "server_inv s'"
proof -
  have "\<forall>t \<in> set (wake_times s). t + v_power_on_cooldown s < now"
    using inv due by (force simp: server_inv_def)
  moreover have "wake_times s' = wake_times s @ [now]" by (simp add: wake_times_def s')
  moreover have "0 \<le> v_power_on_cooldown s" using inv by (simp add: server_inv_def)
  ultimately show ?thesis
    using inv s' by (auto simp: server_inv_def spaced_def sorted_wrt_append)
qed

lemma server_step_inv:
  assumes inv: "server_inv s" and g: "server_guard e s"
  shows "server_inv (server_step ops prev e s)"
proof (cases e)
  case (EvWake uid now)
  show ?thesis
  proof (cases "now - v_last_power_on_attempt s \<le> v_power_on_cooldown s")
    case True
    then show ?thesis using inv EvWake by (simp add: maybe_power_on_def)
  next
    case False
    let ?s = "s\<lparr>v_last_power_on_attempt := now\<rparr>"
    have "v_log (server_step ops prev e s) = v_log s @ [CmdOn ''request_wake'' now]"
      using False EvWake power_on_log [OF commandless_still, of ops "''request_wake''" "''proxy''" uid now ?s]
      by (simp add: maybe_power_on_def)
    moreover have "same_cooldown ?s (server_step ops prev e s)"
      using False EvWake power_on_keeps_cooldown [of ?s ops] by (simp add: maybe_power_on_def)
    moreover have "v_power_on_cooldown s < now - v_last_power_on_attempt s" using False by simp
    ultimately show ?thesis
      by (intro server_inv_wake [OF inv, of now]) (simp_all add: same_cooldown_def)
  qed
next
  case (EvManualOn reason uid now)
  then show ?thesis
    using g power_on_log [OF commandless_still, of ops reason "''monitor-ui''" uid now s]
    by (intro server_inv_commands [OF inv, where cs = "[CmdOn reason now]"])
       (auto simp: power_on_keeps_cooldown)
next
  case (EvManualOff reason now)
  then show ?thesis
    using g power_off_log [OF commandless_still, of ops reason "''monitor-ui''" now s]
    by (intro server_inv_commands [OF inv, where cs = "[CmdOff reason (v_owned s) (server_has_activity s)]"])
       (auto simp: power_off_keeps_cooldown)
next
  case (EvShutdown now clk)
  obtain cs where "v_log (snd (shutdown_tick prev ops still now clk s)) = v_log s @ cs"
    "set cs \<subseteq> {CmdOff ''schedule'' True False, CmdOff ''idle_timeout'' True False}"
    using shutdown_tick_log [of prev ops now clk s] by blast
  then show ?thesis
    using EvShutdown by (intro server_inv_commands [OF inv, where cs = cs])
      (auto simp: loop_pass_def shutdown_tick_keeps)
next
  case (EvEndpoints eps)
  then show ?thesis using inv by (simp add: server_inv_def wake_times_def)
qed (auto simp: loop_pass_def intro: server_inv_silent [OF inv] small_handlers_cooldown small_handlers_log)

interpretation sv: machine "server_step ops prev" server_guard server_inv for ops :: "'b power_ops" and prev
  by unfold_locales (rule server_step_inv)


section \<open>Servers the proxy does not own\<close>

text \<open>No power-on by the proxy, and no adoption.\<close>

definition hands_off :: "server_event \<Rightarrow> 'b server \<Rightarrow> bool" where
  "hands_off e s = (case e of EvWake _ _ \<Rightarrow> False | EvManualOn _ _ _ \<Rightarrow> False | EvManualOff _ _ \<Rightarrow> False | _ \<Rightarrow> True)"

definition unowned_inv :: "'b server \<Rightarrow> bool" where
  "unowned_inv s \<longleftrightarrow> \<not> v_owned s \<and> \<not> vc_adopt_on_traffic (v_config s) \<and> v_log s = []"

lemma unowned_traffic:
  "\<not> vc_adopt_on_traffic (v_config s) \<Longrightarrow> on_routed_traffic env uid now s = (Inr (), s\<lparr>v_last_activity := now\<rparr>)"
  by (simp add: on_routed_traffic_def Let_def)

lemma small_handlers_lose:
  "loses_ownership s (snd (note_service_ready still now s))"
  "loses_ownership s (snd (set_shutdown_override still b now s))"
  "loses_ownership s (snd (power_sync_tick ops still now s))"
  by (simp_all add: loses_ownership_def note_service_ready_def set_shutdown_override_def
      power_sync_tick_def snd_hbind await_backend_eq await_store_eq Let_def split: sum.split prod.split)

lemma loses_unowned: "unowned_inv s \<Longrightarrow> loses_ownership s s' \<Longrightarrow> v_log s' = v_log s \<Longrightarrow> unowned_inv s'"
  by (auto simp: unowned_inv_def loses_ownership_def)

lemma unowned_shutdown_silent:
  assumes "\<not> v_owned s"
  shows "v_log (snd (shutdown_tick prev ops still now clk s)) = v_log s"
proof -
  let ?s1 = "snd (schedule_off_tick prev ops still now s)"
  have "v_log ?s1 = v_log s" and unowned: "\<not> v_owned ?s1"
  proof -
    have "scheduled_off ops still now x = (Inr (), x)" if "\<not> v_owned x" for x
      using that by (simp add: scheduled_off_def can_power_off_def hbind_def hret_def)
    then show "v_log ?s1 = v_log s"
      using assms by (simp add: schedule_off_tick_def Let_def hbind_def hmod_def split: option.split)
    show "\<not> v_owned ?s1"
      using schedule_tick_loses [of s prev ops now] assms by (auto simp: loses_ownership_def)
  qed
  moreover have "v_log (snd (idle_off_tick ops still clk ?s1)) = v_log ?s1"
    using unowned by (simp add: idle_off_tick_def snd_hbind await_backend_eq split: sum.split)
  ultimately show ?thesis by (simp add: shutdown_tick_state Let_def split: sum.split)
qed

interpretation unowned: machine "server_step ops prev" hands_off unowned_inv for ops :: "'b power_ops" and prev
proof
  fix s :: "'b server" and e
  assume inv: "unowned_inv s" and g: "hands_off e s"
  have n: "\<not> v_owned s" "\<not> vc_adopt_on_traffic (v_config s)" using inv by (simp_all add: unowned_inv_def)
  show "unowned_inv (server_step ops prev e s)"
  proof (cases e)
    case (EvShutdown now clk)
    then show ?thesis
      using loses_unowned [OF inv shutdown_tick_keeps(2)] unowned_shutdown_silent [OF n(1)]
      by (simp add: loop_pass_def)
  next
    case (EvTraffic uid now)
    then show ?thesis using inv n by (simp add: unowned_traffic unowned_inv_def)
  next
    case (EvEndpoints eps)
    then show ?thesis using inv by (simp add: unowned_inv_def)
  qed (use g in \<open>auto simp: hands_off_def loop_pass_def
      intro: loses_unowned [OF inv] small_handlers_lose small_handlers_log\<close>)
qed

text \<open>
  A server the proxy did not bring up is left alone. Started unowned and configured not to be
  adopted by traffic, it receives no power command in any history in which nobody asks
  the proxy to power it on or off, whatever the schedule, the idle timeout and the polls say.
\<close>

theorem unowned_server_is_left_alone:
  assumes "unowned.reach ops prev (new_server config b st cooldown start) s"
    and "\<not> vc_adopt_on_traffic config"
  shows "v_log s = [] \<and> \<not> v_owned s"
proof -
  have "unowned_inv (new_server config b st cooldown start)"
    using assms(2) by (simp add: unowned_inv_def new_server_def)
  from unowned.reach_inv [OF assms(1) this] show ?thesis by (simp add: unowned_inv_def)
qed

section \<open>Memory and mirror\<close>

text \<open>The store is open, commits every write, and holds this row for the server.\<close>

definition mirrored :: "store \<Rightarrow> string \<Rightarrow> server_row \<Rightarrow> bool" where
  "mirrored st name row \<longleftrightarrow> so_open st \<and> (\<forall>i. so_outcome st i = DbCommit) \<and>
     dict_get (tb_servers (so_tables st)) name = Some row"

definition agrees :: "server_row \<Rightarrow> 'b server \<Rightarrow> bool" where
  "agrees row s \<longleftrightarrow> sr_owned row = v_owned s \<and> sr_shutdown_override row = v_shutdown_override s \<and>
     sr_cycle_id row = v_cycle_id s \<and> sr_power_state row = Some (state_value (v_power_state s))"

definition mirror :: "'b server \<Rightarrow> bool" where
  "mirror s \<longleftrightarrow> (\<exists>row. mirrored (v_store s) (server_name s) row \<and> agrees row s)"

lemma mirrored_update:
  assumes "mirrored st name row" and "v \<noteq> no_values"
  shows "\<exists>st'. set_server_runtime name v now st = (Inr (), st') \<and> mirrored st' name (apply_values v now row)"
proof -
  have c: "so_open st" "committed st" "\<And>i. so_outcome st i = DbCommit"
    "dict_get (tb_servers (so_tables st)) name = Some row"
    using assms(1) by (simp_all add: mirrored_def committed_def)
  show ?thesis
    unfolding set_server_runtime_def if_not_P [OF assms(2)] write_txn_commit [OF c(1,2)] drop_result_def
    using c by (simp add: mirrored_def)
qed

lemma mirrored_log:
  assumes "mirrored st name row"
  shows "\<exists>st'. log_power_event sv a r by_whom ok now st = (Inr (), st') \<and> mirrored st' name row"
proof -
  have c: "so_open st" "committed st" "\<And>i. so_outcome st i = DbCommit"
    "dict_get (tb_servers (so_tables st)) name = Some row"
    using assms by (simp_all add: mirrored_def committed_def)
  show ?thesis
    unfolding log_power_event_def write_txn_commit [OF c(1,2)] drop_result_def
    using c by (simp add: mirrored_def)
qed

text \<open>A memory update followed by its write and the audit row.\<close>

lemma mirror_write_then_log:
  assumes "mirrored (v_store s) (server_name s) row" and "v \<noteq> no_values" and "agrees (apply_values v now row) s"
  shows "mirror (snd (hbind (await_store (\<lambda>s. s) (set_server_runtime (server_name s) v now))
    (\<lambda>_ s. await_store (\<lambda>s. s) (log_power_event (server_name s) a r by_whom ok now') s) s))"
proof -
  obtain st1 where 1: "set_server_runtime (server_name s) v now (v_store s) = (Inr (), st1)"
    "mirrored st1 (server_name s) (apply_values v now row)" using mirrored_update [OF assms(1,2)] by blast
  obtain st2 where 2: "log_power_event (server_name s) a r by_whom ok now' st1 = (Inr (), st2)"
    "mirrored st2 (server_name s) (apply_values v now row)" using mirrored_log [OF 1(2)] by blast
  show ?thesis
    using 1 2 assms(3) by (auto simp: snd_hbind await_store_eq server_name_def mirror_def agrees_def)
qed

lemma mirror_write:
  assumes "mirrored (v_store s) (server_name s) row" and "v \<noteq> no_values" and "agrees (apply_values v now row) s"
  shows "mirror (snd (await_store (\<lambda>s. s) (set_server_runtime (server_name s) v now) s))"
  using mirrored_update [OF assms(1,2), of now] assms(3)
  by (auto simp: await_store_eq server_name_def mirror_def agrees_def)

lemma mirror_log:
  assumes "mirror s"
  shows "mirror (snd (await_store (\<lambda>s. s) (log_power_event (server_name s) a r by_whom ok now) s))"
proof -
  obtain row where row: "mirrored (v_store s) (server_name s) row" "agrees row s"
    using assms by (auto simp: mirror_def)
  obtain st where "log_power_event (server_name s) a r by_whom ok now (v_store s) = (Inr (), st)"
    "mirrored st (server_name s) row" using mirrored_log [OF row(1)] by blast
  then show ?thesis using row by (auto simp: await_store_eq server_name_def mirror_def agrees_def)
qed

lemma no_values_neq [simp]:
  "no_values\<lparr>rv_owned := Some b\<rparr> \<noteq> no_values"
  "no_values\<lparr>rv_owned := Some b, rv_cycle_id := Some c\<rparr> \<noteq> no_values"
  "no_values\<lparr>rv_owned := Some b, rv_shutdown_override := Some d, rv_cycle_id := Some c\<rparr> \<noteq> no_values"
  "no_values\<lparr>rv_power_state := Some p\<rparr> \<noteq> no_values"
  "no_values\<lparr>rv_shutdown_override := Some d\<rparr> \<noteq> no_values"
  by (simp_all add: no_values_def)

lemmas applied = agrees_def apply_values_def no_values_def server_name_def

text \<open>Updates of fields the mirror does not hold.\<close>

lemma mirror_frame:
  "mirror s \<Longrightarrow> v_config s' = v_config s \<Longrightarrow> v_store s' = v_store s \<Longrightarrow> v_owned s' = v_owned s \<Longrightarrow>
   v_shutdown_override s' = v_shutdown_override s \<Longrightarrow> v_cycle_id s' = v_cycle_id s \<Longrightarrow>
   v_power_state s' = v_power_state s \<Longrightarrow> mirror s'"
  by (simp add: mirror_def agrees_def server_name_def)

interpretation mirrors: kept_handlers "\<lambda>s s'. mirror s \<longrightarrow> mirror s'"
  by unfold_locales (auto intro: mirror_frame)

lemma mirror_power_off: "mirror s \<longrightarrow> mirror (snd (server_power_off ops still reason by_whom now s))"
proof -
  have ok: "mirror s \<longrightarrow> mirror (snd ((if ok then
        hbind (hmod (\<lambda>s. s\<lparr>v_owned := False\<rparr>)) (\<lambda>_ s. await_store (\<lambda>s. s)
          (set_server_runtime (server_name s) (no_values\<lparr>rv_owned := Some False\<rparr>) now) s)
      else hmod (\<lambda>s. s\<lparr>v_transient := None\<rparr>)) s))" for ok and s :: "'b server"
  proof (cases ok)
    case True
    show ?thesis
    proof
      assume "mirror s"
      then obtain row where row: "mirrored (v_store s) (server_name s) row" "agrees row s"
        by (auto simp: mirror_def)
      show "mirror (snd ((if ok then
        hbind (hmod (\<lambda>s. s\<lparr>v_owned := False\<rparr>)) (\<lambda>_ s. await_store (\<lambda>s. s)
          (set_server_runtime (server_name s) (no_values\<lparr>rv_owned := Some False\<rparr>) now) s)
      else hmod (\<lambda>s. s\<lparr>v_transient := None\<rparr>)) s))"
        using True row mirror_write [of "s\<lparr>v_owned := False\<rparr>" row "no_values\<lparr>rv_owned := Some False\<rparr>" now]
        by (simp add: applied)
    qed
  next
    case False
    then show ?thesis by (auto intro: mirror_frame)
  qed
  show ?thesis
    unfolding server_power_off_def still_id
    by (rule mirrors.keeps_bind, rule mirrors.keeps_hmod, auto intro: mirror_frame,
        rule mp [OF mirrors.keeps_bind], rule mirrors.keeps_await_backend,
        rule mirrors.keeps_bind, rule ok, rule mirrors.keeps_then_return, auto intro: mirror_log)
qed

lemma mirror_take_ownership:
  assumes "mirror s"
  shows "mirror (snd (await_store (\<lambda>s. s) (set_server_runtime (server_name s)
      (no_values\<lparr>rv_owned := Some True, rv_shutdown_override := Some None, rv_cycle_id := Some (Some uid)\<rparr>) now)
    (s\<lparr>v_owned := True, v_shutdown_override := None, v_cycle_id := Some uid\<rparr>)))"
proof -
  obtain row where row: "mirrored (v_store s) (server_name s) row" "agrees row s"
    using assms by (auto simp: mirror_def)
  let ?s = "s\<lparr>v_owned := True, v_shutdown_override := None, v_cycle_id := Some uid\<rparr>"
  show ?thesis
    using mirror_write [of ?s row "no_values\<lparr>rv_owned := Some True, rv_shutdown_override := Some None,
        rv_cycle_id := Some (Some uid)\<rparr>" now] row
    by (simp add: applied)
qed

lemma mirror_power_on: "mirror s \<longrightarrow> mirror (snd (server_power_on ops still reason by_whom uid now s))"
proof -
  have ok: "mirror s \<longrightarrow> mirror (snd ((if ok then
        hbind (hmod (\<lambda>s. s\<lparr>v_owned := True, v_shutdown_override := None, v_cycle_id := Some uid\<rparr>)) (\<lambda>_ s.
          await_store (\<lambda>s. s) (set_server_runtime (server_name s)
            (no_values\<lparr>rv_owned := Some True, rv_shutdown_override := Some None,
               rv_cycle_id := Some (v_cycle_id s)\<rparr>) now) s)
      else hmod (\<lambda>s. s\<lparr>v_transient := None\<rparr>)) s))" for ok and s :: "'b server"
    using mirror_take_ownership [of s uid now]
    by (cases ok) (auto simp: server_name_def intro: mirror_frame)
  show ?thesis
    unfolding server_power_on_def still_id
    by (rule mirrors.keeps_bind, rule mirrors.keeps_hmod, auto intro: mirror_frame,
        rule mp [OF mirrors.keeps_bind], rule mirrors.keeps_await_backend,
        rule mirrors.keeps_bind, rule ok, rule mirrors.keeps_then_return, auto intro: mirror_log)
qed

lemma mirror_traffic:
  assumes "mirror s"
  shows "mirror (snd (on_routed_traffic still uid now s))"
proof -
  obtain row where row: "mirrored (v_store s) (server_name s) row" "agrees row s"
    using assms by (auto simp: mirror_def)
  let ?cycle = "if v_cycle_id s = None then Some uid else v_cycle_id s"
  let ?s = "s\<lparr>v_last_activity := now, v_owned := True, v_cycle_id := ?cycle\<rparr>"
  have "mirror (snd (hbind (await_store (\<lambda>s. s) (set_server_runtime (server_name ?s)
        (no_values\<lparr>rv_owned := Some True, rv_cycle_id := Some ?cycle\<rparr>) now))
      (\<lambda>_ s. await_store (\<lambda>s. s) (log_power_event (server_name s) ''external_change'' ''adopted'' ''proxy'' True now) s) ?s))"
    by (rule mirror_write_then_log [where row = row]) (use row in \<open>auto simp: applied\<close>)
  moreover have "mirror (s\<lparr>v_last_activity := now\<rparr>)" by (rule mirror_frame [OF assms]) simp_all
  ultimately show ?thesis
    by (cases "v_cycle_id s") (simp_all add: on_routed_traffic_def Let_def)
qed

lemma mirror_state_change:
  assumes "mirror s"
  shows "mirror (snd (hbind (await_store (\<lambda>s. s) (set_server_runtime (server_name (set_state st now s))
        (no_values\<lparr>rv_power_state := Some (state_value st)\<rparr>) now))
      (\<lambda>_ s. await_store (\<lambda>s. s) (log_power_event (server_name s) a r by_whom True now) s) (set_state st now s)))"
proof -
  obtain row where row: "mirrored (v_store s) (server_name s) row" "agrees row s"
    using assms by (auto simp: mirror_def)
  show ?thesis
    by (rule mirror_write_then_log [where row = row]) (use row in \<open>auto simp: applied\<close>)
qed

lemma mirror_ready: "mirror s \<Longrightarrow> mirror (snd (note_service_ready still now s))"
  using mirror_state_change [of s PowerOn now] by (simp add: note_service_ready_def Let_def)

lemma mirror_override:
  assumes "mirror s"
  shows "mirror (snd (set_shutdown_override still b now s))"
proof -
  obtain row where row: "mirrored (v_store s) (server_name s) row" "agrees row s"
    using assms by (auto simp: mirror_def)
  let ?s = "s\<lparr>v_shutdown_override := Some b\<rparr>"
  have "mirror (snd (await_store (\<lambda>s. s) (set_server_runtime (server_name ?s)
      (no_values\<lparr>rv_shutdown_override := Some (Some b)\<rparr>) now) ?s))"
    by (rule mirror_write [where row = row]) (use row in \<open>auto simp: applied\<close>)
  then show ?thesis by (simp add: set_shutdown_override_def Let_def)
qed

lemma mirror_sync: "mirror s \<longrightarrow> mirror (snd (power_sync_tick ops still now s))"
  unfolding power_sync_tick_def still_id
proof (rule mirrors.keeps_bind, rule mirrors.keeps_await_backend, rule impI)
  fix st and s :: "'b server"
  assume "mirror s"
  then have m: "mirror (s\<lparr>v_last_sync_at := Some now\<rparr>)" by (rule mirror_frame) simp_all
  show "mirror (snd (let s = s\<lparr>v_last_sync_at := Some now\<rparr> in
      if st = v_power_state s then (Inr (), s)
      else let (action, initiated_by) =
             (if v_transient s \<noteq> None then (''state_sync'', ''proxy'') else (''external_change'', ''external''));
           s = set_state st now s
         in hbind (await_store (\<lambda>s. s) (set_server_runtime (server_name s)
                (no_values\<lparr>rv_power_state := Some (state_value st)\<rparr>) now)) (\<lambda>_ s.
            await_store (\<lambda>s. s) (log_power_event (server_name s) action ''poll'' initiated_by True now) s) s))"
    using m mirror_state_change [OF m, of st now] by (simp add: Let_def split: prod.split)
qed

lemma mirror_shutdown: "mirror s \<longrightarrow> mirror (snd (shutdown_tick prev ops still now clk s))"
  by (rule mirrors.keeps_shutdown_tick) (simp_all add: mirror_power_off, auto intro: mirror_frame)

interpretation synced: machine "server_step ops prev" "\<lambda>_ _. True" mirror for ops :: "'b power_ops" and prev
proof
  fix s :: "'b server" and e
  assume inv: "mirror s"
  show "mirror (server_step ops prev e s)"
  proof (cases e)
    case (EvWake uid now)
    have "mirror (s\<lparr>v_last_power_on_attempt := now\<rparr>)" by (rule mirror_frame [OF inv]) simp_all
    then show ?thesis using EvWake inv by (simp add: maybe_power_on_def mirror_power_on)
  next
    case (EvEndpoints eps)
    have "mirror (s\<lparr>v_endpoints := eps\<rparr>)" by (rule mirror_frame [OF inv]) simp_all
    then show ?thesis using EvEndpoints by simp
  qed (simp_all add: inv loop_pass_def mirror_power_on mirror_power_off mirror_traffic mirror_ready
      mirror_override mirror_sync mirror_shutdown)
qed

text \<open>
  C29: The store mirrors the memory. Starting from a runtime that agrees with its row, and while
  every write commits, after any history of handlers a restart at that point - reconcile,
  then restore into a fresh runtime - brings back exactly the ownership, the auto-off
  override, the cycle and the power state the server had.
\<close>

theorem restart_restores_memory:
  assumes "mirror s0" and "synced.reach ops prev s0 s"
  shows "\<exists>rows st row. reconcile_servers [server_name s] now (v_store s) = (Inr rows, st) \<and>
    dict_get rows (server_name s) = Some row \<and>
    v_owned (restore_row row (new_server config b st' cd start)) = v_owned s \<and>
    v_shutdown_override (restore_row row (new_server config b st' cd start)) = v_shutdown_override s \<and>
    v_cycle_id (restore_row row (new_server config b st' cd start)) = v_cycle_id s \<and>
    v_power_state (restore_row row (new_server config b st' cd start)) = v_power_state s"
proof -
  obtain row where row: "mirrored (v_store s) (server_name s) row" "agrees row s"
    using synced.reach_inv [OF assms(2,1)] by (auto simp: mirror_def)
  have c: "so_open (v_store s)" "committed (v_store s)"
    "dict_get (tb_servers (so_tables (v_store s))) (server_name s) = Some row"
    using row(1) by (simp_all add: mirrored_def committed_def)
  have parse: "parse_state_value (state_value p) = Some p" for p
    by (cases p) (simp_all add: parse_state_value_def state_value_def)
  have "reconcile_servers [server_name s] now (v_store s) =
      (Inr [(server_name s, row)], note_write_success ((v_store s)\<lparr>so_txn := so_txn (v_store s) + 1\<rparr>))"
    unfolding reconcile_servers_def write_txn_commit [OF c(1,2)]
    by (simp add: reconcile_row_def c(3))
  then show ?thesis
    using row(2) by (simp add: restore_row_def agrees_def parse Let_def)
qed

section \<open>The display state\<close>

text \<open>A command in flight for good: ON all along, and the transient of a power-on set.\<close>

definition stuck :: "'b server \<Rightarrow> bool" where
  "stuck s \<longleftrightarrow> v_power_state s = PowerOn \<and> v_transient s = Some transient_on"

definition quiet_event :: "server_event \<Rightarrow> 'b server \<Rightarrow> bool" where
  "quiet_event e s = (case e of EvWake _ _ \<Rightarrow> False | EvManualOn _ _ _ \<Rightarrow> False | EvManualOff _ _ \<Rightarrow> False
     | EvShutdown _ _ \<Rightarrow> False | _ \<Rightarrow> True)"

lemma stuck_frame:
  "stuck s \<Longrightarrow> v_power_state s' = v_power_state s \<Longrightarrow> v_transient s' = v_transient s \<Longrightarrow> stuck s'"
  by (simp add: stuck_def)

text \<open>
  The display state can outlive the action. If a power-on is accepted while the server is
  already ON - the cooldown re-issue of a wake whose service is still loading does that -
  then no poll that reads ON, no readiness report and no traffic ever clears the
  transient: the monitor goes on showing \<open>powering_on\<close> for a server that is on.
\<close>

theorem powering_on_display_sticks:
  fixes ops :: "'b power_ops" and s :: "'b server"
  assumes on: "\<And>b. fst (op_power_state ops b) = Inr PowerOn" and accepted: "\<And>b. fst (op_power_on ops b) = Inr True"
    and st: "v_power_state s = PowerOn"
    and es: "list_all (\<lambda>e. quiet_event e s) es"
  shows "display_state (sv.run ops prev es (snd (server_power_on ops still reason by_whom uid now s))) =
    ''powering_on'' \<and>
   v_power_state (sv.run ops prev es (snd (server_power_on ops still reason by_whom uid now s))) = PowerOn"
proof -
  have step: "stuck (server_step ops prev e x)" if "stuck x" "quiet_event e s" for e and x :: "'b server"
    using that on
    by (cases e)
       (auto simp: quiet_event_def stuck_def on_routed_traffic_def note_service_ready_def
          set_shutdown_override_def power_sync_tick_def loop_pass_def snd_hbind await_backend_eq
          await_store_eq Let_def split: sum.split)
  have run: "stuck (sv.run ops prev es x)" if "stuck x" for x :: "'b server"
    using that es by (induction es arbitrary: x) (simp_all add: step)
  have "stuck (snd (server_power_on ops still reason by_whom uid now s))"
    using st accepted
    by (simp add: server_power_on_def stuck_def snd_hbind await_backend_eq await_store_eq split: sum.split)
  from run [OF this] show ?thesis
    by (simp add: stuck_def display_state_def transient_on_def)
qed

section \<open>Witnesses\<close>

text \<open>A no-op server that is on and owned, with a store that commits every write.\<close>

definition demo_config :: server_config where
  "demo_config = default_server_config ''gpu'' ''noop''
     (NoopPowerConfig \<lparr>np_initial_state = ''on''\<rparr>) ''http://gpu:8080''"

definition open_store :: store where
  "open_store = (init_store (empty_tables\<lparr>tb_servers := [(''gpu'', \<lparr>sr_power_state = Some ''on'',
       sr_owned = True, sr_shutdown_override = None, sr_cycle_id = None, sr_updated_at = None\<rparr>)]\<rparr>)
     (\<lambda>_. DbCommit))\<lparr>so_open := True\<rparr>"

definition demo_server :: "noop_backend server" where
  "demo_server = new_server demo_config (new_noop_backend None) open_store 30 0"

definition owned_server :: "noop_backend server" where
  "owned_server = demo_server\<lparr>v_owned := True, v_power_state := PowerOn\<rparr>"

lemmas demo_defs = owned_server_def demo_server_def new_server_def demo_config_def default_server_config_def
  new_noop_backend_def noop_ops_def noop_power_state_def noop_power_on_def noop_power_off_def
  server_has_activity_def shutdown_enabled_now_def

definition traffic_during_await :: "noop_backend interference" where
  "traffic_during_await i s = s\<lparr>v_endpoints := [\<lparr>ev_ready = True, ev_activity = True\<rparr>]\<rparr>"

lemma idle_tick_powers_off_only_owned_witness:
  "v_log (snd (idle_off_tick noop_ops still 4000 (owned_server\<lparr>v_owned := False\<rparr>))) = [] \<and>
   v_log (snd (idle_off_tick noop_ops still 4000 owned_server)) \<in>
     {[], [CmdOff ''idle_timeout'' True False], [CmdOff ''idle_timeout'' True True]}"
proof
  show "v_log (snd (idle_off_tick noop_ops still 4000 (owned_server\<lparr>v_owned := False\<rparr>))) = []"
    by (simp add: demo_defs idle_off_tick_def snd_hbind await_backend_eq)
  have "v_log owned_server = []" by (simp add: demo_defs)
  then show "v_log (snd (idle_off_tick noop_ops still 4000 owned_server)) \<in>
     {[], [CmdOff ''idle_timeout'' True False], [CmdOff ''idle_timeout'' True True]}"
    using idle_tick_powers_off_only_owned [OF commandless_still, of noop_ops 4000 owned_server] by auto
qed

lemma idle_tick_races_with_traffic_witness:
  "v_log (snd (idle_off_tick noop_ops traffic_during_await 4000 owned_server)) = [CmdOff ''idle_timeout'' True True]"
  using idle_tick_races_with_traffic [of traffic_during_await owned_server 4000 noop_ops]
  by (simp add: demo_defs traffic_during_await_def commandless_def)


lemma unowned_server_is_left_alone_witness:
  "v_log (unowned.run noop_ops (\<lambda>_ t. t) [EvSync 1, EvTraffic ''c'' 2, EvShutdown 9000 9000]
     (new_server (demo_config\<lparr>vc_adopt_on_traffic := False\<rparr>) (new_noop_backend None) open_store 30 0)) = []"
proof -
  let ?s0 = "new_server (demo_config\<lparr>vc_adopt_on_traffic := False\<rparr>) (new_noop_backend None) open_store 30 0"
  have "unowned.reach noop_ops (\<lambda>_ t. t) ?s0
      (unowned.run noop_ops (\<lambda>_ t. t) [EvSync 1, EvTraffic ''c'' 2, EvShutdown 9000 9000] ?s0)"
    by (rule unowned.run_reach) (simp add: hands_off_def)
  from unowned_server_is_left_alone [OF this] show ?thesis by simp
qed

lemma owned_server_mirror: "mirror owned_server"
  by (simp add: mirror_def mirrored_def agrees_def server_name_def state_value_def demo_defs open_store_def
      init_store_def empty_tables_def)

lemma restart_restores_memory_witness:
  "\<exists>s rows st row. s = synced.run noop_ops (\<lambda>_ t. t) [EvOverride False 1] owned_server \<and>
    reconcile_servers [''gpu''] 9 (v_store s) = (Inr rows, st) \<and> dict_get rows ''gpu'' = Some row \<and>
    v_owned (restore_row row demo_server) = v_owned s \<and>
    v_shutdown_override (restore_row row demo_server) = v_shutdown_override s"
proof -
  let ?s = "synced.run noop_ops (\<lambda>_ t. t) [EvOverride False 1] owned_server"
  have r: "synced.reach noop_ops (\<lambda>_ t. t) owned_server ?s" by (rule synced.run_reach) simp
  have n: "server_name ?s = ''gpu''"
    by (simp add: server_name_def set_shutdown_override_def await_store_eq Let_def demo_defs)
  show ?thesis
    using restart_restores_memory [OF owned_server_mirror r, of 9 demo_config "new_noop_backend None" open_store 30 0]
    unfolding n demo_server_def [symmetric] by blast
qed

lemma powering_on_display_sticks_witness:
  "display_state (sv.run
     \<lparr>op_power_on = noop_power_on, op_power_off = noop_power_off, op_power_state = (\<lambda>b. (Inr PowerOn, b))\<rparr>
     (\<lambda>_ t. t) [EvSync 5, EvReady 6, EvSync 10] (snd (server_power_on
       \<lparr>op_power_on = noop_power_on, op_power_off = noop_power_off, op_power_state = (\<lambda>b. (Inr PowerOn, b))\<rparr>
       still ''request_wake'' ''proxy'' ''c1'' 1 owned_server))) = ''powering_on''"
  using powering_on_display_sticks [of
      "\<lparr>op_power_on = noop_power_on, op_power_off = noop_power_off, op_power_state = (\<lambda>b. (Inr PowerOn, b))\<rparr>"
      owned_server "[EvSync 5, EvReady 6, EvSync 10]" "\<lambda>_ t. t" "''request_wake''" "''proxy''" "''c1''" 1]
  by (simp add: noop_power_on_def quiet_event_def owned_server_def)

end
