(* ===== verification/Relay_Endpoints_Props.thy ===== *)
theory Relay_Endpoints_Props
  imports Relay_Endpoints Relay_Queue_Policy Relay_Servers_Props
begin

text \<open>
  What the endpoint runtime promises, whatever the rest of the program does at its awaits: its
  loops act on the queue only by steps of the queue machine, a queued request gives back what it
  held, the manager leaves nobody waiting who may run, and what is different for WebSockets.
\<close>

section \<open>Tasks and the queue\<close>

lemma pass_queue: "ep_queue (pass W s) = ep_queue (w_env W (ep_awaits s) (s\<lparr>ep_awaits := Suc (ep_awaits s)\<rparr>))"
  by (simp add: pass_def)

lemma upd_queue_queue [simp]: "ep_queue (upd_queue f s) = f (ep_queue s)"
  by (simp add: upd_queue_def)

text \<open>
  A relation on endpoints that no await breaks: a task keeps it when its own updates do. An update
  beside the queue, the server, the configuration and the count of forwards is one that no relation
  here looks at.
\<close>

locale endpoint_tasks =
  fixes W :: "'b surroundings" and P :: "'b endpoint \<Rightarrow> 'b endpoint \<Rightarrow> bool"
  assumes refl: "P s s"
    and trans: "P s t \<Longrightarrow> P t u \<Longrightarrow> P s u"
    and keeps_pass: "P s (pass W s)"
    and aside: "ep_queue t = ep_queue s \<Longrightarrow> ep_server t = ep_server s \<Longrightarrow> ep_config t = ep_config s \<Longrightarrow>
      ep_active_forwards t = ep_active_forwards s \<Longrightarrow> P s t"

sublocale endpoint_tasks \<subseteq> kept_relation P
  by unfold_locales (rule refl, rule trans)

context endpoint_tasks
begin

lemma keeps_aside:
  "(\<And>s. ep_queue (g s) = ep_queue s \<and> ep_server (g s) = ep_server s \<and> ep_config (g s) = ep_config s \<and>
     ep_active_forwards (g s) = ep_active_forwards s) \<Longrightarrow> P s (snd (hmod g s))"
  by (simp add: aside)

lemma keeps_pause: "P s (snd (pause W s))"
  by (simp add: pause_def keeps_pass)

lemma keeps_exchange: "P s (snd (exchange W answer s))"
  by (simp add: exchange_def keeps_pass)

lemma keeps_on_server:
  "(\<And>n. P s (s\<lparr>ep_server := snd (h (w_server_env W n) (ep_server s))\<rparr>)) \<Longrightarrow> P s (snd (on_server W h s))"
  by (simp add: on_server_def split_beta Let_def) (blast intro: trans keeps_pass)

lemma keeps_on_store:
  "(\<And>s st. P s (s\<lparr>ep_server := (ep_server s)\<lparr>v_store := st\<rparr>\<rparr>)) \<Longrightarrow> P s (snd (on_store W f s))"
  by (simp add: on_store_def split_beta Let_def) (blast intro: trans keeps_pass)

lemma keeps_hold_loop: "P s (snd (hold_loop W e deadline polls s))"
proof (induction polls arbitrary: s)
  case (Cons gone polls)
  have "P s (snd (hbind (pause W) (\<lambda>_. hold_loop W e deadline polls) s))" for s
    by (rule keeps_bind, rule keeps_pause, rule Cons.IH)
  then have "P s (snd (hbind (pause W) (\<lambda>_ s.
      if gone then (Inr (Some WDisconnected), s)
      else if past_deadline deadline (clock W s) then (Inr (Some WTimedOut), s)
      else hbind (pause W) (\<lambda>_. hold_loop W e deadline polls) s) s))" for s
    by (intro keeps_bind keeps_pause) (simp add: refl)
  then show ?case by (simp add: refl)
qed (simp add: refl)

end

text \<open>Probes: the flip of READY, its effects on the server and the store.\<close>

locale endpoint_probes = endpoint_tasks +
  assumes ready: "P s (upd_queue (\<lambda>q. q\<lparr>q_ready := b\<rparr>) s)"
    and served: "P s (s\<lparr>ep_server := snd (note_service_ready (w_server_env W n) now (ep_server s))\<rparr>)"
    and stored: "P s (s\<lparr>ep_server := (ep_server s)\<lparr>v_store := st\<rparr>\<rparr>)"
begin

lemma keeps_became_ready: "P s (snd (became_ready W s))"
  unfolding became_ready_def
  by (rule keeps_bind, rule keeps_aside) (simp_all add: keeps_on_server served)

lemma keeps_transition: "P s (snd (readiness_transition W ok s))"
  unfolding readiness_transition_def
  by (rule keeps_bind, rule keeps_hmod, rule ready, rule keeps_bind)
     (simp_all add: keeps_became_ready refl keeps_on_store stored)

lemma keeps_check_readiness: "P s (snd (check_readiness W s))"
  unfolding check_readiness_def Let_def
  by (rule keeps_bind, rule keeps_exchange, rule keeps_bind, rule keeps_aside)
     (simp_all add: refl keeps_then_return keeps_transition)

lemma keeps_readiness_pass: "P s (readiness_pass W s)"
  unfolding readiness_pass_def
  by (simp add: keeps_pass) (intro impI keeps_bind keeps_pause keeps_check_readiness)

end

text \<open>A poll leaves a session alone or writes its three report fields, the status one of four.\<close>

definition client_states :: "string set" where
  "client_states = {''busy'', ''idle'', ''retry'', ''waiting''}"

lemma report_session_cases:
  assumes "Q se" and "\<And>status detail. status \<in> client_states \<Longrightarrow> Q (se\<lparr>s_client_status := Some status,
      s_client_status_detail := detail, s_client_status_at := t\<rparr>)"
  shows "Q (report_session fl data pending t se)"
  unfolding report_session_def by (simp split: option.split pyval.split add: assms client_states_def)

text \<open>The status polls of a manager's tick: reports and shared spots.\<close>

locale endpoint_polls = endpoint_tasks +
  assumes report: "status \<in> client_states \<Longrightarrow> P s (upd_queue (upd_sess r (\<lambda>s. s\<lparr>s_client_status := Some status,
         s_client_status_detail := detail, s_client_status_at := at_time\<rparr>)) s)"
    and share: "P s (upd_queue (upd_sess r (\<lambda>s. s\<lparr>s_shared_spot_key := shared\<rparr>)) s)"
begin

lemma upd_queue_id: "upd_queue (\<lambda>q. q) s = s"
  by (simp add: upd_queue_def)

lemma keeps_report: "P s (upd_queue (upd_sess r (report_session fl data pending t)) s)"
proof -
  have "P s (upd_queue (\<lambda>q. q\<lparr>q_heap := (q_heap q)(r := report_session fl data pending t (q_heap (ep_queue s) r))\<rparr>) s)"
  proof (rule report_session_cases)
    show "P s (upd_queue (\<lambda>q. q\<lparr>q_heap := (q_heap q)(r := q_heap (ep_queue s) r)\<rparr>) s)"
      by (simp add: upd_queue_def refl)
  next
    fix status :: string and detail :: string
    assume "status \<in> client_states"
    then show "P s (upd_queue (\<lambda>q. q\<lparr>q_heap := (q_heap q)(r := (q_heap (ep_queue s) r)\<lparr>s_client_status := Some status,
        s_client_status_detail := detail, s_client_status_at := t\<rparr>)\<rparr>) s)"
      using report [where s = s and r = r and status = status and detail = detail and at_time = t]
      by (simp add: upd_sess_def upd_queue_def)
  qed
  then show ?thesis by (simp add: upd_sess_def upd_queue_def)
qed

lemma keeps_fold_report:
  "P s (upd_queue (fold (\<lambda>r. upd_sess r (report_session fl data pending at_time)) rs) s)"
proof (induction rs arbitrary: s)
  case (Cons r rs)
  have "upd_queue (fold (\<lambda>r. upd_sess r (report_session fl data pending at_time)) (r # rs)) s =
      upd_queue (fold (\<lambda>r. upd_sess r (report_session fl data pending at_time)) rs)
        (upd_queue (upd_sess r (report_session fl data pending at_time)) s)" by (simp add: upd_queue_def)
  moreover have "P s \<dots>" by (rule trans [OF keeps_report Cons.IH])
  ultimately show ?case by (simp only:)
qed (simp add: upd_queue_def refl)

lemma keeps_session_directory: "P s (snd (session_directory W client base r s))"
  unfolding session_directory_def Let_def
  by (auto split: option.split intro!: keeps_bind keeps_exchange keeps_aside aside simp: refl upd_poller_def)

lemma keeps_resolve_dirs: "P s (snd (resolve_dirs W client base rs by_dir s))"
proof (induction rs arbitrary: by_dir s)
  case (Cons r rs)
  show ?case
    unfolding resolve_dirs.simps
    by (rule keeps_bind, rule keeps_session_directory)
       (auto split: option.split simp: Cons.IH simp del: hbind_hmod
         intro!: keeps_bind share)
qed (simp add: refl)

lemma keeps_poll_dir: "P s (snd (poll_dir W client base dr s))"
  unfolding poll_dir_def
  by (rule keeps_bind, rule keeps_exchange, rule keeps_bind, rule keeps_exchange)
     (simp add: refl keeps_fold_report)

lemma keeps_poll_dirs: "P s (snd (poll_dirs W client base drs s))"
  by (induction drs arbitrary: s) (auto simp: refl intro: keeps_bind keeps_poll_dir)

lemma keeps_poll_group: "P s (snd (poll_group W now grp s))"
  unfolding poll_group_def
  by (auto simp: refl upd_poller_def simp del: hbind_hmod split: prod.split
      intro!: keeps_bind keeps_resolve_dirs keeps_poll_dirs keeps_aside aside)

lemma keeps_poll_all: "P s (snd (poll_all W now gs s))"
  by (induction gs arbitrary: s) (auto simp: refl intro: keeps_bind keeps_poll_group)

end

text \<open>The loops of an endpoint: probes, polls, ticks, promotions, wakes.\<close>

locale endpoint_loops = endpoint_probes W P + endpoint_polls W P
  for W :: "'b surroundings" and P :: "'b endpoint \<Rightarrow> 'b endpoint \<Rightarrow> bool" +
  assumes ticks: "P s (upd_queue (\<lambda>q. snd (tick now clk q)) s)"
    and promotes: "P s (upd_queue (try_promote now) s)"
    and woken: "P s (s\<lparr>ep_server := snd (maybe_power_on (w_ops W) (w_server_env W n) reason uid now (ep_server s))\<rparr>)"
begin

lemma keeps_wake: "P s (snd (wake W s))"
  unfolding wake_def by (rule keeps_then_return, rule keeps_on_server, rule woken)

lemma keeps_serve_waiters: "P s (snd (serve_waiters W now last_check s))"
  unfolding serve_waiters_def
  by (auto simp: refl promotes keeps_wake simp del: hbind_hmod
      intro!: keeps_bind keeps_check_readiness)

lemma keeps_tracker: "P s (s\<lparr>ep_tracker := x\<rparr>)"
  by (rule aside) simp_all

lemma keeps_manager_tick: "P s (snd (queue_manager_tick W last_check s))"
  unfolding queue_manager_tick_def Let_def
  by (auto simp: refl ticks keeps_serve_waiters keeps_tracker simp del: hbind_hmod
      intro!: keeps_bind keeps_poll_all)

lemma keeps_manager_pass: "P s (snd (manager_pass W last_check s))"
proof -
  have "P s (snd (queue_manager_tick W last_check (pass W s)))"
    by (rule trans [OF keeps_pass keeps_manager_tick])
  moreover have "P t (t\<lparr>ep_last_manager_tick := x\<rparr>)" for t x by (rule aside) simp_all
  ultimately show ?thesis
    by (simp add: manager_pass_def split: prod.split sum.split) (auto intro: trans)
qed

end

section \<open>The entry of a request in flight\<close>

text \<open>An entry waits until it is promoted: no step of the queue loses it, its own release and
  abandonment excepted.\<close>

definition waits_or_done :: "eref \<Rightarrow> equeue \<Rightarrow> bool" where
  "waits_or_done e q \<longleftrightarrow> e \<in> set (q_queue q) \<or> e_done (ent q e)"

lemma waits_promote: "waits_or_done e q \<Longrightarrow> waits_or_done e (promote now x q)"
  by (auto simp: waits_or_done_def)

lemma waits_promote_loop: "waits_or_done e q \<Longrightarrow> waits_or_done e (promote_loop now q)"
proof (induction now q rule: promote_loop.induct)
  case (1 now q)
  show ?case
  proof (cases "List.find (eligible q) (q_queue q)")
    case None
    then show ?thesis using "1.prems" by (simp add: promote_loop_None)
  next
    case (Some x)
    then show ?thesis using "1.IH" [OF Some] waits_promote [OF "1.prems"] by (simp add: promote_loop_Some)
  qed
qed

lemma waits_try_promote: "waits_or_done e q \<Longrightarrow> waits_or_done e (try_promote now q)"
  by (simp add: try_promote_def waits_promote_loop)

lemma waits_release: "waits_or_done e q \<Longrightarrow> waits_or_done e (release now x q)"
  unfolding release_def Let_def by (rule waits_try_promote) (simp add: waits_or_done_def)

lemma waits_enqueue: "waits_or_done e q \<Longrightarrow> waits_or_done e (enqueue now x q)"
  by (simp add: enqueue_def Let_def, rule waits_try_promote) (auto simp: waits_or_done_def)

lemma waits_release_spot: "waits_or_done e q \<Longrightarrow> waits_or_done e (release_spot now r k q)"
  by (simp add: release_spot_def Let_def, intro conjI impI; rule waits_try_promote)
     (simp_all add: waits_or_done_def)

lemma waits_release_session: "waits_or_done e q \<Longrightarrow> waits_or_done e (snd (release_session now c i q))"
  by (simp add: release_session_def Let_def waits_release_spot split: option.split)

lemma tick_status_queue [simp]: "q_queue (tick_status now r q) = q_queue q"
  by (simp add: tick_status_def split: prod.splits)

lemma waits_tick_one: "waits_or_done e q \<Longrightarrow> waits_or_done e (fst (tick_one now clk kr (q, rel)))"
proof -
  assume "waits_or_done e q"
  then have "waits_or_done e (tick_status now (snd kr) q)" by (simp add: waits_or_done_def)
  moreover have "waits_or_done e (p\<lparr>q_sessions := d\<rparr>) = waits_or_done e p" for p d
    by (simp add: waits_or_done_def)
  ultimately show ?thesis by (cases kr) (simp add: tick_one_fst Let_def waits_release_spot)
qed

lemma waits_fold_tick:
  "waits_or_done e (fst acc) \<Longrightarrow> waits_or_done e (fst (fold (tick_one now clk) items acc))"
proof (induction items arbitrary: acc)
  case (Cons kr items)
  then show ?case using waits_tick_one [of e "fst acc" now clk kr "snd acc"] by simp
qed simp

lemma waits_tick: "waits_or_done e q \<Longrightarrow> waits_or_done e (snd (tick now clk q))"
  using waits_fold_tick [of e "(q, [])" now clk "q_sessions q"] by (simp add: tick_def split_beta)

lemma waits_abandon: "waits_or_done e q \<Longrightarrow> x \<noteq> e \<Longrightarrow> waits_or_done e (abandon x q)"
  by (auto simp: abandon_def remove_waiting_def waits_or_done_def)

text \<open>The steps of the others, and what they leave of an entry that is not theirs.\<close>

definition spares :: "eref \<Rightarrow> qevent \<Rightarrow> qsys \<Rightarrow> bool" where
  "spares e ev y \<longleftrightarrow> qsys_guard ev y \<and>
     (case ev of Finish x _ \<Rightarrow> x \<noteq> e | Abandon x \<Rightarrow> x \<noteq> e | _ \<Rightarrow> True)"

definition owned :: "eref \<Rightarrow> qsys \<Rightarrow> bool" where
  "owned e y \<longleftrightarrow> qsys_inv y \<and> (e \<in> set (q_queue (y_queue y)) \<or> e \<in> y_running y)"

lemma owned_iff:
  "qsys_inv y \<Longrightarrow> owned e y \<longleftrightarrow> (e \<in> set (q_queue (y_queue y)) \<and> \<not> e_done (ent (y_queue y) e)) \<or>
     (e \<in> y_running y \<and> e_done (ent (y_queue y) e))"
  by (auto simp: owned_def qsys_inv_def q_inv_def q_entries_ok_def)

lemma owned_advance:
  assumes inv: "qsys_inv (advance q q' y)" and 1: "e \<in> set (q_queue q) \<and> \<not> e_done (ent q e) \<or> e \<in> y_running y"
    and 2: "waits_or_done e q'"
    and less: "q_inv (y_running y \<union> promoted q q') W q'"
  shows "owned e (advance q q' y)"
  using 1 2 inv promoted_list_set [OF less]
  by (auto simp: owned_def advance_def waits_or_done_def promoted_def)

lemma spares_inv: "qsys_inv y \<Longrightarrow> spares e ev y \<Longrightarrow> qsys_inv (qsys_step ev y)"
  by (rule qsys_step_inv) (simp_all add: spares_def)

lemma owned_step:
  assumes "owned e y" and "spares e ev y"
  shows "owned e (qsys_step ev y)"
proof -
  let ?q = "y_queue y" and ?z = "qsys_step ev y"
  have y: "qsys_inv y" using assms(1) by (simp add: owned_def)
  then have inv: "qsys_inv ?z" by (rule spares_inv [OF _ assms(2)])
  have w: "waits_or_done e ?q" and e: "e \<in> set (q_queue ?q) \<and> \<not> e_done (ent ?q e) \<or> e \<in> y_running y"
    using assms(1) owned_iff [OF y] by (auto simp: waits_or_done_def)
  show ?thesis
  proof (cases ev)
    case (Arrive client session_id api ip ua path body now)
    obtain x q2 q3 where a: "arrive client session_id api ip ua path body now ?q = (x, q2, q3)"
      by (metis prod_cases3)
    then have z: "?z = advance q2 q3 y" by (simp add: Arrive)
    obtain r q1 where goc: "get_or_create_session client session_id api ip ua now ?q = (r, q1)" by fastforce
    have q1: "q_queue q1 = q_queue ?q \<and> q_entries q1 = q_entries ?q \<and> q_next_entry q1 = q_next_entry ?q"
      using goc by (auto simp: get_or_create_session_def Let_def split: option.splits)
    have "e < q_next_entry ?q"
      using y e by (auto simp: qsys_inv_def q_inv_def q_entries_ok_def)
    then have q2: "q_queue q2 = q_queue ?q \<and> ent q2 e = ent ?q e" and q3: "q3 = enqueue now x q2"
      using a q1 by (auto simp: arrive_def goc alloc_entry_def Let_def)
    then have "waits_or_done e q2" using w by (simp add: waits_or_done_def)
    then have "waits_or_done e q3" by (simp add: q3 waits_enqueue)
    then show ?thesis
      unfolding z using arrive_inv [OF _ a, of "y_running y" "y_ws y"] y q2 e
      by (intro owned_advance [OF inv [unfolded z]]) (auto simp: qsys_inv_def)
  next
    case (Finish x now)
    let ?y = "y\<lparr>y_running := y_running y - {x}\<rparr>"
    have "owned e (advance ?q (release now x ?q) ?y)"
      using y inv e w assms(2) release_inv [of "y_running y" "y_ws y" ?q x now]
      by (intro owned_advance) (auto simp: Finish spares_def qsys_inv_def waits_release)
    then show ?thesis by (simp add: Finish)
  next
    case (Abandon x)
    then show ?thesis
      using inv w e assms(2) waits_abandon [of e ?q x]
      by (auto simp: owned_def spares_def waits_or_done_def abandon_def remove_waiting_def)
  next
    case (Tick now clk)
    have "q_inv (y_running y \<union> promoted ?q (snd (tick now clk ?q))) (y_ws y) (snd (tick now clk ?q))"
      by (rule tick_inv [OF _ prod.collapse [symmetric]]) (use y in \<open>simp add: qsys_inv_def\<close>)
    then show ?thesis using owned_advance [OF _ e waits_tick [OF w]] inv by (simp add: Tick)
  next
    case (ManualRelease c i now)
    have "q_inv (y_running y \<union> promoted ?q (snd (release_session now c i ?q))) (y_ws y)
        (snd (release_session now c i ?q))"
      by (rule release_session_inv [OF _ prod.collapse [symmetric]]) (use y in \<open>simp add: qsys_inv_def\<close>)
    then show ?thesis
      using owned_advance [OF _ e waits_release_session [OF w]] inv by (simp add: ManualRelease)
  next
    case (Promote now)
    have "q_inv (y_running y \<union> promoted ?q (try_promote now ?q)) (y_ws y) (try_promote now ?q)"
      by (rule try_promote_inv) (use y in \<open>simp add: qsys_inv_def\<close>)
    then show ?thesis using owned_advance [OF _ e waits_try_promote [OF w]] inv by (simp add: Promote)
  qed (use assms(1) inv in \<open>auto simp: owned_def\<close>)
qed


interpretation spare: machine qsys_step "spares e" "owned e" for e
  by unfold_locales (rule owned_step)

lemma spare_reach: "spare.reach e y z \<Longrightarrow> qm.reach y z"
  by (induction rule: spare.reach.induct) (auto intro: qm.reach_refl qm.reach_step simp: spares_def)

lemma spares_running: "spares e ev y \<Longrightarrow> e \<in> y_running y \<Longrightarrow> e \<in> y_running (qsys_step ev y)"
  by (cases ev) (auto simp: spares_def advance_def split: prod.split)

lemma spare_running: "spare.reach e y z \<Longrightarrow> e \<in> y_running y \<Longrightarrow> e \<in> y_running z"
  by (induction rule: spare.reach.induct) (auto intro: spares_running)

section \<open>The loops refine the queue machine\<close>

text \<open>\<open>refines q q'\<close>: the change of the queue from q to q' is a run of the machine.\<close>

definition refines :: "equeue \<Rightarrow> equeue \<Rightarrow> bool" where
  "refines q q' \<longleftrightarrow> (\<forall>y. y_queue y = q \<longrightarrow> (\<exists>z. qm.reach y z \<and> y_queue z = q'))"

text \<open>The same by steps that spare an entry.\<close>

definition refines_sparing :: "eref \<Rightarrow> equeue \<Rightarrow> equeue \<Rightarrow> bool" where
  "refines_sparing e q q' \<longleftrightarrow> (\<forall>y. y_queue y = q \<longrightarrow> (\<exists>z. spare.reach e y z \<and> y_queue z = q'))"

text \<open>The rest of the program acts on the queue by steps of the machine; by steps that neither
  finish nor abandon an entry that is not theirs.\<close>

definition by_machine :: "'b surroundings \<Rightarrow> bool" where
  "by_machine W \<longleftrightarrow> (\<forall>n s. refines (ep_queue s) (ep_queue (w_env W n s)))"

definition courteous :: "eref \<Rightarrow> 'b surroundings \<Rightarrow> bool" where
  "courteous e W \<longleftrightarrow> (\<forall>n s. refines_sparing e (ep_queue s) (ep_queue (w_env W n s)))"

lemma refines_refl: "refines q q"
  by (auto simp: refines_def intro: qm.reach_refl)

lemma refines_trans: "refines q q' \<Longrightarrow> refines q' q'' \<Longrightarrow> refines q q''"
  unfolding refines_def by (metis qm.reach_trans)

lemma refines_step:
  "(\<And>y. y_queue y = q \<Longrightarrow> qsys_guard ev y \<and> y_queue (qsys_step ev y) = q') \<Longrightarrow> refines q q'"
  unfolding refines_def using qm.reach_step [OF qm.reach_refl] by blast

lemma refines_sparing_refl: "refines_sparing e q q"
  by (auto simp: refines_sparing_def intro: spare.reach_refl)

lemma refines_sparing_trans:
  "refines_sparing e q q' \<Longrightarrow> refines_sparing e q' q'' \<Longrightarrow> refines_sparing e q q''"
  unfolding refines_sparing_def by (metis spare.reach_trans)

lemma by_machine_pass: "by_machine W \<Longrightarrow> refines (ep_queue s) (ep_queue (pass W s))"
  unfolding by_machine_def pass_queue by (drule spec, drule spec [of _ "s\<lparr>ep_awaits := Suc (ep_awaits s)\<rparr>"]) simp

interpretation loops: endpoint_loops W "\<lambda>s s'. by_machine W \<longrightarrow> refines (ep_queue s) (ep_queue s')"
  for W :: "'b surroundings"
proof unfold_locales
  fix s :: "'b endpoint" and b r status detail at_time shared now clk
  show "by_machine W \<longrightarrow> refines (ep_queue s) (ep_queue (upd_queue (\<lambda>q. q\<lparr>q_ready := b\<rparr>) s))"
    by (simp add: refines_step [of _ "SetReady b"])
  show "by_machine W \<longrightarrow> refines (ep_queue s) (ep_queue (upd_queue (upd_sess r (\<lambda>s. s\<lparr>s_client_status := Some status,
      s_client_status_detail := detail, s_client_status_at := at_time\<rparr>)) s))"
    by (simp add: refines_step [of _ "Report r status detail at_time"])
  show "by_machine W \<longrightarrow> refines (ep_queue s) (ep_queue (upd_queue (upd_sess r (\<lambda>s. s\<lparr>s_shared_spot_key := shared\<rparr>)) s))"
    by (simp add: refines_step [of _ "Share r shared"])
  show "by_machine W \<longrightarrow> refines (ep_queue s) (ep_queue (upd_queue (\<lambda>q. snd (tick now clk q)) s))"
    by (simp add: refines_step [of _ "Tick now clk"] advance_def)
  show "by_machine W \<longrightarrow> refines (ep_queue s) (ep_queue (upd_queue (try_promote now) s))"
    by (simp add: refines_step [of _ "Promote now"] advance_def)
qed (auto simp: refines_refl by_machine_pass intro: refines_trans)

lemma courteous_pass: "courteous e W \<Longrightarrow> refines_sparing e (ep_queue s) (ep_queue (pass W s))"
  unfolding courteous_def pass_queue by (drule spec, drule spec [of _ "s\<lparr>ep_awaits := Suc (ep_awaits s)\<rparr>"]) simp

interpretation held: endpoint_tasks W "\<lambda>s s'. courteous e W \<longrightarrow> refines_sparing e (ep_queue s) (ep_queue s')"
  for W :: "'b surroundings" and e
  by unfold_locales (auto simp: refines_sparing_refl courteous_pass intro: refines_sparing_trans)



section \<open>What a queued request gives back\<close>

lemma release_queue_subset: "set (q_queue (release now e q)) \<subseteq> set (q_queue q)"
  using promote_loop_subset
  by (auto simp: release_def Let_def try_promote_def split: if_splits dest!: subsetD [OF promote_loop_subset])

lemma finish_disowns:
  assumes y: "qsys_inv y" and e: "e \<in> y_running y"
  shows "\<not> owned e (qsys_step (Finish e now) y)"
proof -
  have "e_done (ent (y_queue y) e)" "e \<notin> set (q_queue (y_queue y))"
    using y e by (auto simp: qsys_inv_def q_inv_def q_entries_ok_def)
  then show ?thesis
    using release_queue_subset [of now e "y_queue y"]
    by (auto simp: owned_def advance_def promoted_list_def)
qed

lemma abandon_disowns:
  assumes y: "qsys_inv y" and e: "e \<in> set (q_queue (y_queue y))"
  shows "\<not> owned e (qsys_step (Abandon e) y)"
  using y e by (auto simp: owned_def abandon_def remove_waiting_def qsys_inv_def q_inv_def q_entries_ok_def)

lemma hold_loop_value: "\<exists>r. fst (hold_loop W e deadline polls s) = Inr r"
  by (induction W e deadline polls s rule: hold_loop.induct)
     (auto simp: pause_def hbind_def split: if_splits)

lemma hold_loop_ok: "hold_loop W e deadline polls s = (Inr (Some WOk), t) \<Longrightarrow> e_go (ent (ep_queue t) e)"
  by (induction W e deadline polls s arbitrary: t rule: hold_loop.induct)
     (auto simp: pause_def hbind_def split: if_splits)

lemma forward_request_calls:
  assumes "forward_request outcome driven n t = Some fw"
  shows "\<not> settles outcome driven \<and> fw_calls fw = [] \<or>
    settles outcome driven \<and> (\<exists>c c' a b d. fw_calls fw = [Release c, Record c' a b d])"
  using assms
  by (cases outcome)
     (auto simp: forward_request_def settles_def run_stream_def split: drive.splits if_splits)

lemma run_record_queue [simp]: "ep_queue (run_callback rel mk (Record c a b d) s) = ep_queue s"
  by (simp add: run_callback_def stage_record_def)

text \<open>Whether a request still has its place in the queue, or its slot, when its handler is through.\<close>

definition owing :: "send_outcome \<Rightarrow> drive \<Rightarrow> response res \<Rightarrow> bool" where
  "owing outcome driven res =
     (case res of
        Inl _ \<Rightarrow> True
      | Inr StillHolding \<Rightarrow> True
      | Inr (Answered _) \<Rightarrow> \<not> settles outcome driven
      | Inr _ \<Rightarrow> False)"

lemma forward_queue:
  assumes "forward W outcome driven body (\<lambda>code t. upd_queue (release (clock W t) e) t) mk s = (res, s')"
  shows "owing outcome driven res \<and> ep_queue s' = ep_queue (pass W (pass W s)) \<or>
    \<not> owing outcome driven res \<and> (\<exists>now. ep_queue s' = release now e (ep_queue (pass W (pass W s))))"
proof -
  let ?t = "pass W (pass W s)"
  show ?thesis
  proof (cases "forward_request outcome driven (length body) (clock W ?t - clock W (pass W s))")
    case None
    then show ?thesis using assms by (auto simp: forward_def pause_def owing_def)
  next
    case (Some fw)
    let ?run = "run_callback (\<lambda>code t. upd_queue (release (clock W t) e) t) mk"
    have res: "res = Inr (Answered fw)" and s': "s' = fold ?run (fw_calls fw) ?t"
      using assms Some by (auto simp: forward_def pause_def)
    have "ep_queue (?run (Release c) u) = release (clock W u) e (ep_queue u)" for c u
      by (simp add: run_callback_def)
    then show ?thesis
      using forward_request_calls [OF Some] by (auto simp: res s' owing_def)
  qed
qed

lemma settle_step:
  assumes y: "owned e y" and q: "y_queue y = ep_queue s"
  obtains z where "qm.reach y z" and "y_queue z = ep_queue (settle W e s)" and "\<not> owned e z"
proof (cases "e_done (ent (ep_queue s) e)")
  case True
  then have e: "e \<in> y_running y" and inv: "qsys_inv y"
    using y owned_iff [of y e] q by (auto simp: owned_def)
  have "qm.reach y (qsys_step (Finish e (clock W s)) y)"
    by (rule qm.reach_step [OF qm.reach_refl]) (simp add: e)
  then show ?thesis
  proof (rule that [OF _ _ finish_disowns [OF inv e]])
    show "y_queue (qsys_step (Finish e (clock W s)) y) = ep_queue (settle W e s)"
      by (simp add: settle_def True q advance_def)
  qed
next
  case False
  then have e: "e \<in> set (q_queue (y_queue y))" and inv: "qsys_inv y"
    using y owned_iff [of y e] q by (auto simp: owned_def)
  have "qm.reach y (qsys_step (Abandon e) y)"
    by (rule qm.reach_step [OF qm.reach_refl]) (simp add: e)
  then show ?thesis
  proof (rule that [OF _ _ abandon_disowns [OF inv e]])
    show "y_queue (qsys_step (Abandon e) y) = ep_queue (settle W e s)"
      by (simp add: settle_def False q)
  qed
qed

lemma owned_go_running: "owned e y \<Longrightarrow> e_go (ent (y_queue y) e) \<Longrightarrow> e \<in> y_running y"
  by (auto simp: owned_def qsys_inv_def q_inv_def q_entries_ok_def)

text \<open>A run of the others leaves the entry where its handler can settle it.\<close>

lemma spare_run:
  assumes "courteous e W \<longrightarrow> refines_sparing e (ep_queue s) (ep_queue t)" and "courteous e W"
    and "owned e y" and "y_queue y = ep_queue s"
  obtains z where "qm.reach y z" and "y_queue z = ep_queue t" and "owned e z" and
    "e \<in> y_running y \<Longrightarrow> e \<in> y_running z"
  using assms spare_reach spare_running spare.reach_inv unfolding refines_sparing_def by metis

lemma forward_settles:
  assumes court: "courteous e W" and own: "owned e u" "e \<in> y_running u" "y_queue u = ep_queue t"
    and fwd: "forward W outcome driven body (\<lambda>code t. upd_queue (release (clock W t) e) t) mk t = (res, s')"
  shows "\<exists>z. qm.reach u z \<and> y_queue z = ep_queue s' \<and> (owned e z \<longleftrightarrow> owing outcome driven res)"
proof -
  let ?t = "pass W (pass W t)"
  have "courteous e W \<longrightarrow> refines_sparing e (ep_queue t) (ep_queue ?t)"
    using refines_sparing_trans [of e "ep_queue t" "ep_queue (pass W t)" "ep_queue ?t"]
      held.keeps_pass [of e W t] held.keeps_pass [of e W "pass W t"] by blast
  then obtain v where v: "qm.reach u v" "y_queue v = ep_queue ?t" "owned e v" "e \<in> y_running v"
    using spare_run [OF _ court own(1,3)] own(2) by metis
  show ?thesis
  proof (cases "owing outcome driven res")
    case True
    then show ?thesis using forward_queue [OF fwd] v by auto
  next
    case False
    then obtain now where now: "ep_queue s' = release now e (ep_queue ?t)"
      using forward_queue [OF fwd] by auto
    have "qm.reach u (qsys_step (Finish e now) v)"
      by (rule qm.reach_step [OF v(1)]) (simp add: v(4))
    then show ?thesis
      using finish_disowns [OF _ v(4), of now] v(2,3) False now
      by (intro exI [of _ "qsys_step (Finish e now) v"]) (auto simp: owned_def advance_def)
  qed
qed


section \<open>The manager serves those who wait\<close>

text \<open>The tick, from the polls on.\<close>

lemma serve_waiters_end:
  assumes "serve_waiters W now last_check s = (Inr t, s')" and "q_ready (ep_queue s')"
  shows "\<exists>q clk. q_ready q \<and> ep_queue s' = try_promote clk q"
proof -
  obtain u where "s' = (if q_ready (ep_queue u) then upd_queue (try_promote (clock W u)) u else u)"
    using assms(1) unfolding serve_waiters_def hbind_Inr by (auto simp: hret_def hmod_def)
  then show ?thesis using assms(2) by (cases "q_ready (ep_queue u)") auto
qed

lemma manager_tick_end:
  assumes "queue_manager_tick W last_check s = (Inr t, s')"
  shows "\<exists>v. ep_queue s' = ep_queue v \<and>
    (q_queue (ep_queue v) = [] \<or> (\<exists>u. serve_waiters W (clock W s) last_check u = (Inr t, v)))"
proof -
  obtain u v w where "(if q_queue (ep_queue u) \<noteq> [] then serve_waiters W (clock W s) last_check u
      else (Inr last_check, u)) = (Inr w, v)" and "w = t"
    and "s' = (if ec_catch_all (ep_config v)
             then v\<lparr>ep_tracker := tracker_prune (clock W s) (sc_expiry (ec_session (ep_config v))) (ep_tracker v)\<rparr>
             else v)"
    using assms unfolding queue_manager_tick_def Let_def hbind_Inr hret_def hmod_def prod.inject sum.inject
    by blast
  then show ?thesis by (intro exI [of _ v]) (auto split: if_splits)
qed

text \<open>
  C6: The manager leaves nobody waiting who may run. When a tick of the queue manager returns
  with the endpoint READY, no request in the queue is eligible any more, whatever other tasks did
  to the queue at the awaits of the tick, including those in which READY itself was found.
\<close>

theorem manager_leaves_nobody_waiting:
  assumes run: "queue_manager_tick W last_check s = (Inr t, s')" and ready: "q_ready (ep_queue s')"
  shows "\<forall>e \<in> set (q_queue (ep_queue s')). \<not> eligible (ep_queue s') e"
proof -
  obtain v where v: "ep_queue s' = ep_queue v" and
    cases: "q_queue (ep_queue v) = [] \<or> (\<exists>u. serve_waiters W (clock W s) last_check u = (Inr t, v))"
    using manager_tick_end [OF run] by blast
  have "\<forall>e \<in> set (q_queue (try_promote clk q)). \<not> eligible (try_promote clk q) e" if "q_ready q" for clk q
    using promote_loop_stops [of clk q] that by (simp add: try_promote_def find_None_iff)
  then show ?thesis
    using cases ready serve_waiters_end [of W "clock W s" last_check _ t v] unfolding v by fastforce
qed

section \<open>A hold outside the queue\<close>

text \<open>A request of an endpoint without queueing, or of the catch-all, that waits for READY is
  counted nowhere: as long as the others leave the count of forwards alone, so does the hold,
  and an endpoint whose queue is idle reads as idle while it holds the request.\<close>

definition no_forwards :: "'b surroundings \<Rightarrow> bool" where
  "no_forwards W \<longleftrightarrow> (\<forall>n s. ep_active_forwards (w_env W n s) = ep_active_forwards s)"

interpretation uncounted: endpoint_loops W
  "\<lambda>s s'. no_forwards W \<longrightarrow> ep_active_forwards s' = ep_active_forwards s" for W :: "'b surroundings"
  by unfold_locales (auto simp: no_forwards_def pass_def upd_queue_def)

lemma unqueued_hold_uncounted:
  assumes "no_forwards W"
  shows "ep_active_forwards (snd (wait_until_ready W timeout polls s)) = ep_active_forwards s"
proof -
  have wake: "no_forwards W \<longrightarrow> ep_active_forwards (snd (ensure_wake W s)) = ep_active_forwards s" for s
    by (simp add: ensure_wake_def uncounted.keeps_wake)
  have "no_forwards W \<longrightarrow> ep_active_forwards (snd (wait_ready_loop W deadline polls s)) = ep_active_forwards s"
    for deadline s
  proof (induction polls arbitrary: s)
    case (Cons gone polls)
    have "no_forwards W \<longrightarrow> ep_active_forwards (snd (hbind (pause W) (\<lambda>_.
        wait_ready_loop W deadline polls) s)) = ep_active_forwards s" for s
      by (rule uncounted.keeps_bind, rule uncounted.keeps_pause, rule Cons.IH)
    note loop = this
    have "no_forwards W \<longrightarrow> ep_active_forwards (snd (hbind (ensure_wake W) (\<lambda>_.
        hbind (pause W) (\<lambda>_ s.
          if gone then (Inr (Some WDisconnected), s)
          else if past_deadline deadline (clock W s) then (Inr (Some WTimedOut), s)
          else hbind (pause W) (\<lambda>_. wait_ready_loop W deadline polls) s)) s)) = ep_active_forwards s" for s
      by (intro uncounted.keeps_bind wake uncounted.keeps_pause) (simp add: loop)
    then show ?case by simp
  qed simp
  then show ?thesis using assms by (simp add: wait_until_ready_def)
qed

section \<open>Witnesses\<close>

text \<open>An endpoint of the owned server with the queue of the machine's example: a session idles on
  the only spot, a request of another waits. \<open>busy_world\<close> runs a tick of its own at the first await.\<close>

definition demo_world :: "noop_backend surroundings" where
  "demo_world =
     \<lparr>w_env = (\<lambda>n s. s), w_server_env = (\<lambda>_. still), w_ops = noop_ops,
      w_probe = (\<lambda>_ _. HttpAnswer 200 None), w_ask = (\<lambda>_ _. HttpFailed), w_clock = (\<lambda>_. 70),
      w_wall = (\<lambda>_. 1000), w_uid = (\<lambda>_. ''cycle''), w_float_text = (\<lambda>_. []), w_loads = (\<lambda>_. None)\<rparr>"

definition busy_world :: "noop_backend surroundings" where
  "busy_world = demo_world\<lparr>w_env := (\<lambda>n s. if n = 0 then upd_queue (\<lambda>q. snd (tick 70 70 q)) s else s)\<rparr>"

definition demo_request :: http_request where
  "demo_request = \<lparr>rq_method = ''POST'', rq_path = ''/v1/chat'', rq_query = [], rq_headers = [],
     rq_client = None, rq_body = []\<rparr>"

definition demo_endpoint :: "noop_backend endpoint" where
  "demo_endpoint =
     (new_endpoint (default_endpoint_config ''chat'' ''gpu'' ''/v1'') owned_server [] [] []
        [] 0)\<lparr>ep_queue := ab_queue\<rparr>"

lemma busy_world_machine: "by_machine busy_world"
  using refines_step [of _ "Tick 70 70"]
  by (simp add: by_machine_def busy_world_def demo_world_def refines_refl advance_def)


lemma busy_world_courteous: "courteous 1 busy_world"
proof -
  have "refines_sparing 1 q (snd (tick 70 70 q))" for q
    unfolding refines_sparing_def
  proof (intro allI impI)
    fix y :: qsys
    assume "y_queue y = q"
    then show "\<exists>z. spare.reach 1 y z \<and> y_queue z = snd (tick 70 70 q)"
      using spare.reach_step [OF spare.reach_refl, of 1 "Tick 70 70" y]
      by (intro exI [of _ "qsys_step (Tick 70 70) y"]) (simp add: spares_def advance_def)
  qed
  then show ?thesis
    by (simp add: courteous_def busy_world_def demo_world_def refines_sparing_refl)
qed


lemma manager_leaves_nobody_waiting_witness:
  "q_queue (ep_queue (snd (queue_manager_tick demo_world 70 demo_endpoint))) = [1] \<and>
   \<not> eligible (ep_queue (snd (queue_manager_tick demo_world 70 demo_endpoint))) 1"
proof -
  let ?q = "snd (tick 70 70 ab_queue)"
  have tick: "q_queue ?q = [1]" "q_ready ?q"
    by (simp_all add: ab_queue_ticked ab_queue_eq)
  have "poll_groups demo_endpoint = []"
    by (simp add: poll_groups_def demo_endpoint_def new_endpoint_def ab_queue_eq group_session_def Let_def)
  moreover have stuck: "try_promote 70 ?q = ?q"
    unfolding ab_queue_ticked snd_conv by (simp add: ab_defs queue_op_simps)
  ultimately have run: "queue_manager_tick demo_world 70 demo_endpoint = (Inr 70, demo_endpoint\<lparr>ep_queue := ?q\<rparr>)"
    using tick
    by (simp add: queue_manager_tick_def serve_waiters_def clock_def demo_world_def Let_def hbind_def hmod_def
        hret_def upd_queue_def demo_endpoint_def new_endpoint_def default_endpoint_config_def)
  show ?thesis
    using manager_leaves_nobody_waiting [OF run] tick by (simp add: run)
qed

end
