(* ===== verification/Relay_Queue_Leak.thy ===== *)
theory Relay_Queue_Leak
  imports Relay_Queue_Policy
begin

text \<open>
  The admission race. \<open>_admit_queued\<close> (relay/endpoints.py) looks its session up, awaits
  the store, and only then enqueues its entry. A manager tick that runs during the
  await finds a session with no spot, nothing waiting and nothing in flight, and forgets
  it; the enqueue then gives a spot to a session nobody tracks. This theory shows that
  the race produces such a spot, and that nothing the queue does afterwards frees it.
\<close>

section \<open>A spot without a holder\<close>

text \<open>
  The key holds a spot, and no tracked session knows of it: either no session is tracked
  under the key, or the one that is (the client came back) has \<open>spot_held\<close> False.
\<close>

definition leaked :: "skey \<Rightarrow> equeue \<Rightarrow> bool" where
  "leaked k q \<longleftrightarrow> dict_has (q_spots q) k \<and>
     (\<forall>r. dict_get (q_sessions q) k = Some r \<longrightarrow> \<not> s_spot_held (sess q r))"

definition keys_ok :: "equeue \<Rightarrow> bool" where
  "keys_ok q \<longleftrightarrow> dict_ok (q_sessions q) \<and> (\<forall>j r. dict_get (q_sessions q) j = Some r \<longrightarrow>
     s_key (sess q r) = j \<and> r < q_next_session q)"

definition leak_inv :: "skey \<Rightarrow> equeue \<Rightarrow> bool" where
  "leak_inv k q \<longleftrightarrow> leaked k q \<and> keys_ok q"

lemma q_inv_keys_ok: "q_inv R W q \<Longrightarrow> keys_ok q"
  by (simp add: q_inv_def q_dicts_def keys_ok_def)

lemma leak_invI:
  assumes "dict_has (q_spots q) k" and "dict_ok (q_sessions q)"
    and "\<And>r. dict_get (q_sessions q) k = Some r \<Longrightarrow> \<not> s_spot_held (sess q r)"
    and "\<And>j r. dict_get (q_sessions q) j = Some r \<Longrightarrow> s_key (sess q r) = j"
    and "\<And>j r. dict_get (q_sessions q) j = Some r \<Longrightarrow> r < q_next_session q"
  shows "leak_inv k q"
  unfolding leak_inv_def leaked_def keys_ok_def using assms by blast

lemma leak_invD:
  assumes "leak_inv k q"
  shows "dict_has (q_spots q) k" and "dict_ok (q_sessions q)"
    and "\<And>r. dict_get (q_sessions q) k = Some r \<Longrightarrow> \<not> s_spot_held (sess q r)"
    and "\<And>j r. dict_get (q_sessions q) j = Some r \<Longrightarrow> s_key (sess q r) = j"
    and "\<And>j r. dict_get (q_sessions q) j = Some r \<Longrightarrow> r < q_next_session q"
  using assms unfolding leak_inv_def leaked_def keys_ok_def by blast+

text \<open>An update that adds no spot flag, moves no key and drops sessions at most.\<close>

lemma leak_frame:
  assumes "leak_inv k q" and "dict_has (q_spots q') k" and "dict_ok (q_sessions q')"
    and "\<And>j r. dict_get (q_sessions q') j = Some r \<Longrightarrow> dict_get (q_sessions q) j = Some r"
    and "\<And>r. s_spot_held (sess q' r) \<Longrightarrow> s_spot_held (sess q r)"
    and "\<And>r. s_key (sess q' r) = s_key (sess q r)"
    and "q_next_session q' = q_next_session q"
  shows "leak_inv k q'"
  using assms leak_invD [OF assms(1)] by (intro leak_invI) (simp_all, blast+)

lemma leak_upd:
  "leak_inv k q \<Longrightarrow> (\<And>s. s_spot_held (f s) \<Longrightarrow> s_spot_held s) \<Longrightarrow> (\<And>s. s_key (f s) = s_key s) \<Longrightarrow>
   leak_inv k (upd_sess r f q)"
  by (rule leak_frame [of k q]) (auto dest: leak_invD(1,2) split: if_splits)

lemma leak_promote:
  assumes "leak_inv k q"
  shows "leak_inv k (promote now e q)"
proof -
  note D = leak_invD [OF assms]
  let ?s = "sess q (e_session (ent q e))"
  have spot: "spot_key q ?s \<noteq> None" if "s_key ?s = k"
    using D(1) that by (simp add: spot_key_def)
  have "\<not> s_spot_held (sess (promote now e q) r)" if "dict_get (q_sessions q) k = Some r" for r
    using D(3) [OF that] D(4) [OF that] spot by (auto simp: promote_heap Let_def)
  then show ?thesis
    using D by (intro leak_invI) (simp_all add: promote_spots Let_def)
qed

lemma leak_try_promote: "leak_inv k q \<Longrightarrow> leak_inv k (try_promote now q)"
proof -
  have "leak_inv k q \<Longrightarrow> leak_inv k (promote_loop now q)"
  proof (induction now q rule: promote_loop.induct)
    case (1 now q)
    then show ?case
      by (cases "List.find (eligible q) (q_queue q)")
         (simp_all add: promote_loop.simps [of now q] leak_promote)
  qed
  then show "leak_inv k q \<Longrightarrow> leak_inv k (try_promote now q)"
    by (simp add: try_promote_def)
qed

lemma leak_release_spot:
  assumes "leak_inv k q" and "j \<noteq> k"
  shows "leak_inv k (release_spot now r j q)"
  unfolding release_spot_def Let_def
  by (rule leak_try_promote, rule leak_frame [OF assms(1)])
     (use leak_invD(1,2) [OF assms(1)] assms(2) in \<open>auto split: if_splits\<close>)

lemma leak_tick_one:
  assumes "leak_inv k q" and "dict_get (q_sessions q) j = Some r"
  shows "leak_inv k (fst (tick_one now clk (j, r) (q, rel)))"
proof -
  let ?p = "tick_status now r q"
  have p: "leak_inv k ?p"
    unfolding tick_status_def split_beta Let_def by (rule leak_upd [OF assms(1)]) simp_all
  have "j \<noteq> k" if "s_spot_held (sess ?p r)"
    using that leak_invD(3) [OF assms(1)] assms(2) by auto
  moreover have "leak_inv k (?p\<lparr>q_sessions := dict_pop j (q_sessions ?p)\<rparr>)"
    by (rule leak_frame [OF p]) (use leak_invD(1,2) [OF p] in \<open>auto split: if_splits\<close>)
  ultimately show ?thesis
    using p leak_release_spot [OF p, of j clk r] by (simp add: tick_one_fst Let_def)
qed

lemma leak_fold_tick:
  assumes "leak_inv k q" and "distinct (map fst items)"
    and "\<And>j r. (j, r) \<in> set items \<Longrightarrow> dict_get (q_sessions q) j = Some r"
  shows "leak_inv k (fst (fold (tick_one now clk) items (q, rel)))"
  using assms
proof (induction items arbitrary: q rel)
  case (Cons jr items)
  obtain j r where jr: "jr = (j, r)" by (cases jr)
  obtain q1 rel1 where one: "tick_one now clk jr (q, rel) = (q1, rel1)" by fastforce
  have "dict_get (q_sessions q) j = Some r" using Cons.prems(3) [of j r] jr by simp
  then have 1: "leak_inv k q1"
    using leak_tick_one [OF Cons.prems(1), of j r now clk rel] one jr by simp
  have "dict_get (q_sessions q1) i = Some x" if "(i, x) \<in> set items" for i x
  proof -
    have "i \<noteq> j" using Cons.prems(2) that jr by (auto simp: rev_image_eqI)
    then show ?thesis
      using tick_one_sessions [of i jr now clk q rel] Cons.prems(3) [of i x] that one jr by simp
  qed
  then show ?case using Cons.IH [OF 1, of rel1] Cons.prems(2) one by simp
qed simp

lemma leak_tick: "leak_inv k q \<Longrightarrow> leak_inv k (snd (tick now clk q))"
  using leak_fold_tick [of k q "q_sessions q" now clk "[]"] leak_invD(2) [of k q]
  by (simp add: tick_def split_beta dict_ok_def)


lemma leak_release_session: "leak_inv k q \<Longrightarrow> leak_inv k (snd (release_session now c i q))"
  using leak_release_spot [of k q "(c, i)" now] leak_invD(3) [of k q]
  by (cases "(c, i) = k") (auto simp: release_session_def Let_def split: option.splits)

lemma leak_release: "leak_inv k q \<Longrightarrow> leak_inv k (release now e q)"
proof -
  assume inv: "leak_inv k q"
  have 1: "leak_inv k (q\<lparr>q_inflight_total := n\<rparr>)" for n
    by (rule leak_frame [OF inv]) (use leak_invD(1,2) [OF inv] in simp_all)
  have 2: "leak_inv k (upd_sess r (\<lambda>s. s\<lparr>s_inflight := s_inflight s - 1\<rparr>) (q\<lparr>q_inflight_total := n\<rparr>))" for r n
    by (rule leak_upd [OF 1]) simp_all
  show ?thesis
    unfolding release_def Let_def
    by (rule leak_try_promote, rule leak_upd) (use inv 2 in simp_all)
qed

lemma leak_abandon: "leak_inv k q \<Longrightarrow> leak_inv k (abandon e q)"
proof -
  assume inv: "leak_inv k q"
  have "leak_inv k (q\<lparr>q_queue := x\<rparr>)" for x
    by (rule leak_frame [OF inv]) (use leak_invD(1,2) [OF inv] in simp_all)
  then have "leak_inv k (upd_sess r (\<lambda>s. s\<lparr>s_waiting := max 0 (s_waiting s - 1)\<rparr>) (q\<lparr>q_queue := x\<rparr>))"
    for r x by (rule leak_upd) simp_all
  then show ?thesis using inv by (simp add: abandon_def remove_waiting_def)
qed

lemma leak_enqueue: "leak_inv k q \<Longrightarrow> leak_inv k (enqueue now e q)"
proof -
  assume inv: "leak_inv k q"
  let ?u = "upd_sess (e_session (ent q e))
    (\<lambda>s. s\<lparr>s_waiting := s_waiting s + 1, s_last_path := e_path (ent q e)\<rparr>) q"
  have u: "leak_inv k ?u" by (rule leak_upd [OF inv]) simp_all
  have "leak_inv k (?u\<lparr>q_queue := x\<rparr>)" for x
    by (rule leak_frame [OF u]) (use leak_invD(1,2) [OF u] in simp_all)
  then show ?thesis unfolding enqueue_def Let_def by (intro leak_try_promote)
qed

lemma leak_get_or_create:
  assumes inv: "leak_inv k q"
  shows "leak_inv k (snd (get_or_create_session c i api ip ua now q))"
proof (cases "dict_get (q_sessions q) (c, i)")
  case None
  note D = leak_invD [OF inv]
  have fresh: "r \<noteq> q_next_session q" if "dict_get (q_sessions q) j = Some r" for j r
    using D(5) [OF that] by simp
  show ?thesis
    using None D fresh
    by (intro leak_invI)
       (force simp: get_or_create_session_def Let_def new_session_def less_Suc_eq split: if_splits)+
next
  case (Some r)
  then show ?thesis
    using leak_upd [OF inv, of "\<lambda>s. s\<lparr>s_api := api, s_client_ip := ip, s_last_request_at := now,
      s_idle_since := None\<rparr>"]
    by (simp add: get_or_create_session_def)
qed

lemma leak_alloc: "leak_inv k q \<Longrightarrow> leak_inv k (snd (alloc_entry r path body now q))"
  by (rule leak_frame [of k q]) (auto simp: alloc_entry_def Let_def dest: leak_invD(1,2))

lemma leak_arrive:
  assumes "leak_inv k q" and "arrive c i api ip ua path body now q = (e, q2, q3)"
  shows "leak_inv k q3"
proof -
  obtain r q1 where goc: "get_or_create_session c i api ip ua now q = (r, q1)" by fastforce
  then have al: "alloc_entry r path body now q1 = (e, q2)" and en: "q3 = enqueue now e q2"
    using assms(2) by (auto simp: arrive_def Let_def split: prod.splits)
  show ?thesis
    using leak_get_or_create [OF assms(1), of c i api ip ua now]
      leak_alloc [of k q1 r path body now] leak_enqueue [of k q2 now e] goc al en by simp
qed

interpretation leak: machine qsys_step "\<lambda>_ _. True" "\<lambda>y. leak_inv k (y_queue y)" for k
proof
  fix y :: qsys and e
  assume inv: "leak_inv k (y_queue y)"
  show "leak_inv k (y_queue (qsys_step e y))"
  proof (cases e)
    case (Arrive c i api ip ua path body now)
    then show ?thesis
      using leak_arrive [OF inv] by (auto simp: advance_def split: prod.splits)
  next
    case (SetReady b)
    have "leak_inv k ((y_queue y)\<lparr>q_ready := b\<rparr>)"
      by (rule leak_frame [OF inv]) (use leak_invD(1,2) [OF inv] in simp_all)
    then show ?thesis by (simp add: SetReady)
  next
    case (Report r status detail now)
    then show ?thesis by (auto intro: leak_upd [OF inv])
  next
    case (Share r shared)
    then show ?thesis by (auto intro: leak_upd [OF inv])
  qed (simp_all add: inv advance_def leak_release leak_abandon leak_tick leak_release_session
      leak_try_promote)
qed

section \<open>The race\<close>

lemma try_promote_empty: "q_queue q = [] \<Longrightarrow> try_promote now q = q"
  by (simp add: try_promote_def promote_loop.simps)

lemma tick_one_empty:
  assumes "q_queue q = []"
  shows "q_queue (fst (tick_one now clk kr (q, rel))) = [] \<and>
    q_ready (fst (tick_one now clk kr (q, rel))) = q_ready q \<and>
    q_inflight_total (fst (tick_one now clk kr (q, rel))) = q_inflight_total q \<and>
    length (q_spots (fst (tick_one now clk kr (q, rel)))) \<le> length (q_spots q)"
proof (cases kr)
  case (Pair k r)
  have f: "q_queue (tick_status now r q) = []" "q_ready (tick_status now r q) = q_ready q"
    "q_inflight_total (tick_status now r q) = q_inflight_total q"
    using assms by (simp_all add: tick_status_def split_beta Let_def)
  show ?thesis
    using f by (simp add: Pair tick_one_fst Let_def release_spot_def try_promote_empty length_delete_le)
qed

lemma fold_tick_empty:
  assumes "q_queue q = []"
  shows "q_queue (fst (fold (tick_one now clk) items (q, rel))) = [] \<and>
    q_ready (fst (fold (tick_one now clk) items (q, rel))) = q_ready q \<and>
    q_inflight_total (fst (fold (tick_one now clk) items (q, rel))) = q_inflight_total q \<and>
    length (q_spots (fst (fold (tick_one now clk) items (q, rel)))) \<le> length (q_spots q)"
  using assms
proof (induction items arbitrary: q rel)
  case (Cons kr items)
  obtain q1 rel1 where one: "tick_one now clk kr (q, rel) = (q1, rel1)" by fastforce
  then show ?case
    using Cons.IH [of q1 rel1] tick_one_empty [OF Cons.prems, of now clk kr rel] by auto
qed simp

text \<open>The tick forgets a session that has just been created for a request in admission.\<close>

lemma tick_forgets_new_session:
  assumes inv: "q_inv R W q" and fresh: "\<not> dict_has (q_sessions q) (c, i)" and empty: "q_queue q = []"
    and goc: "get_or_create_session c i api ip ua t0 q = (r, q1)"
    and tick: "tick t1 clk q1 = (rel, q2)"
  shows "\<not> dict_has (q_sessions q2) (c, i) \<and> \<not> dict_has (q_spots q2) (c, i) \<and> q_queue q2 = [] \<and>
    q_ready q2 = q_ready q \<and> q_inflight_total q2 = q_inflight_total q \<and>
    length (q_spots q2) \<le> length (q_spots q) \<and> q_config q2 = q_config q \<and>
    s_key (sess q2 r) = (c, i) \<and> s_shared_spot_key (sess q2 r) = None"
proof -
  let ?k = "(c, i)"
  have q1: "q1 = q\<lparr>q_heap := (q_heap q)(r := new_session ?k c i api ip ua t0),
      q_next_session := r + 1, q_sessions := q_sessions q @ [(?k, r)]\<rparr>" and r: "r = q_next_session q"
    using goc fresh dict_put_append [OF fresh]
    by (auto simp: get_or_create_session_def Let_def dict_has_def)
  have spot: "\<not> dict_has (q_spots q) ?k"
    using inv fresh by (auto simp: q_inv_def q_spots_ok_def)
  have q1_inv: "q_inv R W q1" using get_or_create_inv [OF inv goc] by blast
  have quiet: "quiet q1 ?k" using empty q1 by (simp add: quiet_def)
  have others: "s_key (sess q1 x) = j \<and> j \<noteq> ?k" if "(j, x) \<in> set (q_sessions q)" for j x
  proof
    have "(j, x) \<in> set (q_sessions q1)" using that q1 by simp
    then show "s_key (sess q1 x) = j"
      using q1_inv dict_ok_get [of "q_sessions q1" j x] by (simp add: q_inv_def q_dicts_def)
    show "j \<noteq> ?k" using fresh that by (force simp: dict_has_iff)
  qed
  obtain p prel where f: "fold (tick_one t1 clk) (q_sessions q) (q1, []) = (p, prel)" by fastforce
  have same: "same_for ?k q1 p" "dict_get (q_sessions p) ?k = dict_get (q_sessions q1) ?k"
    using fold_tick_same_for [OF quiet, of "q_sessions q" t1 clk "[]"] others f by auto
  have pe: "q_queue p = [] \<and> q_ready p = q_ready q \<and> q_inflight_total p = q_inflight_total q \<and>
      length (q_spots p) \<le> length (q_spots q)"
    using fold_tick_empty [of q1 t1 clk "q_sessions q" "[]"] f q1 empty by simp
  have sr: "sess p r = new_session ?k c i api ip ua t0"
    using same(1) q1 by (simp add: same_for_def new_session_def)
  have q2: "q2 = (tick_status t1 r p)\<lparr>q_sessions := dict_pop ?k (q_sessions p)\<rparr>"
    using tick f tick_one_fst [of t1 clk ?k r p prel] sr q1
    by (simp add: tick_def Let_def new_session_def split: prod.splits)
  have ts: "q_queue (tick_status t1 r p) = []" "q_ready (tick_status t1 r p) = q_ready q"
    "q_inflight_total (tick_status t1 r p) = q_inflight_total q"
    "s_shared_spot_key (sess (tick_status t1 r p) r) = None"
    using pe sr by (simp_all add: tick_status_def split_beta Let_def new_session_def)
  have "q_config q1 = q_config q" using q1 by (simp add: q_config_def)
  then show ?thesis
    using ts pe same(1) spot sr by (simp add: q2 same_for_def q1 new_session_def dict_has_def)
qed

lemma enqueue_alone:
  assumes "q_queue q = []" and "q_ready q" and "q_atomic_requests q \<longrightarrow> q_inflight_total q \<le> 0"
    and "\<not> dict_has (q_spots q) (s_key (sess q r))" and "s_shared_spot_key (sess q r) = None"
    and "int (length (q_spots q)) < q_max_spots q"
    and "alloc_entry r path body now q = (e, q3)"
  shows "enqueue now e q3 = promote now e
      ((upd_sess r (\<lambda>s. s\<lparr>s_waiting := s_waiting s + 1, s_last_path := path\<rparr>) q3)\<lparr>q_queue := [e]\<rparr>)"
proof -
  let ?u = "(upd_sess r (\<lambda>s. s\<lparr>s_waiting := s_waiting s + 1, s_last_path := path\<rparr>) q3)\<lparr>q_queue := [e]\<rparr>"
  have q3: "q3 = q\<lparr>q_entries := (q_entries q)(e := new_entry r path body now), q_next_entry := e + 1\<rparr>"
    using assms(7) by (auto simp: alloc_entry_def Let_def)
  have "eligible ?u e"
    using assms by (auto simp: eligible_def q3 new_entry_def spot_key_def Let_def dict_has_def)
  then have "promote_loop now ?u = promote_loop now (promote now e ?u)"
    by (simp add: promote_loop.simps [of now ?u])
  also have "\<dots> = promote now e ?u"
    by (simp add: promote_loop.simps)
  finally show ?thesis
    using assms(1,2) by (simp add: enqueue_def Let_def try_promote_def q3 new_entry_def)
qed

text \<open>
  C11: The admission race leaks a spot. A request of a new session arrives at a READY endpoint
  with a free spot and nothing waiting; while its admission awaits \<open>upsert_session\<close>
  the manager ticks. Then the request is promoted at once, and its spot is one that no
  tracked session holds.
\<close>

theorem admission_race_leaks:
  assumes inv: "q_inv R W q" and fresh: "\<not> dict_has (q_sessions q) (c, i)" and empty: "q_queue q = []"
    and ready: "q_ready q" and atomic: "q_atomic_requests q \<longrightarrow> q_inflight_total q \<le> 0"
    and free: "int (length (q_spots q)) < q_max_spots q"
    and goc: "get_or_create_session c i api ip ua t0 q = (r, q1)"
    and tick: "tick t1 clk q1 = (rel, q2)"
    and al: "alloc_entry r path body t2 q2 = (e, q3)"
  shows "e_go (ent (enqueue t2 e q3) e) \<and> \<not> dict_has (q_sessions (enqueue t2 e q3)) (c, i) \<and>
    leak_inv (c, i) (enqueue t2 e q3)"
proof -
  note F = tick_forgets_new_session [OF inv fresh empty goc tick]
  have cfg: "q_atomic_requests q2 = q_atomic_requests q" "q_max_spots q2 = q_max_spots q"
    using F by (simp_all add: q_config_def)
  have "q_inv R W q1" using get_or_create_inv [OF inv goc] by blast
  from tick_inv [OF this tick] have keys: "keys_ok q2" by (rule q_inv_keys_ok)
  let ?u = "(upd_sess r (\<lambda>s. s\<lparr>s_waiting := s_waiting s + 1, s_last_path := path\<rparr>) q3)\<lparr>q_queue := [e]\<rparr>"
  have enq: "enqueue t2 e q3 = promote t2 e ?u"
    by (rule enqueue_alone [OF _ _ _ _ _ _ al]) (use F cfg ready atomic free in auto)
  have q3: "q3 = q2\<lparr>q_entries := (q_entries q2)(e := new_entry r path body t2), q_next_entry := e + 1\<rparr>"
    using al by (auto simp: alloc_entry_def Let_def)
  have sk: "spot_key ?u (sess ?u r) = None"
    using F by (simp add: spot_key_def q3)
  have "dict_has (q_spots (promote t2 e ?u)) (c, i)"
    using F sk by (simp add: promote_spots Let_def q3 new_entry_def)
  moreover have none: "dict_get (q_sessions (promote t2 e ?u)) (c, i) = None"
    using F by (simp add: q3 dict_has_def)
  moreover have "keys_ok (promote t2 e ?u)"
    using keys by (simp add: keys_ok_def q3)
  ultimately show ?thesis
    by (simp add: enq leak_inv_def leaked_def dict_has_def [of "q_sessions _"])
qed

text \<open>
  C12: A leaked spot is never surrendered. Whatever the queue does from then on - arrivals
  (the same client coming back included), completions, disconnects, ticks, manual
  releases - the spot stays taken, and with one spot configured no request of a session
  without a spot may run any more.
\<close>

theorem leaked_spot_is_permanent:
  assumes "leak_inv k (y_queue y)" and "qm.reach y y'"
  shows "dict_has (q_spots (y_queue y')) k \<and>
    \<not> (\<exists>r. dict_get (q_sessions (y_queue y')) k = Some r \<and> s_spot_held (sess (y_queue y') r)) \<and>
    (q_max_spots (y_queue y') = 1 \<longrightarrow>
      (\<forall>e. spot_key (y_queue y') (sess (y_queue y') (e_session (ent (y_queue y') e))) = None \<longrightarrow>
        \<not> eligible (y_queue y') e))"
proof -
  have "leak.reach y y'" for k :: skey
    using assms(2) by (induction rule: qm.reach.induct) (auto intro: leak.reach.intros)
  then have inv: "leak_inv k (y_queue y')" using leak.reach_inv [of y y' k] assms(1) by blast
  then have "q_spots (y_queue y') \<noteq> []" using leak_invD(1) [OF inv] by auto
  then have "1 \<le> int (length (q_spots (y_queue y')))" by (cases "q_spots (y_queue y')") simp_all
  then show ?thesis using inv by (auto simp: leak_inv_def leaked_def eligible_def Let_def)
qed

section \<open>Witnesses\<close>

definition race_queue :: equeue where
  "race_queue = enqueue 2 0 (snd (alloc_entry 0 ''/v1/chat'' ''{}'' 2 (snd (tick 1 1
     (snd (get_or_create_session ''claude'' ''a'' ''openai'' ''10.0.0.7'' ''curl'' 0
       (one_spot\<lparr>q_ready := True\<rparr>)))))))"

lemma admission_race_leaks_witness:
  "e_go (ent race_queue 0) \<and> \<not> dict_has (q_sessions race_queue) (''claude'', ''a'') \<and>
   leak_inv (''claude'', ''a'') race_queue"
proof -
  let ?q = "one_spot\<lparr>q_ready := True\<rparr>"
  let ?goc = "get_or_create_session ''claude'' ''a'' ''openai'' ''10.0.0.7'' ''curl'' 0 ?q"
  have inv: "q_inv {} (\<lambda>_. 0) ?q"
    using qsys_init_inv [of 1 "- 1" 10 60 False False]
    by (simp add: one_spot_def qsys_inv_def qsys_init_def ready_inv)
  have r: "?goc = (0, snd ?goc)" and e: "alloc_entry 0 ''/v1/chat'' ''{}'' 2 (snd (tick 1 1 (snd ?goc))) =
      (0, snd (alloc_entry 0 ''/v1/chat'' ''{}'' 2 (snd (tick 1 1 (snd ?goc)))))"
    by (simp_all add: one_spot_def queue_op_simps queue_tick_simps)
  show ?thesis
    unfolding race_queue_def
    by (rule admission_race_leaks [OF inv _ _ _ _ _ r prod.collapse [symmetric] e])
       (simp_all add: one_spot_def init_queue_def)
qed

lemma leaked_spot_is_permanent_witness:
  "dict_has (q_spots (y_queue (qm.run [Tick 100 100, Tick 200 200] (qsys_init race_queue)))) (''claude'', ''a'')"
proof -
  have "leak_inv (''claude'', ''a'') race_queue"
    unfolding race_queue_def
    by (rule leak_invI) (auto simp add: one_spot_def queue_op_simps queue_tick_simps)
  moreover have "qm.reach (qsys_init race_queue) (qm.run [Tick 100 100, Tick 200 200] (qsys_init race_queue))"
    by (rule qm.run_reach) simp
  ultimately show ?thesis
    using leaked_spot_is_permanent [of "(''claude'', ''a'')" "qsys_init race_queue"]
    unfolding qsys_init_def qsys.simps by blast
qed

end
