(* ===== verification/Relay_Ws_Props.thy ===== *)
theory Relay_Ws_Props
  imports Relay_Endpoints_Props Relay_Queue_Leak
begin

text \<open>
  WebSockets on a queued endpoint. They take and give back spots on paths of their own, beside
  enqueue and release: the counts of the queue stay right, but what holds of a held HTTP
  request does not always hold of a held WebSocket.
\<close>

section \<open>The spots of WebSockets\<close>

lemma upd_sess_upd_sess: "upd_sess r f (upd_sess r g q) = upd_sess r (\<lambda>s. f (g s)) q"
  by (simp add: upd_sess_def)

text \<open>One connection more, or one less, on a tracked session.\<close>

lemma ws_count_inv:
  assumes inv: "q_inv R ws q" and tr: "tracked q r"
    and f: "\<And>s. s_key (f s) = s_key s \<and> s_waiting (f s) = s_waiting s \<and> s_spot_held (f s) = s_spot_held s"
    and n: "s_inflight (f (sess q r)) = s_inflight (sess q r) + (int n - int (ws r))"
  shows "q_inv R (ws(r := n)) (upd_sess r f q)"
proof -
  have trq: "tracked (upd_sess r f q) x = tracked q x" for x
    using f by (simp add: tracked_def)
  have os: "of_session (upd_sess r f q) E x = of_session q E x" for E x
    by (rule of_session_cong) simp
  have fs: "s_key (f s) = s_key s" "s_waiting (f s) = s_waiting s" "s_spot_held (f s) = s_spot_held s" for s
    using f by blast+
  show ?thesis
  proof (rule q_invI)
    show "q_counts R (ws(r := n)) (upd_sess r f q)"
      using inv tr n unfolding q_inv_def q_counts_def trq os by (simp add: fs)
    show "q_entries_ok R (upd_sess r f q)"
      using inv unfolding q_inv_def q_entries_ok_def trq by simp
  qed (use inv in \<open>simp_all add: q_inv_def q_dicts_def q_capacity_def q_spots_ok_def fs\<close>)
qed

lemma take_spot_inv:
  assumes inv: "q_inv R ws q" and tr: "tracked q r" and no: "\<not> dict_has (q_spots q) (s_key (sess q r))"
    and free: "int (length (q_spots q)) < q_max_spots q"
  shows "q_inv R ws (upd_sess r (\<lambda>s. s\<lparr>s_spot_held := True, s_spot_acquired_at := now\<rparr>)
    (q\<lparr>q_spots := dict_put (s_key (sess q r)) now (q_spots q)\<rparr>))" (is "q_inv R ws ?q")
proof -
  have trq: "tracked ?q x = tracked q x" for x by (simp add: tracked_def)
  have os: "of_session ?q E x = of_session q E x" for E x
    by (rule of_session_cong) simp
  have held: "s_spot_held (sess ?q x) = dict_has (q_spots ?q) k"
    if g: "dict_get (q_sessions q) k = Some x" for k x
  proof -
    have "s_key (sess q x) = k" and "s_spot_held (sess q x) = dict_has (q_spots q) k"
      using g inv by (auto simp: q_inv_def q_dicts_def q_spots_ok_def)
    then show ?thesis using tr g by (cases "x = r") (auto simp: tracked_def)
  qed
  show ?thesis
  proof (rule q_invI)
    show "q_spots_ok ?q"
      using inv held tr by (auto simp: q_inv_def q_spots_ok_def tracked_def dict_has_def [of "q_sessions q"])
    show "q_capacity ?q"
      using inv no free by (simp add: q_inv_def q_capacity_def length_dict_put)
    show "q_entries_ok R ?q"
      using inv unfolding q_inv_def q_entries_ok_def trq by simp
    show "q_counts R ws ?q"
      using inv unfolding q_inv_def q_counts_def trq os by simp
  qed (use inv in \<open>simp add: q_inv_def q_dicts_def\<close>)
qed

lemma ws_take_inv:
  assumes inv: "q_inv R ws q" and tr: "tracked q r" and took: "ws_take_spot now r q = Some q'"
  shows "q_inv R (ws(r := ws r + 1)) q' \<and> tracked q' r"
proof -
  let ?run = "\<lambda>s. s\<lparr>s_inflight := s_inflight s + 1\<rparr>"
  have on: "q_inv R (ws(r := ws r + 1)) (upd_sess r ?run p)" if "q_inv R ws p" "tracked p r" for p
    by (rule ws_count_inv [OF that]) simp_all
  have trq: "tracked (upd_sess r ?run p) r = tracked p r" for p by (simp add: tracked_def)
  consider "q' = upd_sess r ?run q"
    | "\<not> dict_has (q_spots q) (s_key (sess q r))" "int (length (q_spots q)) < q_max_spots q"
      "q' = upd_sess r ?run (upd_sess r (\<lambda>s. s\<lparr>s_spot_held := True, s_spot_acquired_at := now\<rparr>)
         (q\<lparr>q_spots := dict_put (s_key (sess q r)) now (q_spots q)\<rparr>))"
    using took by (auto simp: ws_take_spot_def Let_def upd_sess_upd_sess split: if_splits)
  then show ?thesis
  proof cases
    case 1
    then show ?thesis using on [OF inv tr] tr trq by simp
  next
    case 2
    let ?p = "upd_sess r (\<lambda>s. s\<lparr>s_spot_held := True, s_spot_acquired_at := now\<rparr>)
       (q\<lparr>q_spots := dict_put (s_key (sess q r)) now (q_spots q)\<rparr>)"
    have "tracked ?p r" using tr by (simp add: tracked_def)
    then show ?thesis
      unfolding 2(3) trq using on [OF take_spot_inv [OF inv tr 2(1,2)]] by simp
  qed
qed

lemma ws_release_inv:
  assumes inv: "q_inv R ws q" and ws: "0 < ws r"
  shows "\<exists>R'. q_inv R' (ws(r := ws r - 1)) (release_ws_spot now r q)"
proof -
  let ?p = "upd_sess r (\<lambda>s. s\<lparr>s_inflight := s_inflight s - 1\<rparr>) q" and ?k = "s_key (sess q r)"
  have tr: "tracked q r" and pos: "0 < s_inflight (sess q r)"
    using inv ws by (auto simp: q_inv_def q_counts_def)
  have p: "q_inv R (ws(r := ws r - 1)) ?p"
    by (rule ws_count_inv [OF inv tr]) (use ws in auto)
  have "dict_get (q_sessions ?p) ?k = Some r" using tr by (simp add: tracked_def)
  from drop_spot_inv [OF p this, of s_idle_since]
  have "q_inv R (ws(r := ws r - 1)) (upd_sess r (\<lambda>s. s\<lparr>s_spot_held := False\<rparr>)
      (?p\<lparr>q_spots := dict_pop ?k (q_spots ?p)\<rparr>))"
    by (simp add: upd_sess_def)
  from try_promote_inv [OF this, of now] p show ?thesis
    using pos by (auto simp: release_ws_spot_def Let_def)
qed

text \<open>
  C38: The spots of WebSockets keep the queue's books. A connection of a tracked session that gets
  a spot is counted on its session, and its release takes it off again; the capacity, the
  record of who holds a spot and all counts of the queue stay right, whatever the
  release promotes.
\<close>

theorem ws_spots_keep_invariant:
  assumes "q_inv R ws q" and "tracked q r"
  shows "(\<forall>q'. ws_take_spot now r q = Some q' \<longrightarrow>
      q_inv R (ws(r := ws r + 1)) q' \<and> tracked q' r \<and>
      (\<exists>R'. q_inv R' ws (release_ws_spot t r q')))"
proof (intro allI impI)
  fix q'
  assume "ws_take_spot now r q = Some q'"
  then have 1: "q_inv R (ws(r := ws r + 1)) q'" "tracked q' r" using ws_take_inv [OF assms] by auto
  show "q_inv R (ws(r := ws r + 1)) q' \<and> tracked q' r \<and> (\<exists>R'. q_inv R' ws (release_ws_spot t r q'))"
    using 1 ws_release_inv [OF 1(1), of r t] by simp
qed

section \<open>Spots that are not what they seem\<close>

text \<open>
  C39: A closing WebSocket takes the spot from under its session. When a session runs several
  requests on its spot and one of them is a WebSocket, the end of the WebSocket pops the spot
  while the others still run, and a waiting request of another session is promoted on it: then
  the first session runs beside the full set of spots, more sessions than the capacity.
\<close>

theorem ws_close_overcommits:
  assumes ready: "q_ready q" and queue: "q_queue q = [e]"
    and cap: "0 < q_max_spots q" "int (length (q_spots q)) \<le> q_max_spots q" "dict_ok (q_spots q)"
    and atomic: "q_atomic_requests q \<longrightarrow> q_inflight_total q \<le> 0"
    and spot: "dict_has (q_spots q) (s_key (sess q r))" and busy: "2 \<le> s_inflight (sess q r)"
    and other: "e_session (ent q e) = b" "s_key (sess q b) \<noteq> s_key (sess q r)" "b \<noteq> r"
      "spot_key q (sess q b) = None"
  shows "let q' = release_ws_spot now r q in
    e_go (ent q' e) \<and> q_queue q' = [] \<and> length (q_spots q') = length (q_spots q) \<and>
    dict_has (q_spots q') (s_key (sess q b)) \<and> \<not> dict_has (q_spots q') (s_key (sess q r)) \<and>
    s_inflight (sess q' r) = s_inflight (sess q r) - 1 \<and> 1 \<le> s_inflight (sess q' r)"
proof -
  let ?p = "upd_sess r (\<lambda>s. s\<lparr>s_spot_held := False\<rparr>)
     ((upd_sess r (\<lambda>s. s\<lparr>s_inflight := s_inflight s - 1\<rparr>) q)
        \<lparr>q_spots := dict_pop (s_key (sess q r)) (q_spots q)\<rparr>)"
  have rel: "release_ws_spot now r q = try_promote now ?p"
    using spot busy by (simp add: release_ws_spot_def Let_def)
  have len: "length (dict_pop (s_key (sess q r)) (q_spots q)) + 1 = length (q_spots q)"
    using spot cap(3) length_dict_pop by simp
  have none: "spot_key ?p (sess q b) = None"
    using other(4) by (auto simp: spot_key_def split: if_splits option.splits)
  have el: "eligible ?p e"
    using none other atomic cap len by (auto simp: eligible_def Let_def)
  have "promote_loop now ?p = promote_loop now (promote now e ?p)"
    by (rule promote_loop_Some) (simp add: queue el)
  also have "\<dots> = promote now e ?p"
    by (rule promote_loop_None) (simp add: queue)
  finally have "release_ws_spot now r q = promote now e ?p"
    by (simp add: rel try_promote_def ready)
  then show ?thesis
    using none other busy len queue spot spot_key_None [OF other(4)]
    by (simp add: Let_def promote_spots promote_heap length_dict_put)
qed

text \<open>
  A WebSocket that has to wait runs as nobody. Unlike a queued request, a WebSocket that waits
  for a spot does not count as waiting on its session. So one tick of the manager during the wait
  forgets a session that is new; when a spot becomes free the connection takes it all the
  same, and then the spot is one that no tracked session holds.
\<close>

theorem ws_wait_untracks_session:
  assumes inv: "q_inv R ws q" and fresh: "\<not> dict_has (q_sessions q) (c, i)" and empty: "q_queue q = []"
    and goc: "get_or_create_session c i api ip ua t0 q = (r, q1)"
    and tick: "tick t1 clk q1 = (rel, q2)"
    and free: "int (length (q_spots q2)) < q_max_spots q2"
  shows "\<exists>q3. ws_take_spot t2 r q2 = Some q3 \<and> dict_get (q_spots q3) (c, i) = Some t2 \<and>
    \<not> dict_has (q_sessions q3) (c, i) \<and> leak_inv (c, i) q3"
proof -
  note F = tick_forgets_new_session [OF inv fresh empty goc tick]
  let ?q3 = "upd_sess r (\<lambda>s. s\<lparr>s_spot_held := True, s_spot_acquired_at := t2, s_inflight := s_inflight s + 1\<rparr>)
    (q2\<lparr>q_spots := dict_put (c, i) t2 (q_spots q2)\<rparr>)"
  have "q_inv R ws q1" using get_or_create_inv [OF inv goc] by blast
  from tick_inv [OF this tick] have keys: "keys_ok q2" by (rule q_inv_keys_ok)
  have "ws_take_spot t2 r q2 = Some ?q3"
    using F free by (simp add: ws_take_spot_def Let_def)
  moreover have "leak_inv (c, i) ?q3"
    using F keys by (auto simp: leak_inv_def leaked_def keys_ok_def dict_has_def [of "q_sessions _"])
  ultimately show ?thesis using F by (intro exI [of _ ?q3]) simp
qed

section \<open>The hold of a WebSocket wakes nobody\<close>

text \<open>The rest of the program issues no power command.\<close>

definition commandless_world :: "'b surroundings \<Rightarrow> bool" where
  "commandless_world W \<longleftrightarrow> (\<forall>n s. v_log (ep_server (w_env W n s)) = v_log (ep_server s)) \<and>
     (\<forall>n. commandless (w_server_env W n))"

lemma pass_log: "commandless_world W \<Longrightarrow> v_log (ep_server (pass W s)) = v_log (ep_server s)"
  by (simp add: commandless_world_def pass_def)

lemma on_server_log:
  assumes "commandless_world W"
    and "\<And>env srv. commandless env \<Longrightarrow> v_log (snd (h env srv)) = v_log srv @ cs"
  shows "v_log (ep_server (snd (on_server W h s))) = v_log (ep_server s) @ cs"
proof -
  have "commandless (w_server_env W (ep_awaits s))" using assms(1) by (simp add: commandless_world_def)
  from assms(2) [OF this] show ?thesis
    by (simp add: on_server_def split_beta Let_def pass_log [OF assms(1)])
qed

lemma service_ready_log: "commandless env \<Longrightarrow> v_log (snd (note_service_ready env now s)) = v_log s @ []"
  using commandless_log [of env]
  by (simp add: note_service_ready_def snd_hbind await_store_eq Let_def split: sum.split)

interpretation silent: endpoint_probes W
  "\<lambda>s s'. commandless_world W \<longrightarrow> v_log (ep_server s') = v_log (ep_server s)" for W :: "'b surroundings"
  by unfold_locales (auto simp: pass_log upd_queue_def commandless_world_def service_ready_log [simplified])

lemma ws_holds_log:
  "commandless_world W \<longrightarrow> v_log (ep_server (snd (wait_ws_ready W deadline polls s))) = v_log (ep_server s)"
  "commandless_world W \<longrightarrow> v_log (ep_server (snd (hold_ws_spot W r deadline polls s))) = v_log (ep_server s)"
proof (induction polls arbitrary: s)
  case (Cons gone polls)
  {
    case 1
    have "commandless_world W \<longrightarrow> v_log (ep_server
        (snd (hbind (pause W) (\<lambda>_. wait_ws_ready W deadline polls) s))) = v_log (ep_server s)"
      by (rule silent.keeps_bind, rule silent.keeps_pause, rule Cons.IH)
    then show ?case by simp
  next
    case 2
    have "commandless_world W \<longrightarrow> v_log (ep_server
        (snd (hbind (pause W) (\<lambda>_. hold_ws_spot W r deadline polls) s))) = v_log (ep_server s)"
      by (rule silent.keeps_bind, rule silent.keeps_pause, rule Cons.IH)
    then show ?case by (simp split: option.split)
  }
qed (auto split: option.split)

lemma run_ws_log:
  "commandless_world W \<longrightarrow>
     v_log (ep_server (snd (run_ws W ws ident passthrough polls carried s))) = v_log (ep_server s)"
proof -
  have tunnelled: "commandless_world W \<longrightarrow> v_log (ep_server (snd (hbind (pause W) (\<lambda>_.
      hbind (hmod g) (\<lambda>_. hret v)) s))) = v_log (ep_server s)"
    if "\<And>s. ep_server (g s) = ep_server s" for g s and v :: ws_outcome
    by (rule silent.keeps_bind, rule silent.keeps_pause) (simp add: that)
  have held: "commandless_world W \<longrightarrow> v_log (ep_server (snd (hbind
      (hold_ws_spot W r deadline polls) (\<lambda>held. case held of
          None \<Rightarrow> hret WsHolding | Some False \<Rightarrow> hret WsRejected
        | Some True \<Rightarrow> hbind (pause W) (\<lambda>_.
            hbind (hmod (\<lambda>s. upd_queue (release_ws_spot (clock W s) r) s)) (\<lambda>_. hret (WsTunnelled carried)))) s))) =
      v_log (ep_server s)" for r deadline s
    by (rule silent.keeps_bind, rule ws_holds_log)
       (auto split: option.split bool.split intro!: tunnelled simp: upd_queue_def)
  show ?thesis
    using held tunnelled [where g = "finish_forward None" and v = "WsTunnelled carried" and s = "s\<lparr>ep_active_forwards := ep_active_forwards s + 1\<rparr>"]
    by (auto simp: run_ws_def finish_forward_def split_beta Let_def)
qed

text \<open>
  C40: A waiting WebSocket wakes nobody. As long as nobody else issues a power command, the
  admission of a WebSocket issues none, however long it waits for the endpoint to become READY;
  a held HTTP request does, at once, when the server is down and the cooldown is over.
\<close>

theorem held_websocket_never_wakes:
  assumes "commandless_world W"
  shows "v_log (ep_server (snd (admit_ws W ws passthrough ready_polls spot_polls carried s))) =
      v_log (ep_server s) \<and>
    (\<not> q_ready (ep_queue s) \<longrightarrow> is_down s \<longrightarrow>
       v_power_on_cooldown (ep_server s) < clock W s - v_last_power_on_attempt (ep_server s) \<longrightarrow>
       v_log (ep_server (snd (ensure_wake W s))) =
         v_log (ep_server s) @ [CmdOn ''request_wake'' (clock W s)])"
proof (intro conjI impI)
  have gate: "commandless_world W \<longrightarrow> v_log (ep_server (snd (readiness_gate W s))) = v_log (ep_server s)" for s
    using silent.keeps_then_return [of W "check_readiness W" "()" s] silent.keeps_check_readiness
    by (auto simp: readiness_gate_def)
  have wait: "commandless_world W \<longrightarrow> v_log (ep_server (snd (hbind
      (wait_ws_ready W deadline ready_polls) (\<lambda>result s. case result of None \<Rightarrow> (Inr WsHolding, s)
        | Some w \<Rightarrow> if w \<noteq> WOk then (Inr WsRejected, s)
                   else run_ws W ws ident passthrough spot_polls carried s) s))) = v_log (ep_server s)"
    for deadline ident s
    by (rule silent.keeps_bind, rule ws_holds_log) (auto split: option.split simp: run_ws_log)
  have "commandless_world W \<longrightarrow>
      v_log (ep_server (snd (admit_ws W ws passthrough ready_polls spot_polls carried s))) = v_log (ep_server s)"
    unfolding admit_ws_def Let_def
    by (rule silent.keeps_bind, rule silent.keeps_pause, rule silent.keeps_bind, rule gate)
       (auto simp: run_ws_log wait)
  with assms show "v_log (ep_server (snd (admit_ws W ws passthrough ready_polls spot_polls carried s))) =
      v_log (ep_server s)" by simp
next
  let ?h = "\<lambda>env. maybe_power_on (w_ops W) env ''request_wake'' (w_uid W (ep_awaits s)) (clock W s)"
  assume "\<not> q_ready (ep_queue s)" and "is_down s"
    and due: "v_power_on_cooldown (ep_server s) < clock W s - v_last_power_on_attempt (ep_server s)"
  moreover have "v_log (ep_server (snd (on_server W ?h s))) =
      v_log (ep_server s) @ [CmdOn ''request_wake'' (clock W s)]"
  proof -
    have "commandless (w_server_env W (ep_awaits s))" using assms by (simp add: commandless_world_def)
    from power_on_log [OF this] show ?thesis
      using due by (simp add: on_server_def split_beta Let_def pass_log [OF assms] maybe_power_on_def)
  qed
  ultimately show "v_log (ep_server (snd (ensure_wake W s))) =
      v_log (ep_server s) @ [CmdOn ''request_wake'' (clock W s)]"
    by (simp add: ensure_wake_def wake_def snd_hbind split: sum.split)
qed

section \<open>Witnesses\<close>

lemma ab_tracked: "tracked ab_queue 0"
  by (simp add: tracked_def ab_defs new_session_def)

lemma ws_spots_keep_invariant_witness:
  "\<exists>q'. ws_take_spot 6 0 ab_queue = Some q' \<and> q_inv {} ((\<lambda>_. 0)(0 := 1)) q' \<and>
     (\<exists>R'. q_inv R' (\<lambda>_. 0) (release_ws_spot 7 0 q'))"
proof -
  obtain q' where "ws_take_spot 6 0 ab_queue = Some q'"
    by (simp add: ws_take_spot_def ab_queue_eq Let_def dict_has_def ab_defs new_session_def)
  then show ?thesis
    using ws_spots_keep_invariant [OF ab_inv ab_tracked, of 6 7] by simp
qed

text \<open>Session a runs a request and a WebSocket on its spot.\<close>

definition shared_queue :: equeue where
  "shared_queue = upd_sess 0 (\<lambda>s. s\<lparr>s_inflight := 2\<rparr>) ab_queue"

lemma ws_close_overcommits_witness:
  "e_go (ent (release_ws_spot 9 0 shared_queue) 1) \<and>
   \<not> dict_has (q_spots (release_ws_spot 9 0 shared_queue)) (''claude'', ''a'') \<and>
   1 \<le> s_inflight (sess (release_ws_spot 9 0 shared_queue) 0)"
  using ws_close_overcommits [of shared_queue 1 0 1 9]
  by (simp add: shared_queue_def ab_defs new_session_def new_entry_def init_queue_def dict_has_def
      dict_ok_def spot_key_def Let_def)

lemma ws_wait_untracks_session_witness:
  "\<exists>q3. ws_take_spot 2 0 (snd (tick 1 1 (snd (get_or_create_session ''claude'' ''a'' ''openai'' ''10.0.0.7''
       ''curl'' 0 one_spot)))) = Some q3 \<and> \<not> dict_has (q_sessions q3) (''claude'', ''a'')"
proof -
  let ?goc = "get_or_create_session ''claude'' ''a'' ''openai'' ''10.0.0.7'' ''curl'' 0 one_spot"
  have inv: "q_inv {} (\<lambda>_. 0) one_spot"
    using qsys_init_inv [of 1 "- 1" 10 60 False False]
    by (simp add: one_spot_def qsys_inv_def qsys_init_def)
  have r: "?goc = (0, snd ?goc)"
    by (simp add: one_spot_def queue_op_simps)
  have "int (length (q_spots (snd (tick 1 1 (snd ?goc))))) < q_max_spots (snd (tick 1 1 (snd ?goc)))"
    by (simp add: one_spot_def queue_op_simps queue_tick_simps)
  from ws_wait_untracks_session [OF inv _ _ r prod.collapse [symmetric] this, of 2] show ?thesis
    by (auto simp: one_spot_def init_queue_def)
qed

definition sleeping_endpoint :: "noop_backend endpoint" where
  "sleeping_endpoint = demo_endpoint\<lparr>ep_queue := ab_queue\<lparr>q_ready := False\<rparr>,
     ep_server := owned_server\<lparr>v_power_state := PowerOff\<rparr>\<rparr>"

definition demo_socket :: websocket_request where
  "demo_socket = \<lparr>ws_path = ''/v1/live'', ws_query_params = [], ws_headers = [], ws_client = None\<rparr>"

definition demo_tunnelled :: tunnelled where
  "demo_tunnelled = \<lparr>tn_to_target = [], tn_to_client = [], tn_releases = 1\<rparr>"

lemma held_websocket_never_wakes_witness:
  "v_log (ep_server (snd (admit_ws demo_world demo_socket False [False, False, False] [] demo_tunnelled sleeping_endpoint))) = [] \<and>
   v_log (ep_server (snd (ensure_wake demo_world sleeping_endpoint))) = [CmdOn ''request_wake'' 70]"
proof -
  have w: "commandless_world demo_world"
    by (simp add: commandless_world_def demo_world_def commandless_still)
  show ?thesis
    using held_websocket_never_wakes [OF w, of demo_socket False "[False, False, False]" "[]" demo_tunnelled sleeping_endpoint]
    by (simp add: sleeping_endpoint_def demo_defs is_down_def clock_def demo_world_def)
qed

end
