(* ===== verification/Relay_Wake.thy ===== *)
theory Relay_Wake
  imports Relay_Ws_Props
begin

text \<open>
  The wake-up of a server, from the first held request to the promotion of those who wait: what
  the turns of the queue manager of one endpoint achieve while the server boots. The rest of the
  program may do at every await what leaves the wake-up alone (\<open>calm\<close>): requests come and finish,
  sessions are reported, a poll may find the machine on; but the waiting client stays, and nobody
  else issues power commands or flips READY.
\<close>

section \<open>Calm surroundings\<close>

definition undisturbed_server :: "'b server \<Rightarrow> 'b server \<Rightarrow> bool" where
  "undisturbed_server v v' \<longleftrightarrow> v_log v' = v_log v \<and> v_last_power_on_attempt v' = v_last_power_on_attempt v \<and>
     v_power_on_cooldown v' = v_power_on_cooldown v \<and>
     (v_power_state v' = v_power_state v \<or> v_power_state v' = PowerOn)"

definition waits :: "'b endpoint \<Rightarrow> bool" where
  "waits s \<longleftrightarrow> \<not> q_ready (ep_queue s) \<and> q_queue (ep_queue s) \<noteq> []"

definition undisturbed :: "'b endpoint \<Rightarrow> 'b endpoint \<Rightarrow> bool" where
  "undisturbed s s' \<longleftrightarrow> undisturbed_server (ep_server s) (ep_server s') \<and> ep_config s' = ep_config s \<and>
     q_ready (ep_queue s') = q_ready (ep_queue s) \<and> (waits s \<longrightarrow> waits s')"

definition calm :: "'b surroundings \<Rightarrow> bool" where
  "calm W \<longleftrightarrow> (\<forall>n s. undisturbed s (w_env W n s)) \<and> (\<forall>n i v. undisturbed_server v (w_server_env W n i v))"

lemma undisturbed_server_refl [simp]: "undisturbed_server v v"
  by (simp add: undisturbed_server_def)

lemma undisturbed_server_trans: "undisturbed_server v w \<Longrightarrow> undisturbed_server w x \<Longrightarrow> undisturbed_server v x"
  by (auto simp: undisturbed_server_def)

lemma undisturbed_refl [simp]: "undisturbed s s"
  by (simp add: undisturbed_def)

lemma undisturbed_trans: "undisturbed s t \<Longrightarrow> undisturbed t u \<Longrightarrow> undisturbed s u"
  by (auto simp: undisturbed_def intro: undisturbed_server_trans)

lemma undisturbed_aside:
  "ep_queue t = ep_queue s \<Longrightarrow> ep_server t = ep_server s \<Longrightarrow> ep_config t = ep_config s \<Longrightarrow> undisturbed s t"
  by (simp add: undisturbed_def waits_def)

lemma calm_pass: "calm W \<Longrightarrow> undisturbed s (pass W s)"
  unfolding calm_def pass_def
  by (rule undisturbed_trans [of _ "s\<lparr>ep_awaits := Suc (ep_awaits s)\<rparr>"]) (auto intro: undisturbed_aside)

text \<open>The polls of a turn disturb nothing, and never raise.\<close>

interpretation polled: endpoint_polls W "\<lambda>s s'. calm W \<longrightarrow> undisturbed s s'" for W :: "'b surroundings"
  by unfold_locales
     (auto simp: calm_pass undisturbed_aside intro: undisturbed_trans,
      auto simp: undisturbed_def waits_def upd_queue_def upd_sess_def)

definition total_task :: "('b, 'a) task \<Rightarrow> bool" where
  "total_task t \<longleftrightarrow> (\<forall>s. \<exists>v. fst (t s) = Inr v)"

lemma total_bind: "total_task m \<Longrightarrow> (\<And>v. total_task (f v)) \<Longrightarrow> total_task (hbind m f)"
  by (simp add: total_task_def fst_hbind split: sum.split) (metis sum.distinct(1))

lemma total_basics [simp]: "total_task (hret v)" "total_task (hmod g)" "total_task (exchange W a)" "total_task (pause W)"
  "total_task (\<lambda>s. exchange W (f s) s)"
  by (simp_all add: total_task_def hret_def hmod_def exchange_def pause_def)

lemma total_if: "total_task m \<Longrightarrow> total_task k \<Longrightarrow> total_task (\<lambda>s. if b s then m s else k s)"
  by (simp add: total_task_def)

lemma total_polls: "total_task (poll_all W now gs)"
proof (induction gs)
  case (Cons g gs)
  obtain client base rs where g: "g = ((client, base), rs)" by (metis surj_pair)
  have dir: "total_task (session_directory W client base r)" for r
    unfolding total_task_def session_directory_def Let_def
    by (auto simp: fst_hbind exchange_def hret_def hmod_def split: option.split)
  have dirs: "total_task (resolve_dirs W client base rs by_dir)" for by_dir
    by (induction rs arbitrary: by_dir) (auto simp del: hbind_hmod split: option.split intro!: total_bind dir)
  have poll: "total_task (poll_dirs W client base drs)" for drs
    by (induction drs) (auto simp: poll_dir_def simp del: hbind_hmod intro!: total_bind)
  have "total_task (poll_group W now g)"
  proof -
    have t: "total_task (hbind (hmod f) (\<lambda>_. hbind (resolve_dirs W client base rs []) (\<lambda>by_dir.
        hbind (poll_dirs W client base by_dir) (\<lambda>_. hmod h))))" for f h
      by (intro total_bind dirs poll total_basics)
    show ?thesis
      unfolding g poll_group_def using t by (simp add: total_task_def)
  qed
  then show ?case using Cons by (simp add: total_bind)
qed simp

section \<open>A tick while the endpoint is not READY\<close>

lemma unready_release: "\<not> q_ready q \<Longrightarrow> q_queue (release_spot clk r k q) = q_queue q \<and> \<not> q_ready (release_spot clk r k q)"
  by (simp add: release_spot_def Let_def try_promote_def)

lemma ready_release: "q_ready (release_spot clk r k q) = q_ready q"
  by (simp add: release_spot_def Let_def)

lemma ready_tick_status [simp]: "q_ready (tick_status now r q) = q_ready q"
  by (simp add: tick_status_def split: prod.splits)

lemma ready_tick_one: "q_ready (fst (tick_one now clk kr (q, rel))) = q_ready q"
  by (cases kr) (simp add: tick_one_fst Let_def ready_release)

lemma unready_tick_one: "\<not> q_ready q \<Longrightarrow> q_queue (fst (tick_one now clk kr (q, rel))) = q_queue q"
  by (cases kr) (simp add: tick_one_fst Let_def unready_release)

lemma tick_ready: "q_ready (snd (tick now clk q)) = q_ready q"
  and unready_tick: "\<not> q_ready q \<Longrightarrow> q_queue (snd (tick now clk q)) = q_queue q"
proof -
  have "q_ready (fst (fold (tick_one now clk) items (p, rel))) = q_ready p \<and>
      (\<not> q_ready p \<longrightarrow> q_queue (fst (fold (tick_one now clk) items (p, rel))) = q_queue p)" for items p rel
  proof (induction items arbitrary: p rel)
    case (Cons kr items)
    obtain p' rel' where one: "tick_one now clk kr (p, rel) = (p', rel')" by fastforce
    then show ?case
      using Cons.IH [of p' rel'] ready_tick_one [of now clk kr p rel] unready_tick_one [of p now clk kr rel] by simp
  qed simp
  then show "q_ready (snd (tick now clk q)) = q_ready q"
    and "\<not> q_ready q \<Longrightarrow> q_queue (snd (tick now clk q)) = q_queue q"
    by (simp_all add: tick_def split_beta)
qed

lemma tick_undisturbed: "undisturbed s (upd_queue (\<lambda>q. snd (tick now clk q)) s)"
  by (simp add: undisturbed_def waits_def upd_queue_def tick_ready unready_tick)


section \<open>A turn while the probe finds the endpoint down\<close>

definition probes :: "'b surroundings \<Rightarrow> endpoint_config \<Rightarrow> bool \<Rightarrow> bool" where
  "probes W c ok \<longleftrightarrow> (\<forall>n q. healthy_answer (ec_readiness c) (w_probe W n q) = ok)"

text \<open>The wakes of a turn: none, or one at a time of that turn.\<close>

definition wakes_of :: "'b surroundings \<Rightarrow> power_command list \<Rightarrow> bool" where
  "wakes_of W cs \<longleftrightarrow> cs = [] \<or> (\<exists>n. cs = [CmdOn ''request_wake'' (w_clock W n)])"

text \<open>What a turn leaves of an endpoint that waits, when nothing else is known of its probes.\<close>

definition waited :: "'b surroundings \<Rightarrow> 'b endpoint \<Rightarrow> 'b endpoint \<Rightarrow> bool" where
  "waited W s s' \<longleftrightarrow> waits s' \<and> ep_config s' = ep_config s \<and>
     (v_power_state (ep_server s') = v_power_state (ep_server s) \<or> v_power_state (ep_server s') = PowerOn) \<and>
     (\<exists>cs. v_log (ep_server s') = v_log (ep_server s) @ cs \<and> wakes_of W cs \<and>
        (is_down s' \<longrightarrow> (\<forall>n. v_power_on_cooldown (ep_server s) < w_clock W n - v_last_power_on_attempt (ep_server s)) \<longrightarrow>
           cs \<noteq> []))"

definition stays_or_on :: "'b server \<Rightarrow> 'b server \<Rightarrow> bool" where
  "stays_or_on v v' \<longleftrightarrow> v_power_state v' = v_power_state v \<or> v_power_state v' = PowerOn"

interpretation powered: kept_relation stays_or_on
  by unfold_locales (auto simp: stays_or_on_def)

lemma powered_await:
  assumes "\<And>i v. undisturbed_server v (env i v)"
  shows "stays_or_on v (snd (await_backend (env i) f v))" and "stays_or_on v (snd (await_store (env i) g v))"
  using assms [of "v\<lparr>v_backend := snd (f (v_backend v))\<rparr>" i] assms [of "v\<lparr>v_store := snd (g (v_store v))\<rparr>" i]
  by (auto simp: undisturbed_server_def stays_or_on_def await_backend_eq await_store_eq)

lemma wake_server:
  assumes "\<And>i v. undisturbed_server v (env i v)"
  shows "stays_or_on v (snd (maybe_power_on ops env reason uid now v))"
    and "v_log (snd (maybe_power_on ops env reason uid now v)) =
      v_log v @ (if v_power_on_cooldown v < now - v_last_power_on_attempt v then [CmdOn reason now] else [])"
proof -
  have "stays_or_on v (snd (server_power_on ops env reason ''proxy'' uid now v))" for v
    unfolding server_power_on_def
    by (auto simp del: hbind_hmod simp: stays_or_on_def [of _ "_\<lparr>v_transient := _\<rparr>"] stays_or_on_def [of _ "_\<lparr>v_transient := _, v_log := _\<rparr>"]
        stays_or_on_def [of _ "_\<lparr>v_owned := _, v_shutdown_override := _, v_cycle_id := _\<rparr>"]
        intro!: powered.keeps_bind powered_await [OF assms] powered.kept_refl)
  from this [of "v\<lparr>v_last_power_on_attempt := now\<rparr>"]
  show "stays_or_on v (snd (maybe_power_on ops env reason uid now v))"
    by (auto simp: maybe_power_on_def stays_or_on_def)
  have "commandless env" using assms by (simp add: commandless_def undisturbed_server_def)
  then show "v_log (snd (maybe_power_on ops env reason uid now v)) =
      v_log v @ (if v_power_on_cooldown v < now - v_last_power_on_attempt v then [CmdOn reason now] else [])"
    by (auto simp: maybe_power_on_def power_on_log)
qed

lemma check_settled:
  assumes "calm W" and "probes W (ep_config s) (q_ready (ep_queue s))"
  shows "check_readiness W s = (Inr (q_ready (ep_queue s)), (pass W s)\<lparr>ep_last_check_at := Some (wall W (pass W s))\<rparr>)"
  using assms calm_pass [OF assms(1), of s]
  by (simp add: check_readiness_def Let_def probes_def exchange_def hbind_def hmod_def hret_def undisturbed_def)


lemma wake_waited:
  assumes "calm W" and "waits s"
  shows "waited W s (snd (wake W s))"
proof -
  let ?v = "snd (maybe_power_on (w_ops W) (w_server_env W (ep_awaits s)) ''request_wake'' (w_uid W (ep_awaits s))
    (clock W s) (ep_server s))"
  have env: "undisturbed_server v (w_server_env W (ep_awaits s) i v)" for i v
    using assms(1) by (simp add: calm_def)
  have s': "snd (wake W s) = pass W (s\<lparr>ep_server := ?v\<rparr>)"
    by (simp add: wake_def on_server_def snd_hbind split_beta Let_def hret_def split: sum.split)
  from calm_pass [OF assms(1), of "s\<lparr>ep_server := ?v\<rparr>"] assms(2)
  show ?thesis
    unfolding s' waited_def
    using wake_server [where env = "w_server_env W (ep_awaits s)" and ops = "w_ops W" and reason = "''request_wake''"
      and uid = "w_uid W (ep_awaits s)" and now = "clock W s" and v = "ep_server s", OF env]
    by (auto simp: undisturbed_def waits_def undisturbed_server_def stays_or_on_def wakes_of_def clock_def)
qed

lemma waited_after: "undisturbed s t \<Longrightarrow> waited W t u \<Longrightarrow> waited W s u"
  by (auto simp: undisturbed_def undisturbed_server_def waited_def)

lemma waited_before: "waited W s t \<Longrightarrow> undisturbed t u \<Longrightarrow> waited W s u"
  by (auto simp: undisturbed_def undisturbed_server_def waited_def is_down_def)

lemma serve_unready:
  assumes "calm W" and "waits s" and "probes W (ep_config s) False"
  shows "waited W s (snd (serve_waiters W now last_check s)) \<and>
    fst (serve_waiters W now last_check s) \<in> range Inl \<union> {Inr last_check, Inr now}"
proof -
  let ?u = "(pass W s)\<lparr>ep_last_check_at := Some (wall W (pass W s))\<rparr>"
  have check: "check_readiness W s = (Inr False, ?u)"
    using check_settled [of W s] assms by (simp add: waits_def)
  have u: "undisturbed s ?u"
    using undisturbed_trans [OF calm_pass [OF assms(1)] undisturbed_aside, of ?u s] by simp
  have rest: "waited W t (snd (hbind (\<lambda>s. if \<not> q_ready (ep_queue s) \<and> is_down s then wake W s else (Inr (), s)) (\<lambda>_.
      hbind (hmod (\<lambda>s. if q_ready (ep_queue s) then upd_queue (try_promote (clock W s)) s else s)) (\<lambda>_.
      hret l)) t)) \<and>
     fst (hbind (\<lambda>s. if \<not> q_ready (ep_queue s) \<and> is_down s then wake W s else (Inr (), s)) (\<lambda>_.
      hbind (hmod (\<lambda>s. if q_ready (ep_queue s) then upd_queue (try_promote (clock W s)) s else s)) (\<lambda>_.
      hret l)) t) \<in> range Inl \<union> {Inr l}" if "waits t" for t l
    using wake_waited [OF assms(1) that] that
    by (auto simp: snd_hbind fst_hbind hret_def waited_def waits_def wakes_of_def is_down_def split: sum.split)
  show ?thesis
  proof (cases "2 \<le> now - last_check")
    case True
    then show ?thesis
      using rest [of ?u now] u assms(2) waited_after [OF u, of W]
      by (auto simp: serve_waiters_def check hbind_def hret_def undisturbed_def)
  next
    case False
    then show ?thesis using rest [OF assms(2), of last_check] by (auto simp: serve_waiters_def hbind_def hret_def)
  qed
qed


text \<open>The part of a tick after the polls and the surrender of spots.\<close>

definition serve_and_prune :: "'b surroundings \<Rightarrow> time \<Rightarrow> time \<Rightarrow> ('b, time) task" where
  "serve_and_prune W now last_check =
     hbind (\<lambda>s. if q_queue (ep_queue s) \<noteq> [] then serve_waiters W now last_check s else (Inr last_check, s)) (\<lambda>last_check.
     hbind (hmod (\<lambda>s. if ec_catch_all (ep_config s)
         then s\<lparr>ep_tracker := tracker_prune now (sc_expiry (ec_session (ep_config s))) (ep_tracker s)\<rparr> else s)) (\<lambda>_.
     hret last_check))"

lemma tick_polls:
  assumes "calm W"
  shows "\<exists>u. undisturbed s u \<and> queue_manager_tick W last_check s = serve_and_prune W (clock W s) last_check u"
proof -
  obtain v t where polls: "poll_all W (clock W s) (poll_groups s) s = (Inr v, t)"
    using total_polls [of W "clock W s" "poll_groups s"] unfolding total_task_def by (metis prod.collapse)
  have t: "undisturbed s t" using polled.keeps_poll_all [of W s "clock W s" "poll_groups s"] assms by (simp add: polls)
  let ?u = "upd_queue (\<lambda>q. snd (tick (clock W s) (clock W t) q)) t"
  have "queue_manager_tick W last_check s = serve_and_prune W (clock W s) last_check ?u"
    by (simp add: queue_manager_tick_def serve_and_prune_def Let_def hbind_def polls hmod_def)
  then show ?thesis using undisturbed_trans [OF t tick_undisturbed] by blast
qed

lemma turn_parts:
  assumes "calm W"
  obtains u n where "undisturbed s u"
    and "manager_pass W last_check s =
      (case serve_and_prune W (w_clock W n) last_check u of
         (Inl _, s') \<Rightarrow> (last_check, s') | (Inr t, s') \<Rightarrow> (t, s'\<lparr>ep_last_manager_tick := Some (clock W s')\<rparr>))"
proof -
  obtain u where "undisturbed (pass W s) u"
    "queue_manager_tick W last_check (pass W s) = serve_and_prune W (clock W (pass W s)) last_check u"
    using tick_polls [OF assms] by blast
  then show ?thesis
    using undisturbed_trans [OF calm_pass [OF assms]]
    by (intro that [of u "ep_awaits (pass W s)"]) (auto simp: manager_pass_def clock_def)
qed

lemma turn_waiting:
  assumes "calm W" and "waits s" and "probes W (ep_config s) False"
  shows "waited W s (snd (manager_pass W last_check s)) \<and>
    fst (manager_pass W last_check s) \<in> insert last_check (range (w_clock W))"
proof -
  obtain u n where u: "undisturbed s u" and turn: "manager_pass W last_check s =
      (case serve_and_prune W (w_clock W n) last_check u of
         (Inl _, s') \<Rightarrow> (last_check, s') | (Inr t, s') \<Rightarrow> (t, s'\<lparr>ep_last_manager_tick := Some (clock W s')\<rparr>))"
    by (rule turn_parts [OF assms(1)])
  have w: "waits u" "ep_config u = ep_config s" using u assms(2) by (auto simp: undisturbed_def)
  obtain r t where r: "serve_waiters W (w_clock W n) last_check u = (r, t)" by fastforce
  have serve: "waited W u t" "r \<in> range Inl \<union> {Inr last_check, Inr (w_clock W n)}"
    using serve_unready [OF assms(1) w(1), of "w_clock W n" last_check] assms(3) by (auto simp: w(2) r)
  have "waited W u t'" if "ep_queue t' = ep_queue t" "ep_server t' = ep_server t" "ep_config t' = ep_config t" for t'
    by (rule waited_before [OF serve(1) undisturbed_aside [OF that]])
  then show ?thesis
    using serve w waited_after [OF u]
    by (auto simp: turn serve_and_prune_def waits_def hbind_def hmod_def hret_def r split: sum.split)
qed

section \<open>The turn that finds the endpoint READY\<close>

lemma service_ready_on:
  assumes "\<And>i v. undisturbed_server v (env i v)"
  shows "v_power_state (snd (note_service_ready env now v)) = PowerOn \<and> v_log (snd (note_service_ready env now v)) = v_log v"
proof -
  have on: "v_power_state (env i x) = PowerOn" if "v_power_state x = PowerOn" for i x
    using assms [of x i] that by (auto simp: undisturbed_server_def)
  have log: "v_log (env i x) = v_log x" for i x using assms [of x i] by (simp add: undisturbed_server_def)
  show ?thesis
    by (auto simp: note_service_ready_def snd_hbind await_store_eq Let_def set_state_def log on split: sum.split)
qed

text \<open>What a healthy turn leaves: READY, the server on, no command.\<close>

definition found_ready :: "'b endpoint \<Rightarrow> 'b endpoint \<Rightarrow> bool" where
  "found_ready s s' \<longleftrightarrow> q_ready (ep_queue s') \<and> ep_config s' = ep_config s \<and>
     v_power_state (ep_server s') = PowerOn \<and> v_log (ep_server s') = v_log (ep_server s)"

lemma found_before: "found_ready s t \<Longrightarrow> undisturbed t u \<Longrightarrow> found_ready s u"
  by (auto simp: found_ready_def undisturbed_def undisturbed_server_def)

lemma found_after: "undisturbed s t \<Longrightarrow> found_ready t u \<Longrightarrow> found_ready s u"
  by (auto simp: found_ready_def undisturbed_def undisturbed_server_def)

lemma became_ready_found:
  assumes "calm W" and "q_ready (ep_queue s)"
  shows "found_ready s (snd (became_ready W s))"
proof -
  let ?n = "ep_awaits s"
  let ?v = "snd (note_service_ready (w_server_env W ?n) (clock W s) (ep_server s))"
  have "snd (became_ready W s) = pass W (s\<lparr>ep_ready_since := Some (wall W s), ep_server := ?v\<rparr>)"
    by (simp add: became_ready_def on_server_def clock_def split_beta Let_def)
  moreover have "undisturbed_server v (w_server_env W ?n i v)" for i v using assms(1) by (simp add: calm_def)
  from service_ready_on [of "w_server_env W ?n", OF this, of "clock W s" "ep_server s"]
  have "found_ready s (s\<lparr>ep_ready_since := Some (wall W s), ep_server := ?v\<rparr>)"
    using assms(2) by (simp add: found_ready_def)
  ultimately show ?thesis using found_before [OF _ calm_pass [OF assms(1)]] by simp
qed


lemma check_finds_ready:
  assumes "calm W" and "waits s" and "probes W (ep_config s) True"
  shows "found_ready s (snd (check_readiness W s))"
proof -
  let ?t = "(pass W s)\<lparr>ep_last_check_at := Some (wall W (pass W s))\<rparr>"
  let ?r = "upd_queue (\<lambda>q. q\<lparr>q_ready := True\<rparr>) ?t"
  have t: "undisturbed s ?t"
    using undisturbed_trans [OF calm_pass [OF assms(1)] undisturbed_aside, of ?t s] by simp
  have found: "found_ready ?r (snd (became_ready W ?r))"
    by (rule became_ready_found [OF assms(1)]) (simp add: upd_queue_def)
  have stored: "found_ready x (snd (on_store W f y))" if "found_ready x y" for x y and f :: "store \<Rightarrow> unit res \<times> store"
    using that found_before [OF _ calm_pass [OF assms(1)], of x "y\<lparr>ep_server := (ep_server y)\<lparr>v_store := snd (f (v_store (ep_server y)))\<rparr>\<rparr>"]
    by (simp add: on_store_def split_beta Let_def found_ready_def)
  have "found_ready ?r (snd (readiness_transition W True ?t))"
    using found stored [OF found] by (simp add: readiness_transition_def snd_hbind split: sum.split)
  then have "found_ready ?t (snd (readiness_transition W True ?t))"
    by (simp add: found_ready_def upd_queue_def)
  moreover have "snd (check_readiness W s) = snd (readiness_transition W True ?t)"
    using assms(3) t assms(2)
    by (simp add: check_readiness_def Let_def exchange_def probes_def snd_hbind undisturbed_def waits_def hret_def
        split: sum.split)
  ultimately show ?thesis using found_after [OF t] by simp
qed

lemma serve_finds_ready:
  assumes "calm W" and "waits s" and "probes W (ep_config s) True" and "2 \<le> now - last_check"
  shows "found_ready s (snd (serve_waiters W now last_check s)) \<and>
    fst (serve_waiters W now last_check s) \<in> range Inl \<union> {Inr now}"
  using check_finds_ready [OF assms(1-3)] assms(4)
  by (auto simp: serve_waiters_def snd_hbind fst_hbind found_ready_def upd_queue_def hret_def split: sum.split)

lemma turn_finds_ready:
  assumes "calm W" and "waits s" and "probes W (ep_config s) True" and "\<And>n. 2 \<le> w_clock W n - last_check"
  shows "found_ready s (snd (manager_pass W last_check s)) \<and>
    fst (manager_pass W last_check s) \<in> insert last_check (range (w_clock W))"
proof -
  obtain u n where u: "undisturbed s u" and turn: "manager_pass W last_check s =
      (case serve_and_prune W (w_clock W n) last_check u of
         (Inl _, s') \<Rightarrow> (last_check, s') | (Inr t, s') \<Rightarrow> (t, s'\<lparr>ep_last_manager_tick := Some (clock W s')\<rparr>))"
    by (rule turn_parts [OF assms(1)])
  have w: "waits u" "ep_config u = ep_config s" using u assms(2) by (auto simp: undisturbed_def)
  obtain r t where r: "serve_waiters W (w_clock W n) last_check u = (r, t)" by fastforce
  have serve: "found_ready u t" "r \<in> range Inl \<union> {Inr (w_clock W n)}"
    using serve_finds_ready [OF assms(1) w(1) _ assms(4), of n] assms(3) by (auto simp: w(2) r)
  have "found_ready u t'" if "ep_queue t' = ep_queue t" "ep_server t' = ep_server t" "ep_config t' = ep_config t" for t'
    by (rule found_before [OF serve(1) undisturbed_aside [OF that]])
  then show ?thesis
    using serve w found_after [OF u]
    by (auto simp: turn serve_and_prune_def waits_def hbind_def hmod_def hret_def r split: sum.split)
qed

section \<open>The turn of an endpoint that is READY\<close>

definition nobody_eligible :: "equeue \<Rightarrow> bool" where
  "nobody_eligible q \<longleftrightarrow> (\<forall>e \<in> set (q_queue q). \<not> eligible q e)"

lemma promoted_nobody: "q_ready q \<Longrightarrow> nobody_eligible (try_promote clk q)"
  using promote_loop_stops [of clk q] by (simp add: nobody_eligible_def try_promote_def find_None_iff)

lemma serve_ready:
  assumes "calm W" and "q_ready (ep_queue s)" and "probes W (ep_config s) True"
  obtains l u clk where "serve_waiters W now last_check s = (Inr l, upd_queue (try_promote clk) u)"
    and "undisturbed s u"
proof -
  let ?u = "(pass W s)\<lparr>ep_last_check_at := Some (wall W (pass W s))\<rparr>"
  have check: "check_readiness W s = (Inr True, ?u)"
    using check_settled [of W s] assms by simp
  have u: "undisturbed s ?u"
    using undisturbed_trans [OF calm_pass [OF assms(1)] undisturbed_aside, of ?u s] by simp
  show ?thesis
  proof (cases "2 \<le> now - last_check")
    case True
    show ?thesis
      using u assms(2) True
      by (intro that [of now "clock W ?u" ?u]) (auto simp: serve_waiters_def check hbind_def hret_def hmod_def undisturbed_def)
  next
    case False
    show ?thesis
      using assms(2) False
      by (intro that [of last_check "clock W s" s]) (auto simp: serve_waiters_def hbind_def hret_def hmod_def)
  qed
qed

lemma turn_ready:
  assumes "calm W" and "q_ready (ep_queue s)" and "probes W (ep_config s) True"
  shows "q_ready (ep_queue (snd (manager_pass W last_check s))) \<and>
    nobody_eligible (ep_queue (snd (manager_pass W last_check s))) \<and>
    undisturbed_server (ep_server s) (ep_server (snd (manager_pass W last_check s)))"
proof -
  obtain u n where u: "undisturbed s u" and turn: "manager_pass W last_check s =
      (case serve_and_prune W (w_clock W n) last_check u of
         (Inl _, s') \<Rightarrow> (last_check, s') | (Inr t, s') \<Rightarrow> (t, s'\<lparr>ep_last_manager_tick := Some (clock W s')\<rparr>))"
    by (rule turn_parts [OF assms(1)])
  have r: "q_ready (ep_queue u)" "ep_config u = ep_config s" using u assms(2) by (auto simp: undisturbed_def)
  show ?thesis
  proof (cases "q_queue (ep_queue u) = []")
    case True
    then show ?thesis
      using u r by (simp add: turn serve_and_prune_def hbind_def hmod_def hret_def nobody_eligible_def undisturbed_def)
  next
    case False
    obtain l t clk where serve: "serve_waiters W (w_clock W n) last_check u = (Inr l, upd_queue (try_promote clk) t)"
      "undisturbed u t"
      by (rule serve_ready [OF assms(1) r(1)]) (simp_all add: r(2) assms(3))
    have "q_ready (ep_queue t)" using serve(2) r(1) by (simp add: undisturbed_def)
    then show ?thesis
      using u serve promoted_nobody [of "ep_queue t" clk] False
      by (auto simp: turn serve_and_prune_def hbind_def hmod_def hret_def undisturbed_def upd_queue_def
          intro: undisturbed_server_trans)
  qed
qed


section \<open>From the first wait to the promotion\<close>

text \<open>Consecutive turns of \<open>queue_manager\<close>, each in its own surroundings; the time of the last check goes along.\<close>

primrec turns :: "'b surroundings list \<Rightarrow> time \<times> 'b endpoint \<Rightarrow> time \<times> 'b endpoint" where
  "turns [] x = x"
| "turns (W # Ws) x = turns Ws (manager_pass W (fst x) (snd x))"

lemma turns_append: "turns (Ws @ Vs) x = turns Vs (turns Ws x)"
  by (induction Ws arbitrary: x) simp_all

definition wake_commands :: "'b surroundings list \<Rightarrow> power_command list \<Rightarrow> bool" where
  "wake_commands Ws cs \<longleftrightarrow> (\<forall>c \<in> set cs. \<exists>W \<in> set Ws. \<exists>n. c = CmdOn ''request_wake'' (w_clock W n))"

lemma turns_waiting:
  assumes "list_all calm boot" and "list_all (\<lambda>W. probes W (ep_config s) False) boot" and "waits s"
  shows "waits (snd (turns boot (last_check, s))) \<and> ep_config (snd (turns boot (last_check, s))) = ep_config s \<and>
    fst (turns boot (last_check, s)) \<in> insert last_check (\<Union>W \<in> set boot. range (w_clock W)) \<and>
    (\<exists>cs. v_log (ep_server (snd (turns boot (last_check, s)))) = v_log (ep_server s) @ cs \<and> wake_commands boot cs)"
  using assms
proof (induction boot arbitrary: last_check s)
  case (Cons W boot)
  obtain l t where turn: "manager_pass W last_check s = (l, t)" by fastforce
  have t: "waited W s t" "l \<in> insert last_check (range (w_clock W))"
    using turn_waiting [of W s last_check] Cons.prems by (simp_all add: turn)
  then obtain cs where cs: "v_log (ep_server t) = v_log (ep_server s) @ cs" "wakes_of W cs" by (auto simp: waited_def)
  have "waits t" "ep_config t = ep_config s" using t(1) by (simp_all add: waited_def)
  with Cons.IH [of t l] Cons.prems
  obtain cs' where rest: "waits (snd (turns boot (l, t)))" "ep_config (snd (turns boot (l, t))) = ep_config s"
    "fst (turns boot (l, t)) \<in> insert l (\<Union>W \<in> set boot. range (w_clock W))"
    "v_log (ep_server (snd (turns boot (l, t)))) = v_log (ep_server t) @ cs'" "wake_commands boot cs'" by auto
  have "wake_commands (W # boot) (cs @ cs')" using cs(2) rest(5) by (auto simp: wake_commands_def wakes_of_def)
  then show ?case using rest t(2) cs(1) by (auto simp: turn)
qed (simp add: wake_commands_def)

lemma first_turn_wakes:
  assumes "boot = W # Ws" and "list_all calm boot" and "list_all (\<lambda>W. probes W (ep_config s) False) boot" and "waits s"
    and "is_down (snd (manager_pass W last_check s))"
    and "\<forall>n. v_power_on_cooldown (ep_server s) < w_clock W n - v_last_power_on_attempt (ep_server s)"
    and "v_log (ep_server (snd (turns boot (last_check, s)))) = v_log (ep_server s) @ cs"
  shows "cs \<noteq> []"
proof -
  obtain l t where turn: "manager_pass W last_check s = (l, t)" by fastforce
  have t: "waited W s t" using turn_waiting [of W s last_check] assms(1-4) by (simp add: turn)
  then obtain ds where ds: "v_log (ep_server t) = v_log (ep_server s) @ ds" "ds \<noteq> []"
    using assms(5,6) by (auto simp: waited_def turn)
  have "\<exists>es. v_log (ep_server (snd (turns Ws (l, t)))) = v_log (ep_server t) @ es"
    using turns_waiting [of Ws t l] t assms(1-3) by (auto simp: waited_def)
  then show ?thesis using assms(1,7) ds by (auto simp: turn)
qed



text \<open>A cold server and one held request: the probe fails at 70 and succeeds from 80 on.\<close>

definition cold_endpoint :: "noop_backend endpoint" where
  "cold_endpoint = demo_endpoint\<lparr>ep_server := owned_server\<lparr>v_power_state := PowerOff\<rparr>,
     ep_queue := ab_queue\<lparr>q_ready := False\<rparr>\<rparr>"

definition at_probe :: "time \<Rightarrow> int \<Rightarrow> noop_backend surroundings" where
  "at_probe t code = demo_world\<lparr>w_probe := (\<lambda>_ _. HttpAnswer code None), w_clock := (\<lambda>_. t)\<rparr>"

lemma at_probe_calm: "calm (at_probe t code)"
  by (simp add: calm_def at_probe_def demo_world_def)


end
