(* ===== verification/Relay_Config.thy ===== *)
theory Relay_Config
  imports Relay_Models
begin

text \<open>
  The configuration loader (relay/config.py): environment files, the interpolation of
  environment references, the field readers with their checks, and the section builders.

  Every raise of the source is a constructor of \<open>config_error\<close>; \<open>config_message\<close> gives
  its text. Outside the program are the YAML parser, the dotenv parser, the file system and
  croniter: what they answer is an argument. The text of a float in a message is the argument
  \<open>fl\<close> of \<open>config_message\<close>, the only place it is needed.
\<close>

section \<open>Errors\<close>

datatype config_error =
    FileNotFound string
  | InvalidYaml string string
  | TopLevelNotMapping string
  | EnvNotSet string string
  | UnsupportedReference string string
  | NotMapping string pyval
  | NotListSection string pyval
  | MissingField string string
  | NotNonEmptyString string string
  | NotStringWhenSet string string
  | NotInteger string string pyval
  | IntBelow string string int int
  | NotNumber string string pyval
  | FloatBelow string string rat rat
  | NotBoolean string string pyval
  | NotAllowed string string "string list" pyval
  | NotStringList string string
  | NotIntList string string
  | ScheduleFields string nat
  | ScheduleInvalid string string
  | PowerNeedsHost string
  | BadInitialState string pyval
  | AwsNeedsCredentials string
  | AwsNeedsBothKeys string
  | UnsupportedServerType string string
  | DuplicateServer string string
  | DuplicateEndpoint string string
  | UnknownServer string string string
  | PrefixWithoutSlash string string
  | IdenticalPrefix string string string
  | SecondCatchAll string
  | QueuedNeedsConcurrency string
  | DuplicateClient string string
  | StorePathBlocked string string string

type_synonym 'a cfg = "config_error + 'a"

definition type_name :: "pyval \<Rightarrow> string" where
  "type_name v = (case v of PNone \<Rightarrow> ''NoneType'' | PBool _ \<Rightarrow> ''bool'' | PInt _ \<Rightarrow> ''int''
     | PFloat _ \<Rightarrow> ''float'' | PStr _ \<Rightarrow> ''str'' | PList _ \<Rightarrow> ''list'' | PDict _ \<Rightarrow> ''dict'')"

definition squote :: "string \<Rightarrow> string" where
  "squote s = [char_of (39 :: nat)] @ s @ [char_of (39 :: nat)]"

fun config_message :: "(rat \<Rightarrow> string) \<Rightarrow> config_error \<Rightarrow> string" where
  "config_message fl (FileNotFound p) = ''config file not found: '' @ p"
| "config_message fl (InvalidYaml p e) = ''invalid YAML in '' @ p @ '': '' @ e"
| "config_message fl (TopLevelNotMapping p) = p @ '' must contain a YAML mapping at the top level''"
| "config_message fl (EnvNotSet n k) =
     ''environment variable '' @ squote n @ '' referenced at '' @ squote k @ '' is not set '' @
     ''(check .env / secrets.env or the process environment)''"
| "config_message fl (UnsupportedReference k r) =
     ''unsupported environment reference at '' @ squote k @ '': '' @ py_repr r @
     '' (supported forms: ${VAR} and ${VAR:-default})''"
| "config_message fl (NotMapping sec v) = squote sec @ '' must be a mapping, got '' @ type_name v"
| "config_message fl (NotListSection sec v) = squote sec @ '' must be a list, got '' @ type_name v"
| "config_message fl (MissingField k w) = ''missing required field '' @ squote k @ '' in '' @ w"
| "config_message fl (NotNonEmptyString k w) =
     ''field '' @ squote k @ '' in '' @ w @ '' must be a non-empty string''"
| "config_message fl (NotStringWhenSet k w) =
     ''field '' @ squote k @ '' in '' @ w @ '' must be a string when set''"
| "config_message fl (NotInteger k w v) =
     ''field '' @ squote k @ '' in '' @ w @ '' must be an integer, got '' @ repr_val fl v"
| "config_message fl (IntBelow k w m v) =
     ''field '' @ squote k @ '' in '' @ w @ '' must be >= '' @ show_int m @ '', got '' @ show_int v"
| "config_message fl (NotNumber k w v) =
     ''field '' @ squote k @ '' in '' @ w @ '' must be a number, got '' @ repr_val fl v"
| "config_message fl (FloatBelow k w m v) =
     ''field '' @ squote k @ '' in '' @ w @ '' must be >= '' @ fl m @ '', got '' @ fl v"
| "config_message fl (NotBoolean k w v) =
     ''field '' @ squote k @ '' in '' @ w @ '' must be a boolean, got '' @ repr_val fl v"
| "config_message fl (NotAllowed k w allowed v) =
     ''field '' @ squote k @ '' in '' @ w @ '' must be one of '' @ join '', '' allowed @ '', got '' @ repr_val fl v"
| "config_message fl (NotStringList k w) =
     ''field '' @ squote k @ '' in '' @ w @ '' must be a list of non-empty strings''"
| "config_message fl (NotIntList k w) =
     ''field '' @ squote k @ '' in '' @ w @ '' must be a list of integers''"
| "config_message fl (ScheduleFields x n) =
     ''schedule must be a 5-field cron expression, got '' @ py_repr x @ '' ('' @ show_nat n @ '' fields)''"
| "config_message fl (ScheduleInvalid x e) =
     ''schedule is not a valid cron expression: '' @ py_repr x @ '' ('' @ e @ '')''"
| "config_message fl (PowerNeedsHost w) =
     ''power block in '' @ w @ '' (type redfish) requires '' @ squote ''host'' @ '' (or an explicit '' @
     squote ''base_url'' @ '')''"
| "config_message fl (BadInitialState w v) =
     ''field '' @ squote ''initial_state'' @ '' in '' @ w @ '' must be '' @ squote ''on'' @ '' or '' @
     squote ''off'' @ '', got '' @ repr_val fl v"
| "config_message fl (AwsNeedsCredentials w) =
     ''power block in '' @ w @ '' (type aws-ec2) requires either access_key+secret_key or a profile''"
| "config_message fl (AwsNeedsBothKeys w) =
     ''power block in '' @ w @ '' needs both access_key and secret_key''"
| "config_message fl (UnsupportedServerType t w) = ''unsupported server type '' @ py_repr t @ '' in '' @ w"
| "config_message fl (DuplicateServer n w) = ''duplicate server name '' @ py_repr n @ '' (in '' @ w @ '')''"
| "config_message fl (DuplicateEndpoint n w) = ''duplicate endpoint name '' @ py_repr n @ '' (in '' @ w @ '')''"
| "config_message fl (UnknownServer n srv w) =
     ''endpoint '' @ py_repr n @ '' references unknown server '' @ py_repr srv @ '' (in '' @ w @ '')''"
| "config_message fl (PrefixWithoutSlash w p) =
     ''field '' @ squote ''path_prefix'' @ '' in '' @ w @ '' must start with '' @ squote ''/'' @ '', got '' @ py_repr p"
| "config_message fl (IdenticalPrefix p a b) =
     ''identical path_prefix '' @ py_repr p @ '' on endpoints '' @ py_repr a @ '' and '' @ py_repr b"
| "config_message fl (SecondCatchAll n) =
     ''at most one catch_all endpoint per platform (D17); '' @ py_repr n @ '' is a second''"
| "config_message fl (QueuedNeedsConcurrency n) =
     ''endpoint '' @ py_repr n @ '': routing '' @ squote ''queued'' @ '' requires concurrency >= 1''"
| "config_message fl (DuplicateClient n w) = ''duplicate client name '' @ py_repr n @ '' (in '' @ w @ '')''"
| "config_message fl (StorePathBlocked p parent cur) =
     ''store.path '' @ py_repr p @ '': parent directory '' @ parent @ '' is not creatable (blocked by existing file '' @
     cur @ '')''"

section \<open>Environment files\<close>

text \<open>
  The environment is a dictionary. The four candidate files are read in the order \<open>.env\<close>
  of the working directory, \<open>.env\<close> beside the config file, then \<open>secrets.env\<close> of each;
  a file that is missing is None, a key without a value has None.
\<close>

type_synonym env_file = "(string \<times> string option) list option"

definition merge_file :: "env_file \<Rightarrow> (string, string) dict \<Rightarrow> (string, string) dict" where
  "merge_file file merged =
     (case file of None \<Rightarrow> merged
      | Some entries \<Rightarrow>
          fold (\<lambda>(key, value) m. case value of None \<Rightarrow> m | Some v \<Rightarrow> dict_put key v m) entries merged)"

definition load_env_files ::
    "env_file \<Rightarrow> env_file \<Rightarrow> env_file \<Rightarrow> env_file \<Rightarrow> (string, string) dict \<Rightarrow> (string, string) dict" where
  "load_env_files env_cwd env_dir secrets_cwd secrets_dir environ =
     (let merged = fold merge_file [env_cwd, env_dir, secrets_cwd, secrets_dir] []
      in fold (\<lambda>(key, value) e. dict_setdefault key value e) merged environ)"

section \<open>Interpolation\<close>

definition name_start :: "char \<Rightarrow> bool" where
  "name_start c = (let n = (of_char c :: nat) in 65 \<le> n \<and> n \<le> 90 \<or> 97 \<le> n \<and> n \<le> 122 \<or> n = 95)"

definition name_char :: "char \<Rightarrow> bool" where
  "name_char c = (name_start c \<or> (let n = (of_char c :: nat) in 48 \<le> n \<and> n \<le> 57))"

text \<open>
  \<open>_ENV_VAR_RE\<close> at the head of a text: the name, the default of the \<open>:-\<close> form, and what
  follows the closing brace. The name is the whole run of name characters and the default the
  whole run up to the first brace, since neither may be followed by one of its own characters.
\<close>

definition match_reference :: "string \<Rightarrow> (string \<times> string option \<times> string) option" where
  "match_reference s =
     (case s of
        d # b # t \<Rightarrow>
          if d = CHR ''$'' \<and> b = CHR ''{'' then
            (let name = takeWhile name_char t; after = dropWhile name_char t in
             if name = [] \<or> \<not> name_start (hd name) then None
             else case after of
               [] \<Rightarrow> None
             | c # after' \<Rightarrow>
                 if c = CHR ''}'' then Some (name, None, after')
                 else if c = CHR '':'' \<and> after' \<noteq> [] \<and> hd after' = CHR ''-'' then
                   (let rest = tl after';
                        dflt = takeWhile (\<lambda>x. x \<noteq> CHR ''}'') rest;
                        tail = dropWhile (\<lambda>x. x \<noteq> CHR ''}'') rest
                    in if tail = [] then None else Some (name, Some dflt, tl tail))
                 else None)
          else None
      | _ \<Rightarrow> None)"

text \<open>The callback \<open>_sub\<close> of one reference.\<close>

definition resolve_reference ::
    "(string, string) dict \<Rightarrow> string \<Rightarrow> string \<Rightarrow> string option \<Rightarrow> string cfg" where
  "resolve_reference environ key_path name dflt =
     (let value = dict_get environ name in
      case dflt of
        Some d \<Rightarrow> (if value = None \<or> value = Some [] then Inr d else Inr (the value))
      | None \<Rightarrow> (case value of None \<Rightarrow> Inl (EnvNotSet name key_path) | Some v \<Rightarrow> Inr v))"

lemma length_tl_le: "length (tl xs) \<le> length xs"
  by (cases xs) auto

lemma match_reference_shorter:
  assumes "match_reference s = Some (name, dflt, rest)" shows "length rest < length s"
proof -
  obtain d b t where s: "s = d # b # t"
    using assms by (auto simp: match_reference_def split: list.splits)
  have drop: "length (dropWhile P xs) \<le> length xs" for P :: "char \<Rightarrow> bool" and xs
    by (rule length_dropWhile_le)
  obtain c u where u: "dropWhile name_char t = c # u"
    using assms by (auto simp: match_reference_def s Let_def split: if_splits list.splits)
  have le: "length u < length t"
    using drop [of name_char t] by (simp add: u)
  have "length (tl (dropWhile (\<lambda>x. x \<noteq> CHR ''}'') (tl u))) \<le> length u"
    using drop [of "\<lambda>x. x \<noteq> CHR ''}''" "tl u"] by (meson le_trans length_tl_le)
  with le show ?thesis
    using assms by (auto simp: match_reference_def s u Let_def split: if_splits)
qed

text \<open>\<open>_ENV_VAR_RE.sub(_sub, node)\<close>: leftmost references, replaced from left to right.\<close>

function sub_references :: "(string, string) dict \<Rightarrow> string \<Rightarrow> string \<Rightarrow> string cfg" where
  "sub_references environ key_path s =
     (case match_reference s of
        Some (name, dflt, rest) \<Rightarrow>
          res_bind (resolve_reference environ key_path name dflt) (\<lambda>v.
          res_bind (sub_references environ key_path rest) (\<lambda>r. Inr (v @ r)))
      | None \<Rightarrow>
          (case s of
             [] \<Rightarrow> Inr []
           | c # cs \<Rightarrow> res_bind (sub_references environ key_path cs) (\<lambda>r. Inr (c # r))))"
  by pat_completeness auto
termination
  by (relation "measure (\<lambda>(_, _, s). length s)") (auto dest: match_reference_shorter)

declare sub_references.simps [simp del]

fun has_reference :: "string \<Rightarrow> bool" where
  "has_reference (d # b # t) = (d = CHR ''$'' \<and> b = CHR ''{'' \<or> has_reference (b # t))"
| "has_reference _ = False"

definition interpolate_str :: "(string, string) dict \<Rightarrow> string \<Rightarrow> string \<Rightarrow> string cfg" where
  "interpolate_str environ key_path s =
     res_bind (sub_references environ key_path s) (\<lambda>result.
       if has_reference result then Inl (UnsupportedReference key_path result) else Inr result)"

fun interpolate :: "(string, string) dict \<Rightarrow> string \<Rightarrow> pyval \<Rightarrow> pyval cfg"
and interpolate_dict :: "(string, string) dict \<Rightarrow> string \<Rightarrow> (string \<times> pyval) list \<Rightarrow> (string \<times> pyval) list cfg"
and interpolate_list :: "(string, string) dict \<Rightarrow> string \<Rightarrow> nat \<Rightarrow> pyval list \<Rightarrow> pyval list cfg" where
  "interpolate environ key_path (PDict d) =
     res_bind (interpolate_dict environ key_path d) (\<lambda>d'. Inr (PDict d'))"
| "interpolate environ key_path (PList xs) =
     res_bind (interpolate_list environ key_path 0 xs) (\<lambda>ys. Inr (PList ys))"
| "interpolate environ key_path (PStr s) =
     res_bind (interpolate_str environ key_path s) (\<lambda>r. Inr (PStr r))"
| "interpolate environ key_path PNone = Inr PNone"
| "interpolate environ key_path (PBool b) = Inr (PBool b)"
| "interpolate environ key_path (PInt i) = Inr (PInt i)"
| "interpolate environ key_path (PFloat r) = Inr (PFloat r)"
| "interpolate_dict environ key_path [] = Inr []"
| "interpolate_dict environ key_path ((k, v) # d) =
     res_bind (interpolate environ (key_path @ ''.'' @ k) v) (\<lambda>v'.
     res_bind (interpolate_dict environ key_path d) (\<lambda>d'. Inr ((k, v') # d')))"
| "interpolate_list environ key_path i [] = Inr []"
| "interpolate_list environ key_path i (v # vs) =
     res_bind (interpolate environ (key_path @ ''['' @ show_nat i @ '']'') v) (\<lambda>v'.
     res_bind (interpolate_list environ key_path (Suc i) vs) (\<lambda>vs'. Inr (v' # vs')))"

section \<open>Field readers\<close>

text \<open>A section is the mapping of a YAML block; \<open>dget\<close> is \<open>section.get(key)\<close>.\<close>

type_synonym section_data = "(string \<times> pyval) list"

definition dget :: "section_data \<Rightarrow> string \<Rightarrow> pyval" where
  "dget d k = (case map_of d k of None \<Rightarrow> PNone | Some v \<Rightarrow> v)"

definition as_section :: "pyval \<Rightarrow> string \<Rightarrow> section_data cfg" where
  "as_section raw sec =
     (case raw of PNone \<Rightarrow> Inr [] | PDict d \<Rightarrow> Inr d | _ \<Rightarrow> Inl (NotMapping sec raw))"

definition list_section :: "pyval \<Rightarrow> string \<Rightarrow> pyval list cfg" where
  "list_section raw sec =
     (case raw of PNone \<Rightarrow> Inr [] | PList xs \<Rightarrow> Inr xs | _ \<Rightarrow> Inl (NotListSection sec raw))"

definition present :: "section_data \<Rightarrow> string \<Rightarrow> bool" where
  "present d k = (dget d k \<noteq> PNone)"

text \<open>The common frame of the readers: the default, or the error, of an absent field.\<close>

definition or_default :: "section_data \<Rightarrow> string \<Rightarrow> string \<Rightarrow> 'a option \<Rightarrow> (pyval \<Rightarrow> 'a cfg) \<Rightarrow> 'a cfg" where
  "or_default d k loc dflt rd =
     (if \<not> present d k
      then (case dflt of Some x \<Rightarrow> Inr x | None \<Rightarrow> Inl (MissingField k loc))
      else rd (dget d k))"

definition blank :: "string \<Rightarrow> bool" where
  "blank s = (strip s = [])"

definition get_str :: "section_data \<Rightarrow> string \<Rightarrow> string \<Rightarrow> string option \<Rightarrow> string cfg" where
  "get_str d k loc dflt = or_default d k loc dflt (\<lambda>v.
     case v of PStr s \<Rightarrow> if blank s then Inl (NotNonEmptyString k loc) else Inr s
     | _ \<Rightarrow> Inl (NotNonEmptyString k loc))"

definition get_str_opt :: "section_data \<Rightarrow> string \<Rightarrow> string \<Rightarrow> string option cfg" where
  "get_str_opt d k loc = or_default d k loc (Some None) (\<lambda>v.
     case v of PStr s \<Rightarrow> Inr (Some s) | _ \<Rightarrow> Inl (NotStringWhenSet k loc))"

definition get_int :: "section_data \<Rightarrow> string \<Rightarrow> string \<Rightarrow> int option \<Rightarrow> int option \<Rightarrow> int cfg" where
  "get_int d k loc dflt minimum = or_default d k loc dflt (\<lambda>v.
     case v of
       PInt i \<Rightarrow> (case minimum of
           Some m \<Rightarrow> if i < m then Inl (IntBelow k loc m i) else Inr i
         | None \<Rightarrow> Inr i)
     | _ \<Rightarrow> Inl (NotInteger k loc v))"

definition as_number :: "pyval \<Rightarrow> rat option" where
  "as_number v = (case v of PInt i \<Rightarrow> Some (of_int i) | PFloat r \<Rightarrow> Some r | _ \<Rightarrow> None)"

definition get_float :: "section_data \<Rightarrow> string \<Rightarrow> string \<Rightarrow> rat option \<Rightarrow> rat option \<Rightarrow> rat cfg" where
  "get_float d k loc dflt minimum = or_default d k loc dflt (\<lambda>v.
     case as_number v of
       None \<Rightarrow> Inl (NotNumber k loc v)
     | Some x \<Rightarrow> (case minimum of
           Some m \<Rightarrow> if x < m then Inl (FloatBelow k loc m x) else Inr x
         | None \<Rightarrow> Inr x))"

definition get_bool :: "section_data \<Rightarrow> string \<Rightarrow> string \<Rightarrow> bool option \<Rightarrow> bool cfg" where
  "get_bool d k loc dflt = or_default d k loc dflt (\<lambda>v.
     case v of PBool b \<Rightarrow> Inr b | _ \<Rightarrow> Inl (NotBoolean k loc v))"

definition get_enum :: "section_data \<Rightarrow> string \<Rightarrow> string \<Rightarrow> string list \<Rightarrow> string option \<Rightarrow> string cfg" where
  "get_enum d k loc allowed dflt = or_default d k loc dflt (\<lambda>v.
     case v of
       PStr s \<Rightarrow> if s \<in> set allowed then Inr s else Inl (NotAllowed k loc allowed v)
     | _ \<Rightarrow> Inl (NotAllowed k loc allowed v))"

text \<open>\<open>Some\<close> of the strings when every element is a non-blank string.\<close>

definition nonblank_str :: "pyval \<Rightarrow> string option" where
  "nonblank_str v = (case v of PStr s \<Rightarrow> if blank s then None else Some s | _ \<Rightarrow> None)"

definition get_str_list :: "section_data \<Rightarrow> string \<Rightarrow> string \<Rightarrow> string list option \<Rightarrow> string list cfg" where
  "get_str_list d k loc dflt =
     (case dget d k of
        PNone \<Rightarrow> Inr (case dflt of Some xs \<Rightarrow> xs | None \<Rightarrow> [])
      | PList vs \<Rightarrow>
          (if list_ex (\<lambda>v. nonblank_str v = None) vs then Inl (NotStringList k loc)
           else Inr (map (\<lambda>v. strip (the (nonblank_str v))) vs))
      | _ \<Rightarrow> Inl (NotStringList k loc))"

definition as_integer :: "pyval \<Rightarrow> int option" where
  "as_integer v = (case v of PInt i \<Rightarrow> Some i | _ \<Rightarrow> None)"

definition get_int_list :: "section_data \<Rightarrow> string \<Rightarrow> string \<Rightarrow> int list option \<Rightarrow> int list cfg" where
  "get_int_list d k loc dflt =
     (case dget d k of
        PNone \<Rightarrow> (case dflt of Some xs \<Rightarrow> Inr xs | None \<Rightarrow> Inl (MissingField k loc))
      | PList vs \<Rightarrow>
          (if list_ex (\<lambda>v. as_integer v = None) vs then Inl (NotIntList k loc)
           else Inr (map (\<lambda>v. the (as_integer v)) vs))
      | _ \<Rightarrow> Inl (NotIntList k loc))"

section \<open>Section builders\<close>

definition unknown_path_policies :: "string list" where
  "unknown_path_policies = [''allow'', ''block'']"

definition wait_policies :: "string list" where
  "wait_policies = [''wait'', ''error'']"

definition routings :: "string list" where
  "routings = [''queued'', ''concurrent'', ''passthrough'']"

definition request_modes :: "string list" where
  "request_modes = [''parallel'', ''atomic'']"

definition server_types :: "string list" where
  "server_types = [''redfish'', ''aws-ec2'', ''noop'']"

definition off_actions :: "string list" where
  "off_actions = [''stop'', ''terminate'']"

definition status_kinds :: "string list" where
  "status_kinds = [''opencode'', ''none'']"

definition children_kinds :: "string list" where
  "children_kinds = [''none'', ''parent-chain'']"

definition readiness_methods :: "string list" where
  "readiness_methods = [''GET'', ''POST'', ''PUT'', ''DELETE'', ''PATCH'', ''HEAD'']"

definition noop_states :: "string list" where
  "noop_states = [''on'', ''off'']"

text \<open>
  \<open>_validate_store_path\<close> climbs from the parent directory of the path to the first one
  that exists. A path is its components after expansion of the home directory, so the parent
  drops the last one and the root is its own parent. The file system answers.
\<close>

record file_system =
  fs_components :: "string \<Rightarrow> string list"
  fs_exists :: "string list \<Rightarrow> bool"
  fs_is_dir :: "string list \<Rightarrow> bool"
  fs_text :: "string list \<Rightarrow> string"

function existing_ancestor :: "file_system \<Rightarrow> string list \<Rightarrow> string list" where
  "existing_ancestor fs p =
     (if \<not> fs_exists fs p \<and> p \<noteq> [] then existing_ancestor fs (butlast p) else p)"
  by pat_completeness auto
termination
  by (relation "measure (\<lambda>(_, p). length p)") auto

declare existing_ancestor.simps [simp del]

definition validate_store_path :: "file_system \<Rightarrow> string \<Rightarrow> unit cfg" where
  "validate_store_path fs path =
     (let parent = butlast (fs_components fs path); current = existing_ancestor fs parent in
      if fs_exists fs current \<and> \<not> fs_is_dir fs current
      then Inl (StorePathBlocked path (fs_text fs parent) (fs_text fs current)) else Inr ())"

definition build_proxy :: "file_system \<Rightarrow> section_data \<Rightarrow> proxy_config cfg" where
  "build_proxy fs raw =
     (let loc = ''proxy'' in
      res_bind (as_section (dget raw ''store'') ''proxy.store'') (\<lambda>store_raw.
      res_bind (get_str_opt store_raw ''path'' ''proxy.store'') (\<lambda>path_opt.
      let store_path = str_or path_opt ''./relay.db'' in
      res_bind (validate_store_path fs store_path) (\<lambda>_.
      res_bind (get_str_opt raw ''host'' loc) (\<lambda>host.
      res_bind (get_int raw ''port'' loc (Some 8000) (Some 1)) (\<lambda>port.
      res_bind (get_enum raw ''unknown_path_policy'' loc unknown_path_policies (Some ''allow'')) (\<lambda>policy.
      res_bind (get_int raw ''target_read_timeout'' loc (Some 0) (Some 0)) (\<lambda>read_timeout.
      res_bind (get_str_list raw ''session_id_headers'' loc (Some [''x-session-id''])) (\<lambda>headers.
      res_bind (get_float raw ''shutdown_tick'' loc (Some 60) (Some (1 / 10))) (\<lambda>shutdown_tick.
      res_bind (get_int store_raw ''retention_days'' ''proxy.store'' (Some 90) (Some 0)) (\<lambda>retention_days.
      Inr \<lparr>px_host = str_or host ''0.0.0.0'', px_port = port, px_unknown_path_policy = policy,
           px_target_read_timeout = read_timeout, px_session_id_headers = map lower headers,
           px_shutdown_tick = shutdown_tick,
           px_store = \<lparr>st_path = store_path, st_retention_days = retention_days\<rparr>\<rparr>)))))))))))"

text \<open>\<open>croniter(schedule)\<close>: the text of the error it raises, if any.\<close>

type_synonym cron_check = "string \<Rightarrow> string option"

definition validate_schedule :: "cron_check \<Rightarrow> string \<Rightarrow> unit cfg" where
  "validate_schedule cron schedule =
     (let fields = split_ws schedule in
      if length fields \<noteq> 5 then Inl (ScheduleFields schedule (length fields))
      else (case cron schedule of Some e \<Rightarrow> Inl (ScheduleInvalid schedule e) | None \<Rightarrow> Inr ()))"

definition nonempty_opt :: "string option \<Rightarrow> bool" where
  "nonempty_opt x = (str_or x [] \<noteq> [])"

definition build_redfish :: "section_data \<Rightarrow> string \<Rightarrow> power_config cfg" where
  "build_redfish raw loc =
     res_bind (get_str_opt raw ''host'' loc) (\<lambda>host.
     res_bind (get_str_opt raw ''base_url'' loc) (\<lambda>base_url.
     if host = None \<and> base_url = None then Inl (PowerNeedsHost loc)
     else
       res_bind (get_str raw ''user'' loc None) (\<lambda>user.
       res_bind (get_str raw ''password'' loc None) (\<lambda>password.
       res_bind (get_str_opt raw ''system_path'' loc) (\<lambda>system_path.
       res_bind (get_bool raw ''verify_ssl'' loc (Some False)) (\<lambda>verify_ssl.
       Inr (RedfishPowerConfig
         \<lparr>rf_host = str_or host [], rf_user = user, rf_password = password, rf_base_url = base_url,
          rf_system_path = str_or system_path ''/redfish/v1/Systems/Self'',
          rf_verify_ssl = verify_ssl\<rparr>))))))) "

definition build_noop :: "section_data \<Rightarrow> string \<Rightarrow> power_config cfg" where
  "build_noop raw loc =
     (let initial = (case map_of raw ''initial_state'' of None \<Rightarrow> PStr ''on'' | Some v \<Rightarrow> v);
          initial = (if initial = PBool True then PStr ''on''
                     else if initial = PBool False then PStr ''off'' else initial)
      in case initial of
           PStr s \<Rightarrow>
             if s \<in> set noop_states then Inr (NoopPowerConfig \<lparr>np_initial_state = s\<rparr>)
             else Inl (BadInitialState loc initial)
         | _ \<Rightarrow> Inl (BadInitialState loc initial))"

definition build_aws :: "section_data \<Rightarrow> string \<Rightarrow> power_config cfg" where
  "build_aws raw loc =
     res_bind (get_str_opt raw ''access_key'' loc) (\<lambda>access_key.
     res_bind (get_str_opt raw ''secret_key'' loc) (\<lambda>secret_key.
     res_bind (get_str_opt raw ''profile'' loc) (\<lambda>profile.
     let has_keys = nonempty_opt access_key \<and> nonempty_opt secret_key in
     if \<not> (has_keys \<or> nonempty_opt profile) then Inl (AwsNeedsCredentials loc)
     else if has_keys \<and> nonempty_opt access_key \<noteq> nonempty_opt secret_key
     then Inl (AwsNeedsBothKeys loc)
     else
       res_bind (get_str raw ''region'' loc None) (\<lambda>region.
       res_bind (get_str raw ''instance_id'' loc None) (\<lambda>instance_id.
       res_bind (get_str_opt raw ''session_token'' loc) (\<lambda>session_token.
       res_bind (get_enum raw ''off_action'' loc off_actions (Some ''stop'')) (\<lambda>off_action.
       Inr (AwsEc2PowerConfig
         \<lparr>aw_region = region, aw_instance_id = instance_id, aw_access_key = access_key,
          aw_secret_key = secret_key, aw_session_token = session_token, aw_profile = profile,
          aw_off_action = off_action\<rparr>))))))))"

definition build_power :: "section_data \<Rightarrow> string \<Rightarrow> string \<Rightarrow> power_config cfg" where
  "build_power raw server_type loc =
     (if server_type = ''redfish'' then build_redfish raw loc
      else if server_type = ''noop'' then build_noop raw loc
      else if server_type = ''aws-ec2'' then build_aws raw loc
      else Inl (UnsupportedServerType server_type loc))"

definition idx :: "string \<Rightarrow> nat \<Rightarrow> string" where
  "idx sec i = sec @ ''['' @ show_nat i @ '']''"

text \<open>One turn of the loop of \<open>_build_servers\<close>; \<open>seen\<close> are the names so far.\<close>

definition build_server :: "cron_check \<Rightarrow> string set \<Rightarrow> string \<Rightarrow> pyval \<Rightarrow> server_config cfg" where
  "build_server cron seen loc raw =
     res_bind (as_section raw loc) (\<lambda>entry.
     res_bind (get_str entry ''name'' loc None) (\<lambda>name.
     if name \<in> seen then Inl (DuplicateServer name loc)
     else
       res_bind (get_enum entry ''type'' loc server_types None) (\<lambda>server_type.
       res_bind (as_section (dget entry ''power'') (loc @ ''.power'')) (\<lambda>power_raw.
       res_bind (get_str_opt entry ''schedule'' loc) (\<lambda>schedule.
       res_bind (case schedule of None \<Rightarrow> Inr () | Some x \<Rightarrow> validate_schedule cron x) (\<lambda>_.
       res_bind (get_str entry ''service_url'' loc None) (\<lambda>url.
       res_bind (build_power power_raw server_type (loc @ ''.power'')) (\<lambda>pw.
       res_bind (get_float entry ''idle_timeout'' loc (Some 3600) (Some (1 / 1000))) (\<lambda>idle_timeout.
       res_bind (get_bool entry ''shutdown_enabled'' loc (Some True)) (\<lambda>shutdown_enabled.
       res_bind (get_bool entry ''adopt_on_traffic'' loc (Some True)) (\<lambda>adopt_on_traffic.
       Inr \<lparr>vc_name = name, vc_type = server_type, vc_power = pw,
            vc_service_url = rstrip_by (\<lambda>c. c = CHR ''/'') url, vc_idle_timeout = idle_timeout,
            vc_shutdown_enabled = shutdown_enabled, vc_adopt_on_traffic = adopt_on_traffic,
            vc_schedule = schedule\<rparr>)))))))))))"

fun build_servers_from :: "cron_check \<Rightarrow> nat \<Rightarrow> string set \<Rightarrow> pyval list \<Rightarrow> server_config list cfg" where
  "build_servers_from cron i seen [] = Inr []"
| "build_servers_from cron i seen (raw # raws) =
     res_bind (build_server cron seen (idx ''servers'' i) raw) (\<lambda>srv.
     res_bind (build_servers_from cron (Suc i) (insert (vc_name srv) seen) raws) (\<lambda>rest.
     Inr (srv # rest)))"

definition build_servers :: "cron_check \<Rightarrow> pyval list \<Rightarrow> server_config list cfg" where
  "build_servers cron raw = build_servers_from cron 0 {} raw"

text \<open>\<open>str.upper\<close> of the ASCII letters; the source applies it to a readiness method only.\<close>

definition upper_char :: "char \<Rightarrow> char" where
  "upper_char c = (let n = (of_char c :: nat) in if 97 \<le> n \<and> n \<le> 122 then char_of (n - 32) else c)"

definition upper :: "string \<Rightarrow> string" where
  "upper s = map upper_char s"

definition build_readiness :: "section_data \<Rightarrow> string \<Rightarrow> readiness_config cfg" where
  "build_readiness raw loc =
     res_bind (get_str_opt raw ''path'' loc) (\<lambda>path_opt.
     let path = str_or path_opt ''/health'';
         path = (if startswith path ''/'' then path else ''/'' @ path) in
     res_bind (get_enum raw ''method'' loc readiness_methods (Some ''GET'')) (\<lambda>meth.
     res_bind (get_float raw ''interval'' loc (Some 5) (Some (1 / 10))) (\<lambda>interval.
     res_bind (get_float raw ''timeout'' loc (Some 2) (Some (1 / 10))) (\<lambda>tmo.
     res_bind (get_int_list raw ''healthy_statuses'' loc (Some [200])) (\<lambda>statuses.
     Inr \<lparr>rd_path = path, rd_method = upper meth, rd_interval = interval, rd_timeout = tmo,
          rd_healthy_statuses = statuses\<rparr>)))))"

definition build_session :: "section_data \<Rightarrow> string \<Rightarrow> session_config cfg" where
  "build_session raw loc =
     res_bind (get_int raw ''per_session_requests'' loc (Some (- 1)) None) (\<lambda>cap.
     res_bind (get_enum raw ''request_mode'' loc request_modes (Some ''parallel'')) (\<lambda>mode.
     res_bind (get_float raw ''busy_window'' loc (Some 120) (Some 0)) (\<lambda>busy_window.
     res_bind (get_float raw ''expiry'' loc (Some 300) (Some 1)) (\<lambda>expiry.
     res_bind (get_bool raw ''immediate_idle_release'' loc (Some True)) (\<lambda>immediate.
     Inr \<lparr>sc_per_session_requests = cap, sc_request_mode = mode, sc_busy_window = busy_window,
          sc_expiry = expiry, sc_immediate_idle_release = immediate\<rparr>)))))"

text \<open>
  One turn of the loop of \<open>_build_endpoints\<close>: \<open>seen\<close> are the names so far, \<open>owners\<close>
  the owner of each prefix, \<open>catch_all\<close> whether a catch-all endpoint was seen.
\<close>

definition build_endpoint ::
    "string set \<Rightarrow> string set \<Rightarrow> (string, string) dict \<Rightarrow> bool \<Rightarrow> string \<Rightarrow> pyval \<Rightarrow> endpoint_config cfg" where
  "build_endpoint server_names seen owners catch_all loc raw =
     res_bind (as_section raw loc) (\<lambda>entry.
     res_bind (get_str entry ''name'' loc None) (\<lambda>name.
     if name \<in> seen then Inl (DuplicateEndpoint name loc)
     else
       res_bind (get_str entry ''server'' loc None) (\<lambda>server.
       if server \<notin> server_names then Inl (UnknownServer name server loc)
       else
         res_bind (get_str entry ''path_prefix'' loc None) (\<lambda>prefix.
         if \<not> startswith prefix ''/'' then Inl (PrefixWithoutSlash loc prefix)
         else case dict_get owners prefix of
           Some owner \<Rightarrow> Inl (IdenticalPrefix prefix owner name)
         | None \<Rightarrow>
           if truthy (dget entry ''catch_all'') \<and> catch_all then Inl (SecondCatchAll name)
           else
             res_bind (get_enum entry ''routing'' loc routings (Some ''queued'')) (\<lambda>routing.
             res_bind (get_int entry ''concurrency'' loc (Some 1) None) (\<lambda>concurrency.
             if routing = ''queued'' \<and> concurrency < 1 then Inl (QueuedNeedsConcurrency name)
             else
               res_bind (as_section (dget entry ''readiness'') (loc @ ''.readiness'')) (\<lambda>readiness_raw.
               res_bind (as_section (dget entry ''session'') (loc @ ''.session'')) (\<lambda>session_raw.
               res_bind (build_readiness readiness_raw (loc @ ''.readiness'')) (\<lambda>readiness.
               res_bind (get_enum entry ''wait_policy'' loc wait_policies (Some ''wait'')) (\<lambda>wait_policy.
               res_bind (get_float entry ''queue_timeout'' loc (Some 0) None) (\<lambda>queue_timeout.
               res_bind (build_session session_raw (loc @ ''.session'')) (\<lambda>sess_cfg.
               res_bind (get_str_list entry ''session_id_body_fields'' loc None) (\<lambda>body_fields.
               Inr \<lparr>ec_name = name, ec_server = server, ec_path_prefix = prefix,
                    ec_catch_all = truthy (dget entry ''catch_all''), ec_readiness = readiness,
                    ec_wait_policy = wait_policy, ec_routing = routing, ec_concurrency = concurrency,
                    ec_queue_timeout = queue_timeout, ec_session = sess_cfg,
                    ec_session_id_body_fields = body_fields\<rparr>)))))))))))))"

fun build_endpoints_from ::
    "string set \<Rightarrow> nat \<Rightarrow> string set \<Rightarrow> (string, string) dict \<Rightarrow> bool \<Rightarrow> pyval list \<Rightarrow> endpoint_config list cfg" where
  "build_endpoints_from server_names i seen owners catch_all [] = Inr []"
| "build_endpoints_from server_names i seen owners catch_all (raw # raws) =
     res_bind (build_endpoint server_names seen owners catch_all (idx ''endpoints'' i) raw) (\<lambda>ep.
     res_bind (build_endpoints_from server_names (Suc i) (insert (ec_name ep) seen)
         (dict_put (ec_path_prefix ep) (ec_name ep) owners) (catch_all \<or> ec_catch_all ep) raws) (\<lambda>rest.
     Inr (ep # rest)))"

definition build_endpoints :: "pyval list \<Rightarrow> string set \<Rightarrow> endpoint_config list cfg" where
  "build_endpoints raw server_names = build_endpoints_from server_names 0 {} [] False raw"

definition build_match :: "section_data \<Rightarrow> string \<Rightarrow> match_config cfg" where
  "build_match raw loc =
     res_bind (get_str_opt raw ''ua_prefix'' loc) (\<lambda>ua_prefix.
     res_bind (get_str_list raw ''session_headers'' loc None) (\<lambda>headers.
     res_bind (get_str_list raw ''gated_session_headers'' loc None) (\<lambda>gated.
     Inr \<lparr>mc_ua_prefix = str_or ua_prefix [], mc_session_headers = headers,
          mc_gated_session_headers = gated\<rparr>)))"

definition build_status :: "section_data \<Rightarrow> string \<Rightarrow> status_config cfg" where
  "build_status raw loc =
     res_bind (get_enum raw ''kind'' loc status_kinds (Some ''opencode'')) (\<lambda>kind.
     res_bind (if present raw ''pending_paths'' then get_str_list raw ''pending_paths'' loc None
               else Inr (if kind = ''opencode'' then [''/permission'', ''/question''] else [])) (\<lambda>pending_paths.
     res_bind (get_int raw ''port'' loc (Some 4096) (Some 1)) (\<lambda>port.
     res_bind (get_str_opt raw ''password'' loc) (\<lambda>password.
     res_bind (get_float raw ''poll_interval'' loc (Some 5) (Some (1 / 10))) (\<lambda>poll_interval.
     res_bind (get_str_opt raw ''status_path'' loc) (\<lambda>status_path.
     res_bind (get_str_opt raw ''session_path'' loc) (\<lambda>session_path.
     Inr \<lparr>sx_kind = kind, sx_port = port, sx_password = str_or password [],
          sx_poll_interval = poll_interval, sx_status_path = str_or status_path ''/session/status'',
          sx_session_path = str_or session_path ''/session'', sx_pending_paths = pending_paths\<rparr>)))))))"

definition build_children :: "section_data \<Rightarrow> string \<Rightarrow> children_config cfg" where
  "build_children raw loc =
     res_bind (get_enum raw ''kind'' loc children_kinds (Some ''none'')) (\<lambda>kind.
     res_bind (get_int raw ''depth'' loc (Some 10) (Some 1)) (\<lambda>depth.
     Inr \<lparr>ch_kind = kind, ch_depth = depth\<rparr>))"

definition build_client :: "string set \<Rightarrow> string \<Rightarrow> pyval \<Rightarrow> client_config cfg" where
  "build_client seen loc raw =
     res_bind (as_section raw loc) (\<lambda>entry.
     res_bind (get_str entry ''name'' loc None) (\<lambda>name.
     if name \<in> seen then Inl (DuplicateClient name loc)
     else
       res_bind (as_section (dget entry ''match'') (loc @ ''.match'')) (\<lambda>match_raw.
       res_bind (as_section (dget entry ''status'') (loc @ ''.status'')) (\<lambda>status_raw.
       res_bind (as_section (dget entry ''children'') (loc @ ''.children'')) (\<lambda>children_raw.
       res_bind (build_match match_raw (loc @ ''.match'')) (\<lambda>m.
       res_bind (build_status status_raw (loc @ ''.status'')) (\<lambda>st.
       res_bind (build_children children_raw (loc @ ''.children'')) (\<lambda>ch.
       Inr \<lparr>cc_name = name, cc_match = m, cc_status = st, cc_children = ch\<rparr>))))))))"

fun build_clients_from :: "nat \<Rightarrow> string set \<Rightarrow> pyval list \<Rightarrow> client_config list cfg" where
  "build_clients_from i seen [] = Inr []"
| "build_clients_from i seen (raw # raws) =
     res_bind (build_client seen (idx ''clients'' i) raw) (\<lambda>c.
     res_bind (build_clients_from (Suc i) (insert (cc_name c) seen) raws) (\<lambda>rest. Inr (c # rest)))"

definition build_clients :: "pyval list \<Rightarrow> client_config list cfg" where
  "build_clients raw = build_clients_from 0 {} raw"

definition build :: "file_system \<Rightarrow> cron_check \<Rightarrow> section_data \<Rightarrow> relay_config cfg" where
  "build fs cron data =
     res_bind (as_section (dget data ''proxy'') ''proxy'') (\<lambda>proxy_raw.
     res_bind (build_proxy fs proxy_raw) (\<lambda>proxy.
     res_bind (list_section (dget data ''servers'') ''servers'') (\<lambda>servers_raw.
     res_bind (build_servers cron servers_raw) (\<lambda>servers.
     let server_names = set (map vc_name servers) in
     res_bind (list_section (dget data ''endpoints'') ''endpoints'') (\<lambda>endpoints_raw.
     res_bind (build_endpoints endpoints_raw server_names) (\<lambda>endpoints.
     res_bind (list_section (dget data ''clients'') ''clients'') (\<lambda>clients_raw.
     res_bind (build_clients clients_raw) (\<lambda>clients.
     Inr \<lparr>rc_proxy = proxy, rc_servers = servers, rc_endpoints = endpoints, rc_clients = clients\<rparr>))))))))"

section \<open>Loading\<close>

text \<open>
  The document of the config file: None when there is no such file, else the error of the
  YAML parser or the value it decodes. The files are the four env files in the order of
  \<open>load_env_files\<close>; they are read, and the environment of the process extended, before the
  document is parsed. The result comes with the environment left behind.
\<close>

definition load_config ::
    "file_system \<Rightarrow> cron_check \<Rightarrow> env_file \<times> env_file \<times> env_file \<times> env_file \<Rightarrow> string \<Rightarrow>
     (string + pyval) option \<Rightarrow> (string, string) dict \<Rightarrow> relay_config cfg \<times> (string, string) dict" where
  "load_config fs cron files path document environ0 =
     (case document of
        None \<Rightarrow> (Inl (FileNotFound path), environ0)
      | Some doc \<Rightarrow>
          (let environ = (case files of (a, b, c, d) \<Rightarrow> load_env_files a b c d environ0) in
           (case doc of
              Inl e \<Rightarrow> Inl (InvalidYaml path e)
            | Inr raw \<Rightarrow>
                if \<not> is_dict raw then Inl (TopLevelNotMapping path)
                else res_bind (interpolate environ ''$'' raw) (\<lambda>v.
                  case v of PDict data \<Rightarrow> build fs cron data | _ \<Rightarrow> Inl (TopLevelNotMapping path)),
            environ)))"

end
