(* ===== verification/Relay_App.thy ===== *)
theory Relay_App
  imports Relay_Endpoints Relay_Config
begin

text \<open>
  The assembled relay (relay/main.py): construction from a configuration, setup, startup and
  shutdown, the routes of the HTTP application, and the console entry point.

  The application object owns what its parts share: the store, the status pollers and the tracker
  exist once, an endpoint refers to its server by name. A handler of one part runs on a view
  (\<open>load_server\<close>, \<open>load_endpoint\<close>) that holds the shared parts as they are now, and what it
  leaves is written back. During a handler the rest of the program acts through the
  interference of that part; the other endpoints are then at rest.
\<close>

section \<open>The application object\<close>

record 'b relay =
  ra_config :: relay_config
  ra_store :: store
  ra_servers :: "(string, 'b server) dict"
  ra_providers :: "client_provider list"
  ra_pollers :: "(string, status_poller) dict"
  ra_endpoints :: "(string, 'b endpoint) dict"
  ra_catch_all :: "string option"
  ra_tracker :: tracker
  ra_read_timeout :: int
  ra_started_at :: time

type_synonym ('b, 'a) app_task = "'b relay \<Rightarrow> 'a res \<times> 'b relay"

definition server_views :: "string \<Rightarrow> 'b relay \<Rightarrow> endpoint_view list" where
  "server_views name app =
     map (\<lambda>(_, e). \<lparr>ev_ready = q_ready (ep_queue e), ev_activity = endpoint_has_activity e\<rparr>)
       (filter (\<lambda>(_, e). ec_server (ep_config e) = name) (ra_endpoints app))"

definition load_server :: "'b relay \<Rightarrow> 'b server \<Rightarrow> 'b server" where
  "load_server app srv =
     srv\<lparr>v_store := ra_store app, v_endpoints := server_views (server_name srv) app\<rparr>"

definition save_server :: "string \<Rightarrow> 'b server \<Rightarrow> 'b relay \<Rightarrow> 'b relay" where
  "save_server name srv app = app\<lparr>ra_servers := dict_put name srv (ra_servers app), ra_store := v_store srv\<rparr>"

definition load_endpoint :: "'b relay \<Rightarrow> 'b server \<Rightarrow> 'b endpoint \<Rightarrow> 'b endpoint" where
  "load_endpoint app srv e =
     e\<lparr>ep_server := load_server app srv, ep_pollers := ra_pollers app, ep_tracker := ra_tracker app\<rparr>"

definition save_endpoint :: "string \<Rightarrow> 'b endpoint \<Rightarrow> 'b relay \<Rightarrow> 'b relay" where
  "save_endpoint name e app =
     save_server (ec_server (ep_config e)) (ep_server e)
       (app\<lparr>ra_endpoints := dict_put name e (ra_endpoints app), ra_pollers := ep_pollers e,
            ra_tracker := ep_tracker e\<rparr>)"

text \<open>A handler of one server, of one endpoint. A missing name is the KeyError of the dictionary.\<close>

definition key_error :: "string \<Rightarrow> exn" where
  "key_error name = OtherExn (''KeyError: '' @ name)"

definition run_server :: "string \<Rightarrow> ('b, 'a) handler \<Rightarrow> ('b, 'a) app_task" where
  "run_server name h app =
     (case dict_get (ra_servers app) name of
        None \<Rightarrow> (Inl (key_error name), app)
      | Some srv \<Rightarrow> (let (r, srv') = h (load_server app srv) in (r, save_server name srv' app)))"

definition run_endpoint :: "string \<Rightarrow> ('b, 'a) task \<Rightarrow> ('b, 'a) app_task" where
  "run_endpoint name t app =
     (case dict_get (ra_endpoints app) name of
        None \<Rightarrow> (Inl (key_error name), app)
      | Some e \<Rightarrow>
          (case dict_get (ra_servers app) (ec_server (ep_config e)) of
             None \<Rightarrow> (Inl (key_error (ec_server (ep_config e))), app)
           | Some srv \<Rightarrow> (let (r, e') = t (load_endpoint app srv e) in (r, save_endpoint name e' app))))"

section \<open>Construction\<close>

text \<open>\<open>world\<close>: what the management controller of a server will answer.\<close>

fun make_servers ::
    "(server_config \<Rightarrow> bmc_world) \<Rightarrow> store \<Rightarrow> time \<Rightarrow> server_config list \<Rightarrow> (string, backend server) dict \<Rightarrow>
     (string, backend server) dict res" where
  "make_servers world st now [] servers = Inr servers"
| "make_servers world st now (c # cs) servers =
     res_bind (create_power_backend (world c) c) (\<lambda>b.
       make_servers world st now cs
         (dict_put (vc_name c) (new_server c b st power_on_cooldown now) servers))"

definition new_relay ::
    "(server_config \<Rightarrow> bmc_world) \<Rightarrow> store \<Rightarrow> time \<Rightarrow> relay_config \<Rightarrow> backend relay res" where
  "new_relay world st now config =
     res_bind (make_servers world st now (rc_servers config) []) (\<lambda>servers.
        Inr \<lparr>ra_config = config, ra_store = st, ra_servers = servers,
         ra_providers = providers_from_config (rc_clients config), ra_pollers = [],
         ra_endpoints = [], ra_catch_all = None, ra_tracker = [],
         ra_read_timeout = px_target_read_timeout (rc_proxy config), ra_started_at = now\<rparr>)"

definition make_poller :: "client_config \<Rightarrow> (string, status_poller) dict \<Rightarrow> (string, status_poller) dict" where
  "make_poller c pollers =
     (if sx_kind (cc_status c) \<noteq> ''opencode'' then pollers
      else dict_put (cc_name c)
        (new_poller (provider_from_config c) (sx_port (cc_status c)) (sx_password (cc_status c))
           (sx_poll_interval (cc_status c)) 2) pollers)"

definition make_endpoint :: "endpoint_config \<Rightarrow> ('b, unit) app_task" where
  "make_endpoint c app =
     (case dict_get (ra_servers app) (ec_server c) of
        None \<Rightarrow> (Inl (key_error (ec_server c)), app)
      | Some srv \<Rightarrow>
          (Inr (),
           app\<lparr>ra_endpoints := dict_put (ec_name c)
                 (new_endpoint c srv (ra_pollers app) (ra_providers app)
                   (px_session_id_headers (rc_proxy (ra_config app))) (ra_tracker app) (ra_read_timeout app))
                 (ra_endpoints app),
               ra_catch_all := (if ec_catch_all c then Some (ec_name c) else ra_catch_all app)\<rparr>))"

fun make_endpoints :: "endpoint_config list \<Rightarrow> ('b, unit) app_task" where
  "make_endpoints [] = hret ()"
| "make_endpoints (c # cs) = hbind (make_endpoint c) (\<lambda>_. make_endpoints cs)"

definition setup_app :: "bool \<Rightarrow> ('b, unit) app_task" where
  "setup_app http_client app =
     (if \<not> http_client then (Inl (OtherExn ''RuntimeError''), app)
      else make_endpoints (rc_endpoints (ra_config app))
        (app\<lparr>ra_pollers := fold make_poller (rc_clients (ra_config app)) (ra_pollers app)\<rparr>))"

definition set_read_timeout :: "int \<Rightarrow> 'b relay \<Rightarrow> 'b relay" where
  "set_read_timeout value app =
     app\<lparr>ra_read_timeout := value,
         ra_endpoints := map (\<lambda>(name, e). (name, e\<lparr>ep_read_timeout := value\<rparr>)) (ra_endpoints app)\<rparr>"

section \<open>Startup and shutdown\<close>

fun each :: "('k \<Rightarrow> 's \<Rightarrow> unit res \<times> 's) \<Rightarrow> 'k list \<Rightarrow> 's \<Rightarrow> unit res \<times> 's" where
  "each f [] = hret ()"
| "each f (x # xs) = hbind (f x) (\<lambda>_. each f xs)"

definition restore_server :: "(string, server_row) dict \<Rightarrow> string \<Rightarrow> ('b, unit) app_task" where
  "restore_server rows name app =
     (case dict_get rows name of
        None \<Rightarrow> (Inl (key_error name), app)
      | Some row \<Rightarrow> run_server name (hmod (restore_row row)) app)"

text \<open>The store opens after the attempts that fail (None: it never does, startup hangs). \<open>ws name\<close>
  and \<open>envs name\<close> are the surroundings of an endpoint and the interference at a server.\<close>

definition startup ::
    "'b power_ops \<Rightarrow> bool list \<Rightarrow> (string \<Rightarrow> 'b surroundings) \<Rightarrow> (string \<Rightarrow> 'b interference) \<Rightarrow> time \<Rightarrow> time \<Rightarrow>
     'b relay \<Rightarrow> (unit res \<times> 'b relay) option" where
  "startup ops attempts ws envs now clk app0 =
     map_option (\<lambda>st.
       hbind (\<lambda>app. let (r, st) = reconcile_servers (map vc_name (rc_servers (ra_config app))) now (ra_store app)
                in (r, app\<lparr>ra_store := st\<rparr>)) (\<lambda>rows.
       hbind (\<lambda>app. each (restore_server rows) (dict_keys (ra_servers app)) app) (\<lambda>_.
       hbind (\<lambda>app. each (\<lambda>name. run_endpoint name (hbind (check_readiness (ws name)) (\<lambda>_. hret ())))
                (dict_keys (ra_endpoints app)) app) (\<lambda>_ app.
       each (\<lambda>name. run_server name (sync_state ops (envs name) clk)) (dict_keys (ra_servers app)) app)))
       (app0\<lparr>ra_store := st\<rparr>))
     (open_database (st_path (px_store (rc_proxy (ra_config app0)))) attempts (ra_store app0))"

text \<open>The loops are cancelled, then the buffer is drained; a failing flush does not stop it.\<close>

definition shutdown :: "'b relay \<Rightarrow> 'b relay" where
  "shutdown app = app\<lparr>ra_store := close_store (snd (flush_requests (ra_store app)))\<rparr>"

section \<open>Health\<close>

datatype health = StaleManager string | StaleSync string | Healthy bool time

definition stale :: "time \<Rightarrow> time \<Rightarrow> time option \<Rightarrow> bool" where
  "stale limit now at_time = (case at_time of None \<Rightarrow> True | Some t \<Rightarrow> limit < now - t)"

definition healthz :: "time \<Rightarrow> 'b relay \<Rightarrow> health" where
  "healthz now app =
     (case List.find (\<lambda>(_, e). stale 5 now (ep_last_manager_tick e)) (ra_endpoints app) of
        Some (_, e) \<Rightarrow> StaleManager (endpoint_name e)
      | None \<Rightarrow>
          (case List.find (\<lambda>(_, s). stale 15 now (v_last_sync_at s)) (ra_servers app) of
             Some (_, s) \<Rightarrow> StaleSync (server_name s)
           | None \<Rightarrow> Healthy (so_degraded (ra_store app)) (round1 (now - ra_started_at app))))"

definition health_status :: "health \<Rightarrow> int" where
  "health_status h = (case h of Healthy _ _ \<Rightarrow> 200 | _ \<Rightarrow> 503)"

section \<open>The actions of the monitor\<close>

text \<open>The body of a POST: None when it is no JSON. A reply is a status with what its body says.\<close>

datatype reply = BadRequest string | NotFound string | Done "(string \<times> pyval) list"

fun release_on :: "time \<Rightarrow> string \<Rightarrow> string \<Rightarrow> (string, 'b endpoint) dict \<Rightarrow> bool \<times> (string, 'b endpoint) dict" where
  "release_on now client session_id [] = (False, [])"
| "release_on now client session_id ((name, e) # es) =
     (let (ok, q) = release_session now client session_id (ep_queue e) in
      if ok then (True, (name, e\<lparr>ep_queue := q\<rparr>) # es)
      else (let (ok, es) = release_on now client session_id es in (ok, (name, e\<lparr>ep_queue := q\<rparr>) # es)))"

definition monitor_release ::
    "(rat \<Rightarrow> string) \<Rightarrow> time \<Rightarrow> pyval option \<Rightarrow> 'b relay \<Rightarrow> reply \<times> 'b relay" where
  "monitor_release fl now body app =
     (case body of
        Some (PDict data) \<Rightarrow>
          (let client = dget data ''client''; session_id = dget data ''session'' in
           if \<not> truthy client \<or> \<not> truthy session_id
           then (BadRequest (''Both '' @ squote ''client'' @ '' and '' @ squote ''session'' @ '' are required.''), app)
           else
             (let (ok, es) = release_on now (str_val fl client) (str_val fl session_id) (ra_endpoints app) in
              if ok then (Done [(''released'', PBool True)], app\<lparr>ra_endpoints := es\<rparr>)
              else (NotFound (''Session '' @ squote (str_val fl session_id) @ '' ('' @ str_val fl client @
                      '') holds no spot.''), app)))
      | _ \<Rightarrow> (BadRequest ''Expected a JSON body {client, session}.'', app))"

text \<open>\<open>relay.servers.get\<close> on a value of the body: a list or an object has no hash.\<close>

definition find_server :: "pyval \<Rightarrow> 'b relay \<Rightarrow> 'b server option res" where
  "find_server key app =
     (case key of
        PStr name \<Rightarrow> Inr (dict_get (ra_servers app) name)
      | PList _ \<Rightarrow> Inl (OtherExn ''TypeError'')
      | PDict _ \<Rightarrow> Inl (OtherExn ''TypeError'')
      | _ \<Rightarrow> Inr None)"

definition unknown_server :: "(rat \<Rightarrow> string) \<Rightarrow> pyval \<Rightarrow> reply" where
  "unknown_server fl key = NotFound (''Unknown server '' @ squote (str_val fl key) @ ''.'')"

text \<open>\<open>data.get("server") or next(iter(servers))\<close>: with no server there is no next.\<close>

definition target_server :: "(string, pyval) dict \<Rightarrow> 'b relay \<Rightarrow> pyval res" where
  "target_server data app =
     (if truthy (dget data ''server'') then Inr (dget data ''server'')
      else case dict_keys (ra_servers app) of [] \<Rightarrow> Inl (OtherExn ''StopIteration'') | n # _ \<Rightarrow> Inr (PStr n))"

definition monitor_shutdown ::
    "(rat \<Rightarrow> string) \<Rightarrow> (string \<Rightarrow> 'b interference) \<Rightarrow> time \<Rightarrow> pyval option \<Rightarrow> ('b, reply) app_task" where
  "monitor_shutdown fl envs now body app =
     (case body of
        None \<Rightarrow> (Inr (BadRequest ''Expected a JSON body {enabled}.''), app)
      | Some v \<Rightarrow>
          (case v of
             PDict data \<Rightarrow>
               (case dget data ''enabled'' of
                  PBool enabled \<Rightarrow>
                    (case target_server data app of
                       Inl x \<Rightarrow> (Inl x, app)
                     | Inr key \<Rightarrow>
                         (case find_server key app of
                            Inl x \<Rightarrow> (Inl x, app)
                          | Inr None \<Rightarrow> (Inr (unknown_server fl key), app)
                          | Inr (Some srv) \<Rightarrow>
                              hbind (run_server (server_name srv) (set_shutdown_override (envs (server_name srv)) enabled now))
                                (\<lambda>_. hret (Done [(''shutdown_enabled'', PBool enabled)])) app))
                | _ \<Rightarrow> (Inr (BadRequest ''Expected a JSON body {enabled: true|false}.''), app))
           | _ \<Rightarrow> (Inr (BadRequest ''Expected a JSON body {enabled: true|false}.''), app)))"

definition monitor_power ::
    "(rat \<Rightarrow> string) \<Rightarrow> 'b power_ops \<Rightarrow> (string \<Rightarrow> 'b interference) \<Rightarrow> string \<Rightarrow> time \<Rightarrow> pyval option \<Rightarrow>
     ('b, reply) app_task" where
  "monitor_power fl ops envs uid now body app =
     (case body of
        Some (PDict data) \<Rightarrow>
          (let key = dget data ''server''; action = dget data ''action'' in
           if \<not> truthy key \<or> action \<notin> {PStr ''on'', PStr ''off''}
           then (Inr (BadRequest ''Expected a JSON body {server, action: on|off}.''), app)
           else
             (case find_server key app of
                Inl x \<Rightarrow> (Inl x, app)
              | Inr None \<Rightarrow> (Inr (unknown_server fl key), app)
              | Inr (Some srv) \<Rightarrow>
                  (let name = server_name srv in
                   hbind (run_server name
                       (if action = PStr ''on'' then server_power_on ops (envs name) ''manual'' ''monitor-ui'' uid now
                        else server_power_off ops (envs name) ''manual'' ''monitor-ui'' now))
                     (\<lambda>ok. hret (Done [(''ok'', PBool ok), (''server'', key), (''action'', action)])) app)))
      | _ \<Rightarrow> (Inr (BadRequest ''Expected a JSON body {server, action}.''), app))"

definition timeout_message :: string where
  "timeout_message =
     ''Expected a JSON body {read_timeout: N} with N a non-negative integer (0 = no timeout).''"

definition monitor_timeout :: "pyval option \<Rightarrow> 'b relay \<Rightarrow> reply \<times> 'b relay" where
  "monitor_timeout body app =
     (case body of
        None \<Rightarrow> (BadRequest ''Expected a JSON body {read_timeout}.'', app)
      | Some v \<Rightarrow>
          (case (case v of PDict data \<Rightarrow> dget data ''read_timeout'' | _ \<Rightarrow> PNone) of
             PInt n \<Rightarrow>
               if n < 0 then (BadRequest timeout_message, app)
               else (Done [(''target_read_timeout'', PInt n)], set_read_timeout n app)
           | _ \<Rightarrow> (BadRequest timeout_message, app)))"

section \<open>The proxy routes\<close>

datatype routed = Forwarded response | BlockedPath | NoCatchAll

definition route_of :: "string \<Rightarrow> 'b relay \<Rightarrow> string option" where
  "route_of full_path app =
     map_option fst (route full_path (\<lambda>(_, e). ec_path_prefix (ep_config e)) (ra_endpoints app))"

text \<open>Routed traffic first tells the server, then is admitted. \<open>env\<close> is the interference while
  the adoption is written.\<close>

definition traffic :: "(string \<Rightarrow> 'b interference) \<Rightarrow> string \<Rightarrow> time \<Rightarrow> string \<Rightarrow> ('b, unit) app_task" where
  "traffic envs uid now name app =
     (case dict_get (ra_endpoints app) name of
        None \<Rightarrow> (Inl (key_error name), app)
      | Some e \<Rightarrow>
          (let srv = ec_server (ep_config e) in run_server srv (on_routed_traffic (envs srv) uid now) app))"

text \<open>What arrives with a request: its path behind the slash, whether its body can be read, the
  answers to the polls of its hold, and what the target does.\<close>

record arrival =
  ar_request :: http_request
  ar_path :: string
  ar_readable :: bool
  ar_polls :: "bool list"
  ar_outcome :: send_outcome
  ar_driven :: drive

definition note_unknown :: "time \<Rightarrow> http_request \<Rightarrow> string \<Rightarrow> string \<Rightarrow> 'b relay \<Rightarrow> 'b relay" where
  "note_unknown now request full_path name app =
     (case dict_get (ra_endpoints app) name of
        None \<Rightarrow> app
      | Some e \<Rightarrow>
          (let base = (case dict_get (ra_servers app) (ec_server (ep_config e)) of
                         None \<Rightarrow> [] | Some srv \<Rightarrow> vc_service_url (v_config srv)) in
           app\<lparr>ra_tracker := tracker_record (client_ip_of (rq_client request)) (user_agent_of (rq_headers request))
                 (rq_method request) full_path (base @ full_path) now (ra_tracker app)\<rparr>))"

definition proxy ::
    "(string \<Rightarrow> 'b surroundings) \<Rightarrow> (string \<Rightarrow> 'b interference) \<Rightarrow> string \<Rightarrow> time \<Rightarrow> arrival \<Rightarrow> ('b, routed) app_task" where
  "proxy ws envs uid now a app =
     (let full_path = ''/'' @ ar_path a in
      case route_of full_path app of
        Some name \<Rightarrow>
          hbind (traffic envs uid now name) (\<lambda>_.
          hbind (run_endpoint name (admit (ws name) (ar_readable a) (ar_request a) full_path (ar_polls a)
             (ar_outcome a) (ar_driven a))) (\<lambda>r. hret (Forwarded r))) app
      | None \<Rightarrow>
          if px_unknown_path_policy (rc_proxy (ra_config app)) \<noteq> ''allow'' then (Inr BlockedPath, app)
          else
            (case ra_catch_all app of
               None \<Rightarrow> (Inr NoCatchAll, app)
             | Some name \<Rightarrow>
                 hbind (traffic envs uid now name) (\<lambda>_.
                 hbind (run_endpoint name (admit_catch_all (ws name) (ar_readable a) (ar_request a) (ar_polls a)
                    (ar_outcome a) (ar_driven a))) (\<lambda>r. hret (Forwarded r)))
                 (note_unknown now (ar_request a) full_path name app)))"

definition routed_status :: "routed \<Rightarrow> int option" where
  "routed_status r = (case r of Forwarded x \<Rightarrow> status_code x | BlockedPath \<Rightarrow> Some 403 | NoCatchAll \<Rightarrow> Some 404)"

text \<open>A WebSocket is routed alike; one without an endpoint is accepted and closed (1008).\<close>

record ws_arrival =
  wa_request :: websocket_request
  wa_path :: string
  wa_ready_polls :: "bool list"
  wa_spot_polls :: "bool list"
  wa_carried :: tunnelled

definition ws_proxy ::
    "(string \<Rightarrow> 'b surroundings) \<Rightarrow> (string \<Rightarrow> 'b interference) \<Rightarrow> string \<Rightarrow> time \<Rightarrow> ws_arrival \<Rightarrow>
     ('b, ws_outcome option) app_task" where
  "ws_proxy ws envs uid now a app =
     (let full_path = ''/'' @ wa_path a;
          serve = (\<lambda>name passthrough.
            hbind (traffic envs uid now name) (\<lambda>_.
            hbind (run_endpoint name (admit_ws (ws name) (wa_request a) passthrough (wa_ready_polls a)
               (wa_spot_polls a) (wa_carried a))) (\<lambda>r. hret (Some r))))
      in case route_of full_path app of
           Some name \<Rightarrow> serve name False app
         | None \<Rightarrow>
             if px_unknown_path_policy (rc_proxy (ra_config app)) \<noteq> ''allow'' then (Inr None, app)
             else (case ra_catch_all app of None \<Rightarrow> (Inr None, app) | Some name \<Rightarrow> serve name True app))"

section \<open>Application factory and console entry\<close>

text \<open>What the outside supplies when a configuration is loaded and an application is built from it.\<close>

record installation =
  in_files :: file_system
  in_cron :: cron_check
  in_env :: "env_file \<times> env_file \<times> env_file \<times> env_file"
  in_document :: "(string + pyval) option"
  in_float_text :: "rat \<Rightarrow> string"
  in_world :: "server_config \<Rightarrow> bmc_world"
  in_store :: "string \<Rightarrow> store"

definition loaded :: "installation \<Rightarrow> string \<Rightarrow> (string, string) dict \<Rightarrow> relay_config res \<times> (string, string) dict" where
  "loaded I path environ =
     (let (r, environ') = load_config (in_files I) (in_cron I) (in_env I) path (in_document I) environ in
      (case r of Inl x \<Rightarrow> Inl (ConfigError (config_message (in_float_text I) x)) | Inr c \<Rightarrow> Inr c, environ'))"

definition create_app :: "installation \<Rightarrow> string \<Rightarrow> (string, string) dict \<Rightarrow> time \<Rightarrow> backend relay res" where
  "create_app I path environ now =
     res_bind (fst (loaded I path environ)) (\<lambda>config.
       new_relay (in_world I) (in_store I (st_path (px_store (rc_proxy config)))) now config)"

text \<open>\<open>main\<close> after the parsing of its arguments: the exit with the error text, an exception that
  escapes it, or the application served at a host and a port.\<close>

datatype main_outcome = SystemExit string | Escapes exn | Serves "backend relay" string int

definition main ::
    "installation \<Rightarrow> string \<Rightarrow> string option \<Rightarrow> int option \<Rightarrow> (string, string) dict \<Rightarrow> time \<Rightarrow> main_outcome" where
  "main I path host port environ now =
     (case loaded I path environ of
        (Inl (ConfigError e), _) \<Rightarrow> SystemExit (''relay: config error: '' @ e)
      | (Inl x, _) \<Rightarrow> Escapes x
      | (Inr config, environ) \<Rightarrow>
          (case create_app I path environ now of
             Inl x \<Rightarrow> Escapes x
           | Inr app \<Rightarrow> Serves app
               (str_or host (px_host (rc_proxy config)))
               (case port of None \<Rightarrow> px_port (rc_proxy config)
                  | Some p \<Rightarrow> if p = 0 then px_port (rc_proxy config) else p)))"

end
