(* ===== verification/Relay_Monitor.thy ===== *)
theory Relay_Monitor
  imports Relay_App
begin

text \<open>
  The data of the monitor (relay/monitor.py): the rows of its tables and the snapshot that
  \<open>/monitor/data\<close> returns. The snapshot reads the application and changes nothing. \<open>isoformat\<close> is
  the method of a datetime, \<open>wall_now\<close> the wall clock the schedule is asked at, \<open>next_fire\<close> the cron library.
\<close>

record server_line =
  sl_name :: string
  sl_type :: string
  sl_power_state :: string
  sl_owned :: bool
  sl_idle_countdown :: "time option"
  sl_next_scheduled_off :: "string option"
  sl_shutdown_enabled :: bool
  sl_idle_timeout :: time
  sl_adopt_on_traffic :: bool
  sl_service_url :: string
  sl_cycle_id :: "string option"

definition idle_countdown :: "time \<Rightarrow> 'b server \<Rightarrow> time option" where
  "idle_countdown now s =
     (if v_owned s \<and> shutdown_enabled_now s \<and> \<not> server_has_activity s then
        (let remaining = vc_idle_timeout (v_config s) - (now - v_last_activity s) in
         if 0 \<le> remaining then Some (round1 remaining) else None)
      else None)"

definition server_line_of ::
    "(string \<Rightarrow> time \<Rightarrow> time res) \<Rightarrow> (time \<Rightarrow> string) \<Rightarrow> time \<Rightarrow> time \<Rightarrow> 'b server \<Rightarrow> server_line" where
  "server_line_of next_fire isoformat wall_now now s =
     \<lparr>sl_name = server_name s, sl_type = vc_type (v_config s), sl_power_state = display_state s,
      sl_owned = v_owned s, sl_idle_countdown = idle_countdown now s,
      sl_next_scheduled_off = map_option isoformat (next_scheduled_off next_fire wall_now s),
      sl_shutdown_enabled = shutdown_enabled_now s, sl_idle_timeout = vc_idle_timeout (v_config s),
      sl_adopt_on_traffic = vc_adopt_on_traffic (v_config s),
      sl_service_url = vc_service_url (v_config s), sl_cycle_id = v_cycle_id s\<rparr>"

record endpoint_line =
  el_name :: string
  el_server :: string
  el_path_prefix :: string
  el_ready :: bool
  el_ready_since :: "time option"
  el_wait_policy :: string
  el_routing :: string
  el_concurrency :: int
  el_queue_depth :: nat
  el_free_slots :: int
  el_queue_timeout :: time

definition endpoint_line_of :: "'b endpoint \<Rightarrow> endpoint_line" where
  "endpoint_line_of e =
     (let q = ep_queue e; c = ep_config e in
      \<lparr>el_name = endpoint_name e, el_server = server_name (ep_server e), el_path_prefix = ec_path_prefix c,
       el_ready = q_ready q, el_ready_since = ep_ready_since e, el_wait_policy = ec_wait_policy c,
       el_routing = ec_routing c, el_concurrency = ec_concurrency c, el_queue_depth = length (q_queue q),
       el_free_slots = max 0 (q_max_spots q - int (length (q_spots q))),
       el_queue_timeout = ec_queue_timeout c\<rparr>)"

text \<open>The config block. A field is None when there is no endpoint, no server or no client to ask.\<close>

record config_block =
  cb_concurrent_sessions :: "int option"
  cb_concurrent_session_requests :: "int option"
  cb_request_mode :: "string option"
  cb_immediate_idle_release :: "bool option"
  cb_unknown_path_policy :: string
  cb_session_expiry :: "time option"
  cb_client_busy_window :: "time option"
  cb_client_status_poll :: "time option"
  cb_queue_timeout :: "time option"
  cb_target_server_url :: "string option"
  cb_idle_timeout :: "time option"
  cb_shutdown_enabled :: "bool option"
  cb_target_read_timeout :: int
  cb_server_powered_on :: "bool option"
  cb_server_healthy :: "bool option"
  cb_power_managed :: "bool option"
  cb_queue_manager_age :: "time option"
  cb_active_sessions :: nat
  cb_queued_requests :: nat

definition or_zero :: "time option \<Rightarrow> time" where
  "or_zero t = (case t of None \<Rightarrow> 0 | Some x \<Rightarrow> x)"

definition manager_at :: "(string, 'b endpoint) dict \<Rightarrow> time option" where
  "manager_at es =
     (if es = [] then None else Some (Max (set (map (\<lambda>(_, e). or_zero (ep_last_manager_tick e)) es))))"

definition manager_age :: "time \<Rightarrow> (string, 'b endpoint) dict \<Rightarrow> time option" where
  "manager_age now es =
     (case manager_at es of None \<Rightarrow> None | Some t \<Rightarrow> if t = 0 then None else Some (round1 (now - t)))"

definition primary_endpoint :: "'b relay \<Rightarrow> 'b endpoint option" where
  "primary_endpoint app =
     (case ra_catch_all app of
        Some name \<Rightarrow> dict_get (ra_endpoints app) name
      | None \<Rightarrow> (case ra_endpoints app of [] \<Rightarrow> None | (_, e) # _ \<Rightarrow> Some e))"

definition primary_server :: "'b relay \<Rightarrow> 'b server option" where
  "primary_server app = (case ra_servers app of [] \<Rightarrow> None | (_, s) # _ \<Rightarrow> Some s)"

definition powered_on :: "'b server \<Rightarrow> bool option" where
  "powered_on s = (if v_power_state s = PowerUnknown then None else Some (v_power_state s = PowerOn))"

definition config_block_of :: "time \<Rightarrow> 'b relay \<Rightarrow> config_block" where
  "config_block_of now app =
     (let primary = primary_endpoint app; srv = primary_server app
      in \<lparr>cb_concurrent_sessions = map_option (\<lambda>e. ec_concurrency (ep_config e)) primary,
          cb_concurrent_session_requests =
            map_option (\<lambda>e. sc_per_session_requests (ec_session (ep_config e))) primary,
          cb_request_mode = map_option (\<lambda>e. sc_request_mode (ec_session (ep_config e))) primary,
          cb_immediate_idle_release =
            map_option (\<lambda>e. sc_immediate_idle_release (ec_session (ep_config e))) primary,
          cb_unknown_path_policy = px_unknown_path_policy (rc_proxy (ra_config app)),
          cb_session_expiry = map_option (\<lambda>e. sc_expiry (ec_session (ep_config e))) primary,
          cb_client_busy_window = map_option (\<lambda>e. sc_busy_window (ec_session (ep_config e))) primary,
          cb_client_status_poll =
            (case rc_clients (ra_config app) of [] \<Rightarrow> None | c # _ \<Rightarrow> Some (sx_poll_interval (cc_status c))),
          cb_queue_timeout = map_option (\<lambda>e. ec_queue_timeout (ep_config e)) primary,
          cb_target_server_url = map_option (\<lambda>s. vc_service_url (v_config s)) srv,
          cb_idle_timeout = map_option (\<lambda>s. vc_idle_timeout (v_config s)) srv,
          cb_shutdown_enabled = map_option shutdown_enabled_now srv,
          cb_target_read_timeout = ra_read_timeout app,
          cb_server_powered_on = (case srv of None \<Rightarrow> None | Some s \<Rightarrow> powered_on s),
          cb_server_healthy =
            (case primary of
               None \<Rightarrow> None
             | Some e \<Rightarrow> if ep_last_check_at e = None then None else Some (q_ready (ep_queue e))),
          cb_power_managed = map_option v_owned srv,
          cb_queue_manager_age = manager_age now (ra_endpoints app),
          cb_active_sessions = sum_list (map (\<lambda>(_, e). length (q_spots (ep_queue e))) (ra_endpoints app)),
          cb_queued_requests = sum_list (map (\<lambda>(_, e). length (q_queue (ep_queue e))) (ra_endpoints app))\<rparr>)"

record monitor_data =
  md_config :: config_block
  md_servers :: "server_line list"
  md_endpoints :: "endpoint_line list"
  md_sessions :: "(snapshot_row \<times> string) list"
  md_unknown :: "unknown_row list"
  md_power_events :: "power_event list"
  md_degraded :: bool
  md_dropped_writes :: nat
  md_dropped_requests :: nat
  md_store_path :: string

definition session_rows :: "time \<Rightarrow> 'b relay \<Rightarrow> (snapshot_row \<times> string) list" where
  "session_rows now app =
     concat (map (\<lambda>(_, e). map (\<lambda>row. (row, endpoint_name e)) (snapshot (ep_queue e) now)) (ra_endpoints app))"

text \<open>A server line sees its endpoints as they are now; an endpoint line its server.\<close>

definition build_data ::
    "(string \<Rightarrow> time \<Rightarrow> time res) \<Rightarrow> (time \<Rightarrow> string) \<Rightarrow> time \<Rightarrow> time \<Rightarrow> 'b relay \<Rightarrow> monitor_data res" where
  "build_data next_fire isoformat wall_now now app =
     res_bind (recent_power_events 50 (ra_store app)) (\<lambda>events.
       Inr \<lparr>md_config = config_block_of now app,
         md_servers = map (\<lambda>(_, s). server_line_of next_fire isoformat wall_now now (load_server app s)) (ra_servers app),
         md_endpoints = map (\<lambda>(_, e). endpoint_line_of e) (ra_endpoints app),
         md_sessions = session_rows now app,
         md_unknown = tracker_snapshot now (ra_tracker app),
         md_power_events = events,
         md_degraded = so_degraded (ra_store app),
         md_dropped_writes = so_dropped_writes (ra_store app),
         md_dropped_requests = so_dropped_requests (ra_store app),
         md_store_path = st_path (px_store (rc_proxy (ra_config app)))\<rparr>)"

end
