(* ===== verification/Relay_Config_Props.thy ===== *)
theory Relay_Config_Props
  imports Relay_Config
begin

text \<open>
  Correctness of the configuration loader: the precedence of the environment files, what
  interpolation computes and excludes, the exact set of configurations the builder can return,
  and the round trip of such a configuration through a YAML document.
\<close>

section \<open>Environment files\<close>

text \<open>The value a file gives a key: that of its last entry for it that has one.\<close>

definition file_value :: "env_file \<Rightarrow> string \<Rightarrow> string option" where
  "file_value fl k =
     (case fl of None \<Rightarrow> None
      | Some entries \<Rightarrow> map_of (rev (List.map_filter (\<lambda>(k, v). map_option (Pair k) v) entries)) k)"

fun first_some :: "'a option list \<Rightarrow> 'a option" where
  "first_some [] = None"
| "first_some (Some x # xs) = Some x"
| "first_some (None # xs) = first_some xs"

lemma first_some_Cons: "first_some (x # xs) = (case x of Some v \<Rightarrow> Some v | None \<Rightarrow> first_some xs)"
  by (cases x) auto

lemma merge_file_get:
  "dict_get (merge_file fl m) k = (case file_value fl k of Some v \<Rightarrow> Some v | None \<Rightarrow> dict_get m k)"
proof (cases fl)
  case (Some entries)
  have "dict_get (fold (\<lambda>(key, value) m. case value of None \<Rightarrow> m | Some v \<Rightarrow> dict_put key v m) entries m) k =
        (case map_of (rev (List.map_filter (\<lambda>(k, v). map_option (Pair k) v) entries)) k of
           Some v \<Rightarrow> Some v | None \<Rightarrow> dict_get m k)" for m
    by (induction entries arbitrary: m)
       (auto simp: map_filter_simps map_add_def split: option.splits)
  then show ?thesis by (simp add: Some merge_file_def file_value_def)
qed (simp add: merge_file_def file_value_def)

lemma merge_ok: "dict_ok m \<Longrightarrow> dict_ok (merge_file fl m)"
proof (cases fl)
  case (Some entries)
  have "dict_ok m \<Longrightarrow>
        dict_ok (fold (\<lambda>(key, value) m. case value of None \<Rightarrow> m | Some v \<Rightarrow> dict_put key v m) entries m)" for m
    by (induction entries arbitrary: m) (auto split: option.splits)
  then show "dict_ok m \<Longrightarrow> dict_ok (merge_file fl m)" by (simp add: Some merge_file_def)
qed (simp add: merge_file_def)

lemma fold_setdefault_get:
  "dict_ok m \<Longrightarrow> dict_get (fold (\<lambda>(key, value) e. dict_setdefault key value e) m e) k =
     (case dict_get e k of Some v \<Rightarrow> Some v | None \<Rightarrow> dict_get m k)"
proof (induction m arbitrary: e)
  case (Cons kv m)
  obtain j v where kv: "kv = (j, v)" by (cases kv)
  have ok: "dict_ok m" and new: "dict_get m j = None"
    using Cons.prems by (auto simp: kv dict_ok_def map_of_eq_None_iff)
  show ?case
    using new by (auto simp: kv Cons.IH [OF ok] setdefault_get split: option.splits)
qed (simp split: option.split)

text \<open>
  The precedence of the environment. After the env files are loaded a variable has the value
  the process environment gave it, else that of the first of these that sets it: secrets.env beside
  the config file, secrets.env of the working directory, .env beside the config file, .env of
  the working directory.
\<close>

theorem env_precedence:
  "dict_get (load_env_files env_cwd env_dir secrets_cwd secrets_dir environ) k =
     first_some [dict_get environ k, file_value secrets_dir k, file_value secrets_cwd k,
       file_value env_dir k, file_value env_cwd k]"
  by (simp add: load_env_files_def Let_def fold_setdefault_get merge_ok merge_file_get first_some_Cons
      split: option.split)

section \<open>Interpolation\<close>

text \<open>A text as its author means it: literal stretches and references.\<close>

datatype segment = Lit string | Ref string "string option"

fun render_segment :: "segment \<Rightarrow> string" where
  "render_segment (Lit s) = s"
| "render_segment (Ref name None) = ''${'' @ name @ ''}''"
| "render_segment (Ref name (Some d)) = ''${'' @ name @ '':-'' @ d @ ''}''"

definition render :: "segment list \<Rightarrow> string" where
  "render t = concat (map render_segment t)"

text \<open>A literal holds no reference and does not end in a dollar; a name is an identifier; a
  default holds no closing brace.\<close>

fun plain_segment :: "segment \<Rightarrow> bool" where
  "plain_segment (Lit s) = (\<not> has_reference s \<and> (s \<noteq> [] \<longrightarrow> last s \<noteq> CHR ''$''))"
| "plain_segment (Ref name d) =
     (name \<noteq> [] \<and> name_start (hd name) \<and> list_all name_char name \<and>
      (case d of None \<Rightarrow> True | Some x \<Rightarrow> CHR ''}'' \<notin> set x))"

fun segment_value :: "(string, string) dict \<Rightarrow> string \<Rightarrow> segment \<Rightarrow> string cfg" where
  "segment_value environ key_path (Lit s) = Inr s"
| "segment_value environ key_path (Ref name d) =
     (case dict_get environ name of
        None \<Rightarrow> (case d of None \<Rightarrow> Inl (EnvNotSet name key_path) | Some x \<Rightarrow> Inr x)
      | Some v \<Rightarrow> (case d of None \<Rightarrow> Inr v | Some x \<Rightarrow> Inr (if v = [] then x else v)))"

lemma segment_value_Ref: "segment_value environ key_path (Ref name d) = resolve_reference environ key_path name d"
  by (simp add: resolve_reference_def split: option.split)

lemma name_char_brace: "\<not> name_char (CHR ''}'')" "\<not> name_char (CHR '':'')"
  by (simp_all add: name_char_def name_start_def Let_def)

lemma takeWhile_run: "list_all P xs \<Longrightarrow> \<not> P y \<Longrightarrow> takeWhile P (xs @ y # ys) = xs \<and> dropWhile P (xs @ y # ys) = y # ys"
  by (induction xs) auto

lemma match_reference_render:
  assumes "plain_segment (Ref name d)"
  shows "match_reference (render_segment (Ref name d) @ rest) = Some (name, d, rest)"
proof (cases d)
  case None
  show ?thesis
    using assms takeWhile_run [of name_char name "CHR ''}''" rest]
    by (simp add: None match_reference_def name_char_brace)
next
  case (Some x)
  have "list_all (\<lambda>c. c \<noteq> CHR ''}'') x"
    using assms by (auto simp: Some list_all_iff)
  then show ?thesis
    using assms takeWhile_run [of name_char name "CHR '':''" "CHR ''-'' # x @ CHR ''}'' # rest"]
      takeWhile_run [of "\<lambda>c. c \<noteq> CHR ''}''" x "CHR ''}''" rest]
    by (simp add: Some match_reference_def name_char_brace)
qed

lemma match_reference_None:
  "\<not> (\<exists>t. s = CHR ''$'' # CHR ''{'' # t) \<Longrightarrow> match_reference s = None"
  by (auto simp: match_reference_def split: list.split)

lemma sub_references_step:
  "match_reference (c # cs) = None \<Longrightarrow>
     sub_references environ key_path (c # cs) =
       res_bind (sub_references environ key_path cs) (\<lambda>r. Inr (c # r))"
  by (subst sub_references.simps) simp

lemma sub_references_Nil: "sub_references environ key_path [] = Inr []"
  by (subst sub_references.simps) (simp add: match_reference_def)

lemma res_bind_assoc: "res_bind (res_bind m f) g = res_bind m (\<lambda>x. res_bind (f x) g)"
  by (cases m) auto

lemma sub_references_literal:
  "\<not> has_reference s \<Longrightarrow> s \<noteq> [] \<longrightarrow> last s \<noteq> CHR ''$'' \<Longrightarrow>
     sub_references environ key_path (s @ rest) =
       res_bind (sub_references environ key_path rest) (\<lambda>r. Inr (s @ r))"
proof (induction s)
  case Nil
  show ?case by (cases "sub_references environ key_path rest") auto
next
  case (Cons c s)
  have none: "match_reference ((c # s) @ rest) = None"
    using Cons.prems by (cases s) (auto intro!: match_reference_None)
  have "\<not> has_reference s" "s \<noteq> [] \<longrightarrow> last s \<noteq> CHR ''$''"
    using Cons.prems by (cases s; auto)+
  then show ?case
    using none by (simp add: sub_references_step Cons.IH res_bind_assoc)
qed

lemma sub_references_render:
  "list_all plain_segment t \<Longrightarrow>
     sub_references environ key_path (render t) =
       res_bind (map_res (segment_value environ key_path) t) (\<lambda>vs. Inr (concat vs))"
proof (induction t)
  case Nil
  show ?case by (simp add: render_def sub_references_Nil)
next
  case (Cons seg t)
  have r: "render (seg # t) = render_segment seg @ render t" by (simp add: render_def)
  show ?case
  proof (cases seg)
    case (Lit s)
    with Cons show ?thesis by (simp add: r [unfolded Lit] sub_references_literal res_bind_assoc)
  next
    case (Ref name d)
    have "plain_segment (Ref name d)" using Cons.prems by (simp add: Ref)
    then have m: "match_reference (render_segment (Ref name d) @ render t) = Some (name, d, render t)"
      by (rule match_reference_render)
    have ih: "sub_references environ key_path (render t) =
        res_bind (map_res (segment_value environ key_path) t) (\<lambda>vs. Inr (concat vs))"
      using Cons by simp
    show ?thesis
      unfolding r [unfolded Ref] Ref
      by (subst sub_references.simps)
         (simp add: m ih segment_value_Ref res_bind_assoc del: segment_value.simps(2))
  qed
qed

text \<open>
  C34: Interpolation is evaluation. For a text written as literals and references, the loader's
  scan of the characters computes what the references mean: the variable's value, its default when
  the variable is unset or empty, the error of the first reference that has neither; the
  values are put in verbatim and never scanned again, and a result that still holds an opening
  dollar brace is refused.
\<close>

theorem interpolation_evaluates_references:
  assumes "list_all plain_segment t"
  shows "interpolate_str environ key_path (render t) =
    (case map_res (segment_value environ key_path) t of
       Inl e \<Rightarrow> Inl e
     | Inr vs \<Rightarrow>
         if has_reference (concat vs) then Inl (UnsupportedReference key_path (concat vs))
         else Inr (concat vs))"
  using assms by (simp add: interpolate_str_def sub_references_render res_bind_def split: sum.split)

lemma interpolation_evaluates_references_witness:
  "interpolate_str [(''HOST'', ''bmc1''), (''PORT'', [])] ''$.url''
     ''https://${HOST}:${PORT:-443}/'' = Inr ''https://bmc1:443/''"
  using interpolation_evaluates_references
    [of "[Lit ''https://'', Ref ''HOST'' None, Lit '':'', Ref ''PORT'' (Some ''443''), Lit ''/'']"
        "[(''HOST'', ''bmc1''), (''PORT'', [])]" "''$.url''"]
  by (simp add: render_def name_start_def name_char_def Let_def)

text \<open>No string of a value holds an opening dollar brace.\<close>

fun reference_free :: "pyval \<Rightarrow> bool" where
  "reference_free (PStr s) = (\<not> has_reference s)"
| "reference_free (PList xs) = list_all reference_free xs"
| "reference_free (PDict d) = list_all (\<lambda>kv. reference_free (snd kv)) d"
| "reference_free _ = True"

lemma sub_references_plain: "\<not> has_reference s \<Longrightarrow> sub_references environ key_path s = Inr s"
proof (induction s)
  case (Cons c s)
  have "match_reference (c # s) = None" and "\<not> has_reference s"
    using Cons.prems by (cases s; auto intro!: match_reference_None)+
  with Cons show ?case by (simp add: sub_references_step)
qed (simp add: sub_references_Nil)

lemma interpolate_str_fixed:
  "interpolate_str environ key_path s = Inr r \<Longrightarrow> \<not> has_reference r"
  by (auto simp: interpolate_str_def res_bind_Inr split: if_splits)

lemma interpolate_reference_free:
  "interpolate environ key_path v = Inr v' \<Longrightarrow> reference_free v'"
  "interpolate_dict environ key_path d = Inr d' \<Longrightarrow> list_all (\<lambda>kv. reference_free (snd kv)) d'"
  "interpolate_list environ key_path i vs = Inr vs' \<Longrightarrow> list_all reference_free vs'"
  by (induction environ key_path v and environ key_path d and environ key_path i vs
      arbitrary: v' and d' and vs' rule: interpolate_interpolate_dict_interpolate_list.induct)
     (auto simp: res_bind_Inr dest: interpolate_str_fixed)

lemma interpolate_id:
  "reference_free v \<Longrightarrow> interpolate environ key_path v = Inr v"
  "list_all (\<lambda>kv. reference_free (snd kv)) d \<Longrightarrow> interpolate_dict environ key_path d = Inr d"
  "list_all reference_free vs \<Longrightarrow> interpolate_list environ key_path i vs = Inr vs"
  by (induction environ key_path v and environ key_path d and environ key_path i vs
      rule: interpolate_interpolate_dict_interpolate_list.induct)
     (auto simp: interpolate_str_def sub_references_plain)

text \<open>
  No reference reaches the runtime. Whatever document the loader interpolates, no string
  of the result holds an opening dollar brace, not even one brought in by a variable's value; so a second
  interpolation, in any environment, changes nothing.
\<close>

theorem interpolation_leaves_no_reference:
  assumes "interpolate environ key_path v = Inr v'"
  shows "reference_free v' \<and> interpolate environ' key_path' v' = Inr v'"
  using interpolate_reference_free(1) [OF assms] interpolate_id(1) by simp

lemma interpolation_leaves_no_reference_witness:
  "interpolate [(''U'', ''admin'')] ''$'' (PDict [(''user'', PStr ''${U}'')]) = Inr (PDict [(''user'', PStr ''admin'')])
   \<and> interpolate [] ''$'' (PDict [(''user'', PStr ''admin'')]) = Inr (PDict [(''user'', PStr ''admin'')])"
proof -
  have run: "interpolate [(''U'', ''admin'')] ''$'' (PDict [(''user'', PStr ''${U}'')]) =
      Inr (PDict [(''user'', PStr ''admin'')])"
    using sub_references_render [of "[Ref ''U'' None]" "[(''U'', ''admin'')]" "''$.user''"]
    by (simp add: render_def name_start_def name_char_def interpolate_str_def)
  from run interpolation_leaves_no_reference [OF run, of "[]" "''$''"] show ?thesis by simp
qed

section \<open>Strings of the readers\<close>

lemma rstrip_Nil [simp]: "rstrip_by P [] = []"
  by (simp add: rstrip_by_def)

lemma rstrip_Cons: "\<not> P c \<Longrightarrow> rstrip_by P (c # s) = c # rstrip_by P s"
  by (cases "\<exists>x \<in> set (rev s). \<not> P x") (auto simp: rstrip_by_def dropWhile_append)

lemma rstrip_idem: "rstrip_by P (rstrip_by P s) = rstrip_by P s"
  by (simp add: rstrip_by_def)

lemma lstrip_Cons: "\<not> P c \<Longrightarrow> lstrip_by P (c # s) = c # s"
  by (simp add: lstrip_by_def)

lemma lstrip_rstrip: "lstrip_by P (rstrip_by P (lstrip_by P s)) = rstrip_by P (lstrip_by P s)"
proof (cases "lstrip_by P s")
  case (Cons c t)
  then have "\<not> P c" by (simp add: lstrip_by_def dropWhile_eq_Cons_conv)
  then show ?thesis by (simp add: Cons rstrip_Cons lstrip_Cons)
next
  case Nil
  show ?thesis by (simp add: Nil lstrip_by_def [of P "[]"])
qed

lemma strip_idem [simp]: "strip (strip s) = strip s"
  by (simp add: strip_def strip_by_def lstrip_rstrip rstrip_idem)

lemma rstrip_append: "P c \<Longrightarrow> rstrip_by P (s @ [c]) = rstrip_by P s"
  by (simp add: rstrip_by_def)

lemma of_char_lower: "of_char (lower_char c) =
    (let n = (of_char c :: nat) in
     if 65 \<le> n \<and> n \<le> 90 \<or> 192 \<le> n \<and> n \<le> 222 \<and> n \<noteq> 215 then n + 32 else n)"
  by (auto simp: lower_char_def Let_def of_char_of)

lemma lower_char_idem [simp]: "lower_char (lower_char c) = lower_char c"
proof -
  have "\<not> (65 \<le> (of_char (lower_char c) :: nat) \<and> (of_char (lower_char c) :: nat) \<le> 90 \<or>
           192 \<le> (of_char (lower_char c) :: nat) \<and> (of_char (lower_char c) :: nat) \<le> 222 \<and>
           (of_char (lower_char c) :: nat) \<noteq> 215)"
    by (auto simp: of_char_lower Let_def)
  then show ?thesis unfolding lower_char_def [of "lower_char c"] by (simp only: Let_def if_False)
qed

lemma is_space_lower [simp]: "is_space (lower_char c) = is_space c"
  by (auto simp: is_space_def of_char_lower Let_def)

lemma lower_idem [simp]: "lower (lower s) = lower s"
  by (simp add: lower_def)

lemma strip_map: "(\<And>c. P (f c) = P c) \<Longrightarrow> strip_by P (map f s) = map f (strip_by P s)"
  by (simp add: strip_by_def lstrip_by_def rstrip_by_def dropWhile_map rev_map comp_def)

lemma strip_lower: "strip (lower s) = lower (strip s)"
  by (simp add: strip_def lower_def strip_map)

section \<open>The configurations the builder returns\<close>

text \<open>What the documented rules demand of a configuration, part by part.\<close>

definition trimmed :: "string \<Rightarrow> bool" where
  "trimmed s = (\<not> blank s \<and> strip s = s)"

definition valid_proxy :: "file_system \<Rightarrow> proxy_config \<Rightarrow> bool" where
  "valid_proxy fs p =
     (px_host p \<noteq> [] \<and> 1 \<le> px_port p \<and> px_unknown_path_policy p \<in> set unknown_path_policies \<and>
      0 \<le> px_target_read_timeout p \<and>
      list_all (\<lambda>h. trimmed h \<and> lower h = h) (px_session_id_headers p) \<and>
      1 / 10 \<le> px_shutdown_tick p \<and> st_path (px_store p) \<noteq> [] \<and>
      validate_store_path fs (st_path (px_store p)) = Inr () \<and> 0 \<le> st_retention_days (px_store p))"

definition valid_aws :: "aws_power_config \<Rightarrow> bool" where
  "valid_aws a =
     (\<not> blank (aw_region a) \<and> \<not> blank (aw_instance_id a) \<and> aw_off_action a \<in> set off_actions \<and>
      (nonempty_opt (aw_access_key a) \<and> nonempty_opt (aw_secret_key a) \<or> nonempty_opt (aw_profile a)))"

definition valid_redfish :: "redfish_power_config \<Rightarrow> bool" where
  "valid_redfish r = (\<not> blank (rf_user r) \<and> \<not> blank (rf_password r) \<and> rf_system_path r \<noteq> [])"

fun valid_power :: "string \<Rightarrow> power_config \<Rightarrow> bool" where
  "valid_power server_type (RedfishPowerConfig r) = (server_type = ''redfish'' \<and> valid_redfish r)"
| "valid_power server_type (NoopPowerConfig n) =
     (server_type = ''noop'' \<and> np_initial_state n \<in> set noop_states)"
| "valid_power server_type (AwsEc2PowerConfig a) = (server_type = ''aws-ec2'' \<and> valid_aws a)"

definition valid_server :: "cron_check \<Rightarrow> server_config \<Rightarrow> bool" where
  "valid_server cron s =
     (\<not> blank (vc_name s) \<and> valid_power (vc_type s) (vc_power s) \<and>
      rstrip_by (\<lambda>c. c = CHR ''/'') (vc_service_url s) = vc_service_url s \<and>
      1 / 1000 \<le> vc_idle_timeout s \<and>
      (case vc_schedule s of None \<Rightarrow> True | Some x \<Rightarrow> validate_schedule cron x = Inr ()))"

definition valid_readiness :: "readiness_config \<Rightarrow> bool" where
  "valid_readiness r =
     (startswith (rd_path r) ''/'' \<and> rd_method r \<in> set readiness_methods \<and>
      1 / 10 \<le> rd_interval r \<and> 1 / 10 \<le> rd_timeout r)"

definition valid_session :: "session_config \<Rightarrow> bool" where
  "valid_session c =
     (sc_request_mode c \<in> set request_modes \<and> 0 \<le> sc_busy_window c \<and> 1 \<le> sc_expiry c)"

definition valid_endpoint :: "endpoint_config \<Rightarrow> bool" where
  "valid_endpoint e =
     (\<not> blank (ec_name e) \<and> startswith (ec_path_prefix e) ''/'' \<and> \<not> blank (ec_path_prefix e) \<and>
      valid_readiness (ec_readiness e) \<and> ec_wait_policy e \<in> set wait_policies \<and>
      ec_routing e \<in> set routings \<and> (ec_routing e = ''queued'' \<longrightarrow> 1 \<le> ec_concurrency e) \<and>
      valid_session (ec_session e) \<and> list_all trimmed (ec_session_id_body_fields e))"

definition valid_client :: "client_config \<Rightarrow> bool" where
  "valid_client c =
     (\<not> blank (cc_name c) \<and>
      list_all trimmed (mc_session_headers (cc_match c)) \<and>
      list_all trimmed (mc_gated_session_headers (cc_match c)) \<and>
      sx_kind (cc_status c) \<in> set status_kinds \<and> 1 \<le> sx_port (cc_status c) \<and>
      1 / 10 \<le> sx_poll_interval (cc_status c) \<and> sx_status_path (cc_status c) \<noteq> [] \<and>
      sx_session_path (cc_status c) \<noteq> [] \<and> list_all trimmed (sx_pending_paths (cc_status c)) \<and>
      ch_kind (cc_children c) \<in> set children_kinds \<and> 1 \<le> ch_depth (cc_children c))"

definition valid_config :: "file_system \<Rightarrow> cron_check \<Rightarrow> relay_config \<Rightarrow> bool" where
  "valid_config fs cron c =
     (valid_proxy fs (rc_proxy c) \<and>
      list_all (valid_server cron) (rc_servers c) \<and> distinct (map vc_name (rc_servers c)) \<and>
      list_all valid_endpoint (rc_endpoints c) \<and> distinct (map ec_name (rc_endpoints c)) \<and>
      distinct (map ec_path_prefix (rc_endpoints c)) \<and>
      (\<forall>e \<in> set (rc_endpoints c). ec_server e \<in> set (map vc_name (rc_servers c))) \<and>
      length (filter ec_catch_all (rc_endpoints c)) \<le> 1 \<and>
      list_all valid_client (rc_clients c) \<and> distinct (map cc_name (rc_clients c)))"

subsection \<open>What a reader returns\<close>

lemma or_default_Inr:
  "or_default d k loc dflt rd = Inr x \<longleftrightarrow>
     (\<not> present d k \<and> dflt = Some x) \<or> (present d k \<and> rd (dget d k) = Inr x)"
  by (auto simp: or_default_def split: option.splits)

lemma get_str_nonblank: "get_str d k loc None = Inr s \<Longrightarrow> \<not> blank s"
  by (auto simp: get_str_def or_default_Inr split: pyval.splits if_splits)

lemma get_int_min: "get_int d k loc (Some x) (Some m) = Inr i \<Longrightarrow> m \<le> x \<Longrightarrow> m \<le> i"
  by (auto simp: get_int_def or_default_Inr split: pyval.splits if_splits)

lemma get_float_min: "get_float d k loc (Some x) (Some m) = Inr r \<Longrightarrow> m \<le> x \<Longrightarrow> m \<le> r"
  by (auto simp: get_float_def or_default_Inr split: option.splits if_splits)

lemma get_enum_allowed: "get_enum d k loc allowed (Some x) = Inr s \<Longrightarrow> x \<in> set allowed \<Longrightarrow> s \<in> set allowed"
  by (auto simp: get_enum_def or_default_Inr split: pyval.splits if_splits)

lemma get_enum_required: "get_enum d k loc allowed None = Inr s \<Longrightarrow> s \<in> set allowed"
  by (auto simp: get_enum_def or_default_Inr split: pyval.splits if_splits)

lemma trimmed_strip: "\<not> blank s \<Longrightarrow> trimmed (strip s)"
  by (simp add: trimmed_def blank_def)

lemma nonblank_str_Some: "nonblank_str v = Some s \<longleftrightarrow> v = PStr s \<and> \<not> blank s"
  by (auto simp: nonblank_str_def split: pyval.splits)

lemma get_str_list_trimmed:
  assumes "get_str_list d k loc dflt = Inr xs" and "dflt = None \<or> list_all trimmed (the dflt)"
  shows "list_all trimmed xs"
proof (cases "dget d k")
  case (PList vs)
  have xs: "xs = map (\<lambda>v. strip (the (nonblank_str v))) vs" and all: "\<forall>v \<in> set vs. nonblank_str v \<noteq> None"
    using assms(1) by (auto simp: get_str_list_def PList list_ex_iff split: if_splits)
  have "trimmed (strip (the (nonblank_str v)))" if v: "v \<in> set vs" for v
  proof -
    from all v obtain s where "nonblank_str v = Some s" by blast
    then show ?thesis using trimmed_strip [of s] nonblank_str_Some [of v s] by simp
  qed
  then show ?thesis by (simp add: xs list_all_iff)
qed (use assms in \<open>auto simp: get_str_list_def split: option.splits\<close>)

lemma str_or_nonempty: "d \<noteq> [] \<Longrightarrow> str_or x d \<noteq> []"
  by (cases x) auto

text \<open>The same facts for the classical reasoner, each of one premise.\<close>

lemma reader_dests:
  "get_str d k loc None = Inr s \<Longrightarrow> \<not> blank s"
  "get_int d k loc (Some i0) (Some m) = Inr i \<Longrightarrow> m \<le> i0 \<longrightarrow> m \<le> i"
  "get_float d k loc (Some r0) (Some q) = Inr r \<Longrightarrow> q \<le> r0 \<longrightarrow> q \<le> r"
  "get_enum d k loc allowed (Some x) = Inr y \<Longrightarrow> x \<in> set allowed \<longrightarrow> y \<in> set allowed"
  "get_str_list d k loc (Some hs) = Inr xs \<Longrightarrow> list_all trimmed hs \<longrightarrow> list_all trimmed xs"
  "get_str_list d k loc None = Inr ys \<Longrightarrow> list_all trimmed ys"
  using get_str_nonblank get_int_min get_float_min get_enum_allowed get_str_list_trimmed
  by (fastforce+)


subsection \<open>What a builder returns\<close>

lemma enum_defaults:
  "''allow'' \<in> set unknown_path_policies" "''wait'' \<in> set wait_policies" "''queued'' \<in> set routings"
  "''parallel'' \<in> set request_modes" "''stop'' \<in> set off_actions" "''opencode'' \<in> set status_kinds"
  "''none'' \<in> set children_kinds" "''GET'' \<in> set readiness_methods"
  by (simp_all add: unknown_path_policies_def wait_policies_def routings_def request_modes_def
      off_actions_def status_kinds_def children_kinds_def readiness_methods_def)

lemma strip_Nil [simp]: "strip [] = []"
  by (simp add: strip_def strip_by_def lstrip_by_def)

lemma lower_Nil_iff [simp]: "lower s = [] \<longleftrightarrow> s = []"
  by (simp add: lower_def)

lemma trimmed_lower: "list_all trimmed hs \<Longrightarrow> list_all (\<lambda>h. trimmed h \<and> lower h = h) (map lower hs)"
  by (auto simp: list_all_iff trimmed_def blank_def strip_lower)

lemma upper_method: "m \<in> set readiness_methods \<Longrightarrow> upper m = m"
  by (auto simp: readiness_methods_def upper_def upper_char_def Let_def)

lemma build_proxy_valid:
  assumes "build_proxy fs raw = Inr p" shows "valid_proxy fs p"
proof -
  have tr: "trimmed ''x-session-id''"
    by (simp add: trimmed_def blank_def strip_def strip_by_def lstrip_by_def rstrip_by_def is_space_def Let_def)
  show ?thesis
    using assms
    by (auto simp: build_proxy_def Let_def res_bind_Inr valid_proxy_def enum_defaults str_or_nonempty tr
        intro!: trimmed_lower dest!: reader_dests)
qed

lemma build_readiness_valid:
  assumes "build_readiness raw loc = Inr r" shows "valid_readiness r"
proof -
  have sl: "startswith (''/'' @ path) ''/''" for path by (simp add: startswith_def)
  obtain path tmo interval meth where r: "rd_path r = (if startswith path ''/'' then path else ''/'' @ path)"
      "rd_method r = upper meth" "rd_interval r = interval" "rd_timeout r = tmo"
    and m: "get_enum raw ''method'' loc readiness_methods (Some ''GET'') = Inr meth"
    and i: "get_float raw ''interval'' loc (Some 5) (Some (1 / 10)) = Inr interval"
    and t: "get_float raw ''timeout'' loc (Some 2) (Some (1 / 10)) = Inr tmo"
    using assms by (auto simp: build_readiness_def Let_def res_bind_Inr)
  have "meth \<in> set readiness_methods" using get_enum_allowed [OF m] by (simp add: enum_defaults)
  then show ?thesis
    using get_float_min [OF i] get_float_min [OF t] sl
    by (simp add: valid_readiness_def r upper_method)
qed

lemma build_session_valid: "build_session raw loc = Inr c \<Longrightarrow> valid_session c"
  by (auto simp: build_session_def res_bind_Inr valid_session_def enum_defaults
      dest!: reader_dests)

lemma build_redfish_valid: "build_redfish raw loc = Inr p \<Longrightarrow> valid_power ''redfish'' p"
  by (auto simp: build_redfish_def res_bind_Inr valid_redfish_def str_or_nonempty
      dest!: reader_dests split: if_splits)

lemma build_noop_valid: "build_noop raw loc = Inr p \<Longrightarrow> valid_power ''noop'' p"
  by (auto simp: build_noop_def Let_def split: pyval.splits if_splits)

lemma build_aws_valid: "build_aws raw loc = Inr p \<Longrightarrow> valid_power ''aws-ec2'' p"
  by (auto simp: build_aws_def Let_def res_bind_Inr valid_aws_def enum_defaults
      dest!: reader_dests split: if_splits)

lemma build_power_valid: "build_power raw server_type loc = Inr p \<Longrightarrow> valid_power server_type p"
  by (auto simp: build_power_def build_redfish_valid build_noop_valid build_aws_valid split: if_splits)

text \<open>A raise is not a result: what remains of a chain of checks that returned.\<close>

lemma raise_Inr:
  "(if b then Inl x else m) = Inr v \<longleftrightarrow> \<not> b \<and> m = Inr v"
  "(case opt of None \<Rightarrow> m | Some y \<Rightarrow> Inl (f y)) = Inr v \<longleftrightarrow> opt = None \<and> m = Inr v"
  by (auto split: option.splits)

lemmas chain_simps = res_bind_Inr raise_Inr sum.inject

lemma build_server_valid:
  assumes "build_server cron seen loc raw = Inr s" shows "valid_server cron s \<and> vc_name s \<notin> seen"
  using assms unfolding build_server_def
  apply (clarsimp simp only: chain_simps)
  apply (clarsimp simp: valid_server_def rstrip_idem dest!: reader_dests build_power_valid)
  apply (auto split: option.splits)
  done

lemma build_servers_from_valid:
  "build_servers_from cron i seen raws = Inr ss \<Longrightarrow>
     list_all (valid_server cron) ss \<and> distinct (map vc_name ss) \<and> vc_name ` set ss \<inter> seen = {}"
proof (induction raws arbitrary: i seen ss)
  case (Cons raw raws)
  then obtain s rest where ss: "ss = s # rest" and s: "build_server cron seen (idx ''servers'' i) raw = Inr s"
    and rest: "build_servers_from cron (Suc i) (insert (vc_name s) seen) raws = Inr rest"
    by (auto simp: res_bind_Inr)
  from build_server_valid [OF s] Cons.IH [OF rest] show ?case
    by (auto simp: ss)
qed simp

lemma build_endpoint_valid:
  assumes "build_endpoint server_names seen owners ca loc raw = Inr e"
  shows "valid_endpoint e \<and> ec_name e \<notin> seen \<and> ec_server e \<in> server_names \<and>
    dict_get owners (ec_path_prefix e) = None \<and> \<not> (ca \<and> ec_catch_all e)"
  using assms unfolding build_endpoint_def
  apply (clarsimp simp only: chain_simps)
  apply (clarsimp simp: valid_endpoint_def not_less enum_defaults
      dest!: reader_dests build_readiness_valid build_session_valid)
  done

lemma build_endpoints_from_valid:
  "build_endpoints_from names i seen owners ca raws = Inr es \<Longrightarrow>
     list_all valid_endpoint es \<and> distinct (map ec_name es) \<and> ec_name ` set es \<inter> seen = {} \<and>
     distinct (map ec_path_prefix es) \<and> (\<forall>e \<in> set es. dict_get owners (ec_path_prefix e) = None) \<and>
     (\<forall>e \<in> set es. ec_server e \<in> names) \<and>
     length (filter ec_catch_all es) \<le> (if ca then 0 else 1)"
proof (induction raws arbitrary: i seen owners ca es)
  case (Cons raw raws)
  then obtain e rest where es: "es = e # rest"
    and e: "build_endpoint names seen owners ca (idx ''endpoints'' i) raw = Inr e"
    and rest: "build_endpoints_from names (Suc i) (insert (ec_name e) seen)
      (dict_put (ec_path_prefix e) (ec_name e) owners) (ca \<or> ec_catch_all e) raws = Inr rest"
    by (auto simp: res_bind_Inr)
  note v = build_endpoint_valid [OF e] and ih = Cons.IH [OF rest]
  have "ec_path_prefix e \<notin> ec_path_prefix ` set rest"
    using ih by (auto split: if_splits)
  moreover have "\<forall>x \<in> set rest. dict_get owners (ec_path_prefix x) = None"
    using ih by (auto split: if_splits)
  moreover have "length (filter ec_catch_all es) \<le> (if ca then 0 else 1)"
    using v ih by (auto simp: es split: if_splits)
  ultimately show ?case using v ih by (auto simp: es)
qed simp

lemma pending_trimmed:
  assumes "(if present raw k then get_str_list raw k loc None
            else Inr (if kind = ''opencode'' then [''/permission'', ''/question''] else [])) = Inr xs"
  shows "list_all trimmed xs"
proof -
  have "trimmed ''/permission''" "trimmed ''/question''"
    by (simp_all add: trimmed_def blank_def strip_def strip_by_def lstrip_by_def rstrip_by_def
        is_space_def Let_def)
  then show ?thesis using assms by (auto dest!: reader_dests split: if_splits)
qed

lemma build_status_valid:
  assumes "build_status raw loc = Inr st"
  shows "sx_kind st \<in> set status_kinds \<and> 1 \<le> sx_port st \<and> 1 / 10 \<le> sx_poll_interval st \<and>
    sx_status_path st \<noteq> [] \<and> sx_session_path st \<noteq> [] \<and> list_all trimmed (sx_pending_paths st)"
  using assms unfolding build_status_def
  apply (clarsimp simp only: res_bind_Inr sum.inject dest!: pending_trimmed)
  apply (clarsimp simp: enum_defaults str_or_nonempty dest!: reader_dests)
  done

lemma build_client_valid:
  assumes "build_client seen loc raw = Inr c" shows "valid_client c \<and> cc_name c \<notin> seen"
  using assms unfolding build_client_def build_match_def build_children_def
  apply (clarsimp simp only: chain_simps)
  apply (clarsimp simp: valid_client_def enum_defaults dest!: reader_dests build_status_valid)
  done

lemma build_clients_from_valid:
  "build_clients_from i seen raws = Inr cs \<Longrightarrow>
     list_all valid_client cs \<and> distinct (map cc_name cs) \<and> cc_name ` set cs \<inter> seen = {}"
proof (induction raws arbitrary: i seen cs)
  case (Cons raw raws)
  then obtain c rest where cs: "cs = c # rest" and c: "build_client seen (idx ''clients'' i) raw = Inr c"
    and rest: "build_clients_from (Suc i) (insert (cc_name c) seen) raws = Inr rest"
    by (auto simp: res_bind_Inr)
  from build_client_valid [OF c] Cons.IH [OF rest] show ?case by (auto simp: cs)
qed simp


section \<open>Round trip\<close>

text \<open>The document of a configuration, with every field written out.\<close>

definition dump_opt :: "string option \<Rightarrow> pyval" where
  "dump_opt x = (case x of None \<Rightarrow> PNone | Some s \<Rightarrow> PStr s)"

definition dump_strs :: "string list \<Rightarrow> pyval" where
  "dump_strs xs = PList (map PStr xs)"

definition dump_proxy :: "proxy_config \<Rightarrow> pyval" where
  "dump_proxy p = PDict
     [(''host'', PStr (px_host p)), (''port'', PInt (px_port p)),
      (''unknown_path_policy'', PStr (px_unknown_path_policy p)),
      (''target_read_timeout'', PInt (px_target_read_timeout p)),
      (''session_id_headers'', dump_strs (px_session_id_headers p)),
      (''shutdown_tick'', PFloat (px_shutdown_tick p)),
      (''store'', PDict [(''path'', PStr (st_path (px_store p))),
         (''retention_days'', PInt (st_retention_days (px_store p)))])]"

fun dump_power :: "power_config \<Rightarrow> pyval" where
  "dump_power (RedfishPowerConfig r) = PDict
     [(''host'', PStr (rf_host r)), (''base_url'', dump_opt (rf_base_url r)),
      (''user'', PStr (rf_user r)), (''password'', PStr (rf_password r)),
      (''system_path'', PStr (rf_system_path r)), (''verify_ssl'', PBool (rf_verify_ssl r))]"
| "dump_power (NoopPowerConfig n) = PDict [(''initial_state'', PStr (np_initial_state n))]"
| "dump_power (AwsEc2PowerConfig a) = PDict
     [(''access_key'', dump_opt (aw_access_key a)), (''secret_key'', dump_opt (aw_secret_key a)),
      (''profile'', dump_opt (aw_profile a)), (''region'', PStr (aw_region a)),
      (''instance_id'', PStr (aw_instance_id a)), (''session_token'', dump_opt (aw_session_token a)),
      (''off_action'', PStr (aw_off_action a))]"

definition dump_server :: "server_config \<Rightarrow> pyval" where
  "dump_server s = PDict
     [(''name'', PStr (vc_name s)), (''type'', PStr (vc_type s)), (''power'', dump_power (vc_power s)),
      (''schedule'', dump_opt (vc_schedule s)), (''service_url'', PStr (vc_service_url s @ ''/'')),
      (''idle_timeout'', PFloat (vc_idle_timeout s)),
      (''shutdown_enabled'', PBool (vc_shutdown_enabled s)),
      (''adopt_on_traffic'', PBool (vc_adopt_on_traffic s))]"

definition dump_readiness :: "readiness_config \<Rightarrow> pyval" where
  "dump_readiness r = PDict
     [(''path'', PStr (rd_path r)), (''method'', PStr (rd_method r)),
      (''interval'', PFloat (rd_interval r)), (''timeout'', PFloat (rd_timeout r)),
      (''healthy_statuses'', PList (map PInt (rd_healthy_statuses r)))]"

definition dump_session :: "session_config \<Rightarrow> pyval" where
  "dump_session c = PDict
     [(''per_session_requests'', PInt (sc_per_session_requests c)),
      (''request_mode'', PStr (sc_request_mode c)), (''busy_window'', PFloat (sc_busy_window c)),
      (''expiry'', PFloat (sc_expiry c)), (''immediate_idle_release'', PBool (sc_immediate_idle_release c))]"

definition dump_endpoint :: "endpoint_config \<Rightarrow> pyval" where
  "dump_endpoint e = PDict
     [(''name'', PStr (ec_name e)), (''server'', PStr (ec_server e)),
      (''path_prefix'', PStr (ec_path_prefix e)), (''catch_all'', PBool (ec_catch_all e)),
      (''readiness'', dump_readiness (ec_readiness e)), (''wait_policy'', PStr (ec_wait_policy e)),
      (''routing'', PStr (ec_routing e)), (''concurrency'', PInt (ec_concurrency e)),
      (''queue_timeout'', PFloat (ec_queue_timeout e)), (''session'', dump_session (ec_session e)),
      (''session_id_body_fields'', dump_strs (ec_session_id_body_fields e))]"

definition dump_client :: "client_config \<Rightarrow> pyval" where
  "dump_client c = PDict
     [(''name'', PStr (cc_name c)),
      (''match'', PDict
         [(''ua_prefix'', PStr (mc_ua_prefix (cc_match c))),
          (''session_headers'', dump_strs (mc_session_headers (cc_match c))),
          (''gated_session_headers'', dump_strs (mc_gated_session_headers (cc_match c)))]),
      (''status'', PDict
         [(''kind'', PStr (sx_kind (cc_status c))), (''port'', PInt (sx_port (cc_status c))),
          (''password'', PStr (sx_password (cc_status c))),
          (''poll_interval'', PFloat (sx_poll_interval (cc_status c))),
          (''status_path'', PStr (sx_status_path (cc_status c))),
          (''session_path'', PStr (sx_session_path (cc_status c))),
          (''pending_paths'', dump_strs (sx_pending_paths (cc_status c)))]),
      (''children'', PDict
         [(''kind'', PStr (ch_kind (cc_children c))), (''depth'', PInt (ch_depth (cc_children c)))])]"

definition dump_config :: "relay_config \<Rightarrow> section_data" where
  "dump_config c =
     [(''proxy'', dump_proxy (rc_proxy c)), (''servers'', PList (map dump_server (rc_servers c))),
      (''endpoints'', PList (map dump_endpoint (rc_endpoints c))),
      (''clients'', PList (map dump_client (rc_clients c)))]"

lemma read_str: "dget d k = PStr s \<Longrightarrow> \<not> blank s \<Longrightarrow> get_str d k loc dflt = Inr s"
  by (simp add: get_str_def or_default_def present_def)

lemma read_str_opt: "dget d k = dump_opt x \<Longrightarrow> get_str_opt d k loc = Inr x"
  by (cases x) (auto simp: get_str_opt_def or_default_def present_def dump_opt_def)

lemma read_str_set: "dget d k = PStr s \<Longrightarrow> get_str_opt d k loc = Inr (Some s)"
  by (simp add: get_str_opt_def or_default_def present_def)

lemma read_int: "dget d k = PInt i \<Longrightarrow> (case minimum of None \<Rightarrow> True | Some m \<Rightarrow> m \<le> i) \<Longrightarrow>
    get_int d k loc dflt minimum = Inr i"
  by (auto simp: get_int_def or_default_def present_def split: option.splits)

lemma read_float: "dget d k = PFloat r \<Longrightarrow> (case minimum of None \<Rightarrow> True | Some m \<Rightarrow> m \<le> r) \<Longrightarrow>
    get_float d k loc dflt minimum = Inr r"
  by (auto simp: get_float_def or_default_def present_def as_number_def split: option.splits)

lemma read_bool: "dget d k = PBool b \<Longrightarrow> get_bool d k loc dflt = Inr b"
  by (simp add: get_bool_def or_default_def present_def)

lemma read_enum: "dget d k = PStr s \<Longrightarrow> s \<in> set allowed \<Longrightarrow> get_enum d k loc allowed dflt = Inr s"
  by (simp add: get_enum_def or_default_def present_def)

lemma read_strs: "dget d k = dump_strs xs \<Longrightarrow> list_all trimmed xs \<Longrightarrow> get_str_list d k loc dflt = Inr xs"
  by (auto simp: get_str_list_def dump_strs_def list_all_iff list_ex_iff trimmed_def nonblank_str_def map_idI)

lemma read_ints: "dget d k = PList (map PInt is) \<Longrightarrow> get_int_list d k loc dflt = Inr is"
  by (simp add: get_int_list_def as_integer_def list_ex_iff comp_def)

lemma read_section: "as_section (PDict d) sec = Inr d" and read_list: "list_section (PList xs) sec = Inr xs"
  by (simp_all add: as_section_def list_section_def)

lemma dget_Cons: "dget ((k, v) # d) j = (if k = j then v else dget d j)"
  by (simp add: dget_def)

lemmas readers = read_str read_str_opt read_str_set read_int read_float read_bool read_enum read_strs
  read_ints read_section read_list dget_Cons

lemma not_blank_append: "\<not> is_space c \<Longrightarrow> \<not> blank (s @ [c])"
proof -
  assume c: "\<not> is_space c"
  have "lstrip_by is_space (s @ [c]) = dropWhile is_space s @ [c]"
    using c by (cases "\<exists>x \<in> set s. \<not> is_space x") (auto simp: lstrip_by_def dropWhile_append)
  then show ?thesis using c by (simp add: blank_def strip_def strip_by_def rstrip_by_def)
qed

lemma valid_headers: "list_all (\<lambda>h. trimmed h \<and> lower h = h) hs \<Longrightarrow> list_all trimmed hs \<and> map lower hs = hs"
  by (auto simp: list_all_iff map_idI)

lemma build_dump_proxy:
  assumes "valid_proxy fs p" and "dump_proxy p = PDict d" shows "build_proxy fs d = Inr p"
proof -
  have d: "d = (case dump_proxy p of PDict d \<Rightarrow> d | _ \<Rightarrow> [])" by (simp add: assms(2))
  show ?thesis
    using assms(1) valid_headers [of "px_session_id_headers p"]
    unfolding d dump_proxy_def build_proxy_def
    by (simp add: readers valid_proxy_def Let_def)
qed

lemma build_dump_power:
  assumes "valid_power server_type p"
  shows "\<exists>d. dump_power p = PDict d \<and> build_power d server_type loc = Inr p"
proof (cases p)
  case (RedfishPowerConfig r)
  with assms show ?thesis
    by (simp add: build_power_def build_redfish_def valid_redfish_def readers)
next
  case (NoopPowerConfig n)
  with assms show ?thesis by (simp add: build_power_def build_noop_def)
next
  case (AwsEc2PowerConfig a)
  with assms show ?thesis
    by (simp add: build_power_def build_aws_def valid_aws_def readers Let_def)
qed

lemma build_dump_server:
  assumes v: "valid_server cron s" and new: "vc_name s \<notin> seen"
  shows "build_server cron seen loc (dump_server s) = Inr s"
proof -
  obtain d where d: "dump_power (vc_power s) = PDict d"
    and p: "build_power d (vc_type s) (loc @ ''.power'') = Inr (vc_power s)"
    using build_dump_power v unfolding valid_server_def by blast
  have ty: "vc_type s \<in> set server_types"
    using v by (cases "vc_power s") (auto simp: valid_server_def server_types_def)
  have sched: "(case vc_schedule s of None \<Rightarrow> Inr () | Some x \<Rightarrow> validate_schedule cron x) = Inr ()"
    using v by (auto simp: valid_server_def split: option.splits)
  have url: "\<not> blank (vc_service_url s @ ''/'')"
      "rstrip_by (\<lambda>c. c = CHR ''/'') (vc_service_url s @ ''/'') = vc_service_url s"
    using v by (auto simp: not_blank_append rstrip_append valid_server_def is_space_def Let_def)
  show ?thesis
    using v new unfolding dump_server_def build_server_def
    by (simp add: readers d p ty sched url valid_server_def del: append_eq_conv_conj)
qed

lemma build_dump_servers:
  "list_all (valid_server cron) ss \<Longrightarrow> distinct (map vc_name ss) \<Longrightarrow> vc_name ` set ss \<inter> seen = {} \<Longrightarrow>
     build_servers_from cron i seen (map dump_server ss) = Inr ss"
  by (induction ss arbitrary: i seen) (auto simp: build_dump_server)

lemma build_dump_readiness:
  assumes "valid_readiness r"
  shows "\<exists>d. dump_readiness r = PDict d \<and> build_readiness d loc = Inr r"
proof -
  have "rd_path r \<noteq> []" using assms by (auto simp: valid_readiness_def startswith_def)
  then show ?thesis
    using assms
    by (simp add: dump_readiness_def build_readiness_def valid_readiness_def readers upper_method Let_def)
qed

lemma build_dump_session:
  assumes "valid_session c" shows "\<exists>d. dump_session c = PDict d \<and> build_session d loc = Inr c"
  using assms by (simp add: dump_session_def build_session_def valid_session_def readers)

lemma build_dump_endpoint:
  assumes v: "valid_endpoint e" and new: "ec_name e \<notin> seen" and srv: "ec_server e \<in> names" "\<not> blank (ec_server e)"
    and own: "dict_get owners (ec_path_prefix e) = None" and ca: "\<not> (ca \<and> ec_catch_all e)"
  shows "build_endpoint names seen owners ca loc (dump_endpoint e) = Inr e"
proof -
  obtain rd where rd: "dump_readiness (ec_readiness e) = PDict rd"
      "build_readiness rd (loc @ ''.readiness'') = Inr (ec_readiness e)"
    using build_dump_readiness v unfolding valid_endpoint_def by blast
  obtain sd where sd: "dump_session (ec_session e) = PDict sd"
      "build_session sd (loc @ ''.session'') = Inr (ec_session e)"
    using build_dump_session v unfolding valid_endpoint_def by blast
  show ?thesis
    using v new srv own ca unfolding dump_endpoint_def build_endpoint_def
    by (auto simp: readers rd sd valid_endpoint_def)
qed

lemma build_dump_endpoints:
  "list_all valid_endpoint es \<Longrightarrow> distinct (map ec_name es) \<Longrightarrow> distinct (map ec_path_prefix es) \<Longrightarrow>
   ec_name ` set es \<inter> seen = {} \<Longrightarrow> \<forall>e \<in> set es. dict_get owners (ec_path_prefix e) = None \<Longrightarrow>
   \<forall>e \<in> set es. ec_server e \<in> names \<and> \<not> blank (ec_server e) \<Longrightarrow>
   length (filter ec_catch_all es) \<le> (if ca then 0 else 1) \<Longrightarrow>
     build_endpoints_from names i seen owners ca (map dump_endpoint es) = Inr es"
proof (induction es arbitrary: i seen owners ca)
  case (Cons e es)
  have e: "build_endpoint names seen owners ca (idx ''endpoints'' i) (dump_endpoint e) = Inr e"
    by (rule build_dump_endpoint) (use Cons.prems in \<open>auto split: if_splits\<close>)
  have other: "\<forall>x \<in> set es. ec_path_prefix x \<noteq> ec_path_prefix e"
    using Cons.prems(3) by (auto intro: rev_image_eqI)
  have "build_endpoints_from names (Suc i) (insert (ec_name e) seen)
      (dict_put (ec_path_prefix e) (ec_name e) owners) (ca \<or> ec_catch_all e) (map dump_endpoint es) = Inr es"
    by (rule Cons.IH) (use Cons.prems other in \<open>auto split: if_splits\<close>)
  then show ?case by (simp add: e)
qed simp

lemma build_dump_client:
  assumes "valid_client c" and "cc_name c \<notin> seen"
  shows "build_client seen loc (dump_client c) = Inr c"
  using assms unfolding dump_client_def build_client_def
  by (simp add: readers build_match_def build_status_def build_children_def valid_client_def present_def dump_strs_def [symmetric])
     (simp add: dump_strs_def)

lemma build_dump_clients:
  "list_all valid_client cs \<Longrightarrow> distinct (map cc_name cs) \<Longrightarrow> cc_name ` set cs \<inter> seen = {} \<Longrightarrow>
     build_clients_from i seen (map dump_client cs) = Inr cs"
  by (induction cs arbitrary: i seen) (auto simp: build_dump_client)

text \<open>
  C32: Every valid configuration can be written down and loaded again: the builder turns the
  document that spells out all its fields into that very configuration. With the converse
  (what is built is valid) the checks of the loader accept exactly the documented rules.
\<close>

theorem config_roundtrip:
  assumes "valid_config fs cron c" shows "build fs cron (dump_config c) = Inr c"
proof -
  obtain p where p: "dump_proxy (rc_proxy c) = PDict p" by (simp add: dump_proxy_def)
  have proxy: "build_proxy fs p = Inr (rc_proxy c)"
    using assms by (auto simp: valid_config_def intro: build_dump_proxy p)
  have servers: "build_servers cron (map dump_server (rc_servers c)) = Inr (rc_servers c)"
    unfolding build_servers_def by (rule build_dump_servers) (use assms in \<open>simp_all add: valid_config_def\<close>)
  have names: "\<not> blank n" if "n \<in> set (map vc_name (rc_servers c))" for n
    using assms that by (auto simp: valid_config_def list_all_iff valid_server_def)
  have "build_endpoints (map dump_endpoint (rc_endpoints c)) (set (map vc_name (rc_servers c))) =
      Inr (rc_endpoints c)"
    unfolding build_endpoints_def
    by (rule build_dump_endpoints) (use assms names in \<open>auto simp: valid_config_def\<close>)
  moreover have "build_clients (map dump_client (rc_clients c)) = Inr (rc_clients c)"
    unfolding build_clients_def by (rule build_dump_clients) (use assms in \<open>simp_all add: valid_config_def\<close>)
  ultimately show ?thesis
    by (simp add: build_def dump_config_def readers p proxy servers)
qed

definition demo_fs :: file_system where
  "demo_fs = \<lparr>fs_components = split_on CHR ''/'', fs_exists = (\<lambda>p. p = [] \<or> p = [''.'']),
     fs_is_dir = (\<lambda>_. True), fs_text = concat\<rparr>"

definition demo_relay :: relay_config where
  "demo_relay =
     \<lparr>rc_proxy = default_proxy_config,
      rc_servers = [default_server_config ''gpu1'' ''noop''
        (NoopPowerConfig \<lparr>np_initial_state = ''off''\<rparr>) ''http://10.0.0.2:8000''],
      rc_endpoints = [default_endpoint_config ''chat'' ''gpu1'' ''/v1'',
        default_endpoint_config ''all'' ''gpu1'' ''/''\<lparr>ec_catch_all := True\<rparr>],
      rc_clients = [default_client_config ''opencode'']\<rparr>"

lemma demo_relay_valid: "valid_config demo_fs (\<lambda>_. None) demo_relay"
  by (simp add: valid_config_def demo_relay_def demo_fs_def valid_proxy_def valid_server_def
      valid_endpoint_def valid_readiness_def valid_session_def valid_client_def trimmed_def blank_def
      strip_def strip_by_def lstrip_by_def rstrip_by_def is_space_def Let_def startswith_def
      default_proxy_config_def default_store_config_def default_server_config_def
      default_endpoint_config_def default_readiness_config_def default_session_config_def
      default_client_config_def unknown_path_policies_def wait_policies_def routings_def
      request_modes_def readiness_methods_def noop_states_def status_kinds_def children_kinds_def
      validate_store_path_def existing_ancestor.simps lower_def lower_char_def)

text \<open>The empty document is the default configuration.\<close>

definition bare_relay :: relay_config where
  "bare_relay = \<lparr>rc_proxy = default_proxy_config, rc_servers = [], rc_endpoints = [], rc_clients = []\<rparr>"

lemma bare_relay_built: "build demo_fs (\<lambda>_. None) [] = Inr bare_relay"
  by (simp add: build_def as_section_def list_section_def build_proxy_def build_servers_def
      build_endpoints_def build_clients_def get_str_opt_def get_int_def get_enum_def get_float_def
      get_str_list_def or_default_def present_def dget_def validate_store_path_def demo_fs_def
      existing_ancestor.simps default_proxy_config_def default_store_config_def bare_relay_def
      lower_def lower_char_def Let_def)


lemma config_roundtrip_witness:
  "valid_config demo_fs (\<lambda>_. None) demo_relay \<and>
   build demo_fs (\<lambda>_. None) (dump_config demo_relay) = Inr demo_relay"
  using demo_relay_valid config_roundtrip [OF demo_relay_valid] by simp

section \<open>Two checks that do not check\<close>

text \<open>The host of a Redfish block is only tested for being set: an empty one (say from an empty
  environment variable) passes, and the backend then talks to \<open>https://\<close>.\<close>

lemma redfish_empty_host_accepted:
  "build_redfish [(''host'', PStr []), (''user'', PStr ''u''), (''password'', PStr ''p'')] loc =
     Inr (RedfishPowerConfig
       \<lparr>rf_host = [], rf_user = ''u'', rf_password = ''p'', rf_base_url = None,
        rf_system_path = ''/redfish/v1/Systems/Self'', rf_verify_ssl = False\<rparr>)"
  by (simp add: build_redfish_def get_str_def get_str_opt_def get_bool_def or_default_def present_def
      dget_def blank_def strip_def strip_by_def lstrip_by_def rstrip_by_def is_space_def Let_def)

text \<open>A lone access key never raises the error meant for it: the test asks for both keys first.\<close>

lemma aws_half_keys_never_reported: "build_aws raw loc \<noteq> Inl (AwsNeedsBothKeys loc')"
proof
  assume "build_aws raw loc = Inl (AwsNeedsBothKeys loc')"
  moreover have "get_str_opt raw k loc \<noteq> Inl (AwsNeedsBothKeys loc')" for k
    by (auto simp: get_str_opt_def or_default_def split: pyval.splits)
  moreover have "get_str raw k loc None \<noteq> Inl (AwsNeedsBothKeys loc')" for k
    by (auto simp: get_str_def or_default_def split: pyval.splits)
  moreover have "get_enum raw k loc xs (Some x) \<noteq> Inl (AwsNeedsBothKeys loc')" for k xs x
    by (auto simp: get_enum_def or_default_def split: pyval.splits)
  ultimately show False
    by (auto simp: build_aws_def res_bind_Inl Let_def split: if_splits)
qed

end
