(* ===== verification/Relay_App_Props.thy ===== *)
theory Relay_App_Props
  imports Relay_Monitor Relay_Config_Props Relay_Endpoints_Props Relay_Queue_Views
begin

text \<open>
  What the assembled relay promises: a valid configuration becomes a running application, a server
  with work is not powered off, the numbers of the monitor agree with each other, refused
  traffic leaves no trace, and shutdown accounts for the buffered requests.
\<close>

section \<open>From a configuration to an application\<close>

definition supported :: "server_config \<Rightarrow> bool" where
  "supported c \<longleftrightarrow> vc_type c \<in> {''redfish'', ''noop''}"

lemma create_backend_ok:
  assumes "valid_power (vc_type c) (vc_power c)"
  shows "supported c \<Longrightarrow> \<exists>b. create_power_backend w c = Inr b"
    and "\<not> supported c \<Longrightarrow> \<exists>m. create_power_backend w c = Inl (ConfigError m)"
  using assms by (cases "vc_power c"; auto simp: supported_def create_power_backend_def)+

lemma new_server_config: "v_config (new_server c b st cooldown now) = c"
  by (simp add: new_server_def)

lemma new_endpoint_config: "ep_config (new_endpoint c srv ps providers hs tr t) = c"
  by (simp add: new_endpoint_def)

text \<open>The queue an endpoint starts with.\<close>

definition fresh_queue :: "endpoint_config \<Rightarrow> equeue" where
  "fresh_queue c = init_queue (ec_concurrency c) (sc_per_session_requests (ec_session c))
     (sc_busy_window (ec_session c)) (sc_expiry (ec_session c)) (sc_request_mode (ec_session c) = ''atomic'')
     (sc_immediate_idle_release (ec_session c))"

lemma new_endpoint_queue: "ep_queue (new_endpoint c srv ps providers hs tr t) = fresh_queue c"
  by (simp add: new_endpoint_def fresh_queue_def)

lemma make_servers_ok:
  assumes "list_all (\<lambda>c. valid_power (vc_type c) (vc_power c) \<and> supported c) cs"
    and "distinct (map vc_name cs)" and "\<forall>c \<in> set cs. \<not> dict_has servers (vc_name c)"
  shows "\<exists>servers'. make_servers world st now cs servers = Inr (servers @ servers') \<and>
    dict_keys servers' = map vc_name cs \<and> map (\<lambda>(_, s). v_config s) servers' = cs"
  using assms
proof (induction cs arbitrary: servers)
  case (Cons c cs)
  obtain b where b: "create_power_backend (world c) c = Inr b"
    using create_backend_ok(1) Cons.prems(1) by auto
  let ?s = "new_server c b st power_on_cooldown now"
  have put: "dict_put (vc_name c) ?s servers = servers @ [(vc_name c, ?s)]"
    using Cons.prems(3) by (simp add: dict_put_append)
  have "\<forall>d \<in> set cs. \<not> dict_has (servers @ [(vc_name c, ?s)]) (vc_name d)"
    using Cons.prems(2,3) unfolding put [symmetric] by (auto simp: image_iff)
  from Cons.IH [OF _ _ this] Cons.prems(1,2)
  obtain servers' where "make_servers world st now cs (servers @ [(vc_name c, ?s)]) =
      Inr ((servers @ [(vc_name c, ?s)]) @ servers')" "dict_keys servers' = map vc_name cs"
    "map (\<lambda>(_, s). v_config s) servers' = cs" by auto
  then show ?case
    by (intro exI [of _ "(vc_name c, ?s) # servers'"]) (simp add: b put new_server_config)
qed simp

lemma make_servers_unsupported:
  assumes "list_all (\<lambda>c. valid_power (vc_type c) (vc_power c)) cs" and "\<not> list_all supported cs"
  shows "\<exists>m. make_servers world st now cs servers = Inl (ConfigError m)"
  using assms
proof (induction cs arbitrary: servers)
  case (Cons c cs)
  show ?case
  proof (cases "supported c")
    case True
    obtain b where "create_power_backend (world c) c = Inr b"
      using create_backend_ok(1) [OF _ True] Cons.prems(1) by auto
    then show ?thesis using Cons.IH Cons.prems True by simp
  next
    case False
    obtain m where "create_power_backend (world c) c = Inl (ConfigError m)"
      using create_backend_ok(2) [OF _ False] Cons.prems(1) by auto
    then show ?thesis by simp
  qed
qed simp

lemma dict_keys_configs:
  "dict_keys servers = map vc_name cs \<Longrightarrow> map (\<lambda>(_, s). v_config s) servers = cs \<Longrightarrow>
   map (\<lambda>(n, s). (n, v_config s)) servers = map (\<lambda>c. (vc_name c, c)) cs"
proof (induction servers arbitrary: cs)
  case (Cons x servers)
  then show ?case by (cases cs; cases x) auto
qed simp

text \<open>The endpoints after setup: one for each configured, in order.\<close>

definition catch_all_name :: "endpoint_config list \<Rightarrow> string option \<Rightarrow> string option" where
  "catch_all_name cs = fold (\<lambda>c n. if ec_catch_all c then Some (ec_name c) else n) cs"

lemma make_endpoints_ok:
  assumes "\<forall>c \<in> set cs. dict_has (ra_servers app) (ec_server c)"
    and "distinct (map ec_name cs)" and "\<forall>c \<in> set cs. \<not> dict_has (ra_endpoints app) (ec_name c)"
  shows "\<exists>es. make_endpoints cs app =
      (Inr (), app\<lparr>ra_endpoints := ra_endpoints app @ es, ra_catch_all := catch_all_name cs (ra_catch_all app)\<rparr>) \<and>
    map (\<lambda>(n, e). (n, ep_config e)) es = map (\<lambda>c. (ec_name c, c)) cs \<and>
    (\<forall>(n, e) \<in> set es. ep_queue e = fresh_queue (ep_config e))"
  using assms
proof (induction cs arbitrary: app)
  case Nil
  then show ?case by (simp add: catch_all_name_def hret_def)
next
  case (Cons c cs)
  obtain srv where srv: "dict_get (ra_servers app) (ec_server c) = Some srv"
    using Cons.prems(1) by (auto simp: dict_has_def)
  let ?e = "new_endpoint c srv (ra_pollers app) (ra_providers app)
    (px_session_id_headers (rc_proxy (ra_config app))) (ra_tracker app) (ra_read_timeout app)"
  let ?app = "app\<lparr>ra_endpoints := ra_endpoints app @ [(ec_name c, ?e)],
    ra_catch_all := (if ec_catch_all c then Some (ec_name c) else ra_catch_all app)\<rparr>"
  have put: "dict_put (ec_name c) ?e (ra_endpoints app) = ra_endpoints app @ [(ec_name c, ?e)]"
    using Cons.prems(3) by (simp add: dict_put_append)
  have one: "make_endpoint c app = (Inr (), ?app)"
    unfolding make_endpoint_def by (simp add: srv put)
  have "\<forall>d \<in> set cs. \<not> dict_has (ra_endpoints app @ [(ec_name c, ?e)]) (ec_name d)"
    using Cons.prems(2,3) unfolding put [symmetric] by (auto simp: image_iff)
  with Cons.IH [of ?app] Cons.prems(1,2) obtain es where
    "make_endpoints cs ?app = (Inr (), ?app\<lparr>ra_endpoints := ra_endpoints ?app @ es,
       ra_catch_all := catch_all_name cs (ra_catch_all ?app)\<rparr>)"
    "map (\<lambda>(n, e). (n, ep_config e)) es = map (\<lambda>c. (ec_name c, c)) cs"
    "\<forall>(n, e) \<in> set es. ep_queue e = fresh_queue (ep_config e)" by auto
  then show ?case
    by (intro exI [of _ "(ec_name c, ?e) # es"])
       (simp add: one new_endpoint_config new_endpoint_queue catch_all_name_def)
qed

lemma catch_all_name_fold:
  "catch_all_name cs n = (case filter ec_catch_all cs of [] \<Rightarrow> n | xs \<Rightarrow> Some (ec_name (last xs)))"
  unfolding catch_all_name_def
  by (induction cs arbitrary: n) (auto split: list.splits)

lemma catch_all_name_case:
  "case catch_all_name cs None of
     None \<Rightarrow> \<not> list_ex ec_catch_all cs | Some n \<Rightarrow> \<exists>c \<in> set cs. ec_catch_all c \<and> ec_name c = n"
proof (cases "filter ec_catch_all cs")
  case Nil
  then show ?thesis by (auto simp: catch_all_name_fold list_ex_iff filter_empty_conv)
next
  case (Cons x xs)
  then have "last (filter ec_catch_all cs) \<in> set (filter ec_catch_all cs)" by (intro last_in_set) simp
  then have "last (x # xs) \<in> set cs" "ec_catch_all (last (x # xs))" unfolding Cons by (auto simp only: Cons [symmetric] set_filter mem_Collect_eq)
  then show ?thesis unfolding catch_all_name_fold Cons by (simp only: list.case option.case) blast
qed

lemma valid_app:
  assumes valid: "valid_config fs cron config" and sup: "list_all supported (rc_servers config)"
  shows "\<exists>app app'. new_relay world st now config = Inr app \<and> setup_app True app = (Inr (), app') \<and>
    ra_config app' = config \<and>
    map (\<lambda>(n, s). (n, v_config s)) (ra_servers app') = map (\<lambda>c. (vc_name c, c)) (rc_servers config) \<and>
    map (\<lambda>(n, e). (n, ep_config e)) (ra_endpoints app') = map (\<lambda>c. (ec_name c, c)) (rc_endpoints config) \<and>
    (\<forall>(n, e) \<in> set (ra_endpoints app'). ep_queue e = fresh_queue (ep_config e)) \<and>
    (\<forall>(n, e) \<in> set (ra_endpoints app'). dict_has (ra_servers app') (ec_server (ep_config e))) \<and>
    (case ra_catch_all app' of
       None \<Rightarrow> \<not> list_ex ec_catch_all (rc_endpoints config)
     | Some n \<Rightarrow> \<exists>c \<in> set (rc_endpoints config). ec_catch_all c \<and> ec_name c = n)"
proof -
  have "list_all (\<lambda>c. valid_power (vc_type c) (vc_power c) \<and> supported c) (rc_servers config)"
    using valid sup by (auto simp: valid_config_def valid_server_def list_all_iff)
  from make_servers_ok [OF this, of "[]" world st now] valid
  obtain servers where s: "make_servers world st now (rc_servers config) [] = Inr servers"
    "dict_keys servers = map vc_name (rc_servers config)" "map (\<lambda>(_, s). v_config s) servers = rc_servers config"
    by (auto simp: valid_config_def)
  obtain app where app: "new_relay world st now config = Inr app" "ra_servers app = servers"
    "ra_config app = config" "ra_endpoints app = []" "ra_catch_all app = None"
    by (simp add: new_relay_def s)
  let ?app = "app\<lparr>ra_pollers := fold make_poller (rc_clients config) (ra_pollers app)\<rparr>"
  have known: "\<forall>c \<in> set (rc_endpoints config). dict_has (ra_servers ?app) (ec_server c)"
    using valid s(2) by (simp add: valid_config_def app dict_has_iff)
  with make_endpoints_ok [of "rc_endpoints config" ?app] valid
  obtain es where es: "make_endpoints (rc_endpoints config) ?app =
      (Inr (), ?app\<lparr>ra_endpoints := es, ra_catch_all := catch_all_name (rc_endpoints config) None\<rparr>)"
    "map (\<lambda>(n, e). (n, ep_config e)) es = map (\<lambda>c. (ec_name c, c)) (rc_endpoints config)"
    "\<forall>(n, e) \<in> set es. ep_queue e = fresh_queue (ep_config e)"
    by (auto simp: valid_config_def app)
  let ?app' = "?app\<lparr>ra_endpoints := es, ra_catch_all := catch_all_name (rc_endpoints config) None\<rparr>"
  have "setup_app True app = (Inr (), ?app')" using es(1) by (simp add: setup_app_def app)
  moreover have "map (\<lambda>(n, s). (n, v_config s)) servers = map (\<lambda>c. (vc_name c, c)) (rc_servers config)"
    using s(2,3) by (metis (no_types) dict_keys_configs)
  moreover have "dict_has servers (ec_server (ep_config e))" if "(n, e) \<in> set es" for n e
  proof -
    have "(n, ep_config e) \<in> set (map (\<lambda>(n, e). (n, ep_config e)) es)" using that by force
    then have "ep_config e \<in> set (rc_endpoints config)" unfolding es(2) by auto
    then show ?thesis using known by (simp add: app)
  qed
  ultimately show ?thesis
    using es(2,3) app catch_all_name_case [of "rc_endpoints config"]
    by (intro exI [of _ app] exI [of _ ?app']) auto
qed

text \<open>
  C33: A valid configuration becomes an application, unless it names a server type with no
  backend. For a configuration the loader accepts, construction and setup succeed exactly when
  every server has a backend of this version; then there is one server and one endpoint for
  each configured, in order and under its name, every endpoint's server exists, and the
  catch-all is the endpoint configured as one. Otherwise construction raises a ConfigError.
\<close>

theorem valid_config_assembles:
  assumes valid: "valid_config fs cron config"
  shows "(list_all supported (rc_servers config) \<longrightarrow>
      (\<exists>app app'. new_relay world st now config = Inr app \<and> setup_app True app = (Inr (), app') \<and>
         map (\<lambda>(n, s). (n, v_config s)) (ra_servers app') = map (\<lambda>c. (vc_name c, c)) (rc_servers config) \<and>
         map (\<lambda>(n, e). (n, ep_config e)) (ra_endpoints app') = map (\<lambda>c. (ec_name c, c)) (rc_endpoints config) \<and>
         (\<forall>(n, e) \<in> set (ra_endpoints app'). dict_has (ra_servers app') (ec_server (ep_config e))) \<and>
         (case ra_catch_all app' of
            None \<Rightarrow> \<not> list_ex ec_catch_all (rc_endpoints config)
          | Some n \<Rightarrow> \<exists>c \<in> set (rc_endpoints config). ec_catch_all c \<and> ec_name c = n))) \<and>
    (\<not> list_all supported (rc_servers config) \<longrightarrow> (\<exists>m. new_relay world st now config = Inl (ConfigError m)))"
proof (cases "list_all supported (rc_servers config)")
  case True
  then show ?thesis using valid_app [OF valid, of world st now] by blast
next
  case False
  have "list_all (\<lambda>c. valid_power (vc_type c) (vc_power c)) (rc_servers config)"
    using valid by (auto simp: valid_config_def valid_server_def list_all_iff)
  from make_servers_unsupported [OF this False]
  have "\<exists>m. new_relay world st now config = Inl (ConfigError m)"
    unfolding new_relay_def by (metis res_bind_simps(1))
  then show ?thesis using False by blast
qed

lemma valid_config_assembles_witness:
  "valid_config demo_fs (\<lambda>_. None) demo_relay \<and> list_all supported (rc_servers demo_relay) \<and>
   (\<exists>app app'. new_relay (\<lambda>_. \<lparr>bw_answer = \<lambda>_. BmcTransportError, bw_calls = []\<rparr>) demo_store 0 demo_relay = Inr app \<and>
      setup_app True app = (Inr (), app') \<and>
      map (\<lambda>(n, e). (n, ep_config e)) (ra_endpoints app') = map (\<lambda>c. (ec_name c, c)) (rc_endpoints demo_relay))"
proof -
  have sup: "list_all supported (rc_servers demo_relay)"
    by (simp add: demo_relay_def supported_def default_server_config_def)
  then show ?thesis
    using demo_relay_valid valid_config_assembles [OF demo_relay_valid, of "\<lambda>_. \<lparr>bw_answer = \<lambda>_. BmcTransportError, bw_calls = []\<rparr>" demo_store 0]
    by blast
qed

section \<open>Work keeps a server on\<close>

lemma busy_tick:
  assumes "server_has_activity s"
  shows "shutdown_tick prev ops env now clk s =
    (Inr (), (snd (schedule_off_tick prev ops env now s))\<lparr>v_last_activity := clk\<rparr>) \<and>
    v_log (snd (schedule_off_tick prev ops env now s)) = v_log s \<and>
    v_store (snd (schedule_off_tick prev ops env now s)) = v_store s \<and>
    (\<forall>cron last. vc_schedule (v_config s) = Some cron \<and> cron \<noteq> [] \<and> v_last_fired_cron s = Some last \<and>
       last < prev cron now \<longrightarrow> v_schedule_deferred (snd (schedule_off_tick prev ops env now s)))"
proof -
  have keep: "server_has_activity (s\<lparr>v_last_fired_cron := a\<rparr>)"
    "server_has_activity (s\<lparr>v_schedule_deferred := d, v_last_fired_cron := a\<rparr>)" for a d
    using assms by (simp_all add: server_has_activity_def)
  show ?thesis
    by (cases "vc_schedule (v_config s)"; cases "v_last_fired_cron s")
       (simp_all add: shutdown_tick_def schedule_off_tick_def idle_off_tick_def hbind_def Let_def keep assms)
qed

lemma load_server_busy:
  assumes "(n, e) \<in> set (ra_endpoints app)" and "ec_server (ep_config e) = server_name srv"
    and "endpoint_has_activity e"
  shows "server_has_activity (load_server app srv)"
  using assms by (force simp: load_server_def server_views_def server_has_activity_def list_ex_iff)

text \<open>
  C8: A server with work is not powered off. While one of its endpoints has a queued request, a
  held spot or an unqueued forward, a tick of its shutdown engine, schedule and idle timeout
  alike, issues no power command, writes nothing to the store and touches no endpoint,
  whatever happens at its awaits. The idle clock restarts at the tick, and a schedule
  that fires meanwhile is remembered as deferred.
\<close>

theorem busy_server_stays_on:
  assumes srv: "dict_get (ra_servers app) name = Some srv" "server_name srv = name"
    and ep: "(n, e) \<in> set (ra_endpoints app)" "ec_server (ep_config e) = name"
    and busy: "q_queue (ep_queue e) \<noteq> [] \<or> q_spots (ep_queue e) \<noteq> [] \<or> 0 < ep_active_forwards e"
  shows "\<exists>srv' app'. run_server name (shutdown_tick prev ops env now clk) app = (Inr (), app') \<and>
    dict_get (ra_servers app') name = Some srv' \<and> v_log srv' = v_log srv \<and> v_last_activity srv' = clk \<and>
    ra_store app' = ra_store app \<and> ra_endpoints app' = ra_endpoints app \<and>
    (\<forall>cron last. vc_schedule (v_config srv) = Some cron \<and> cron \<noteq> [] \<and> v_last_fired_cron srv = Some last \<and>
       last < prev cron now \<longrightarrow> v_schedule_deferred srv')"
proof -
  let ?s = "load_server app srv"
  have "server_has_activity ?s"
    using ep busy srv by (intro load_server_busy) (auto simp: endpoint_has_activity_def has_activity_def)
  note tick = busy_tick [OF this, of prev ops env now clk]
  have same: "v_log ?s = v_log srv" "v_config ?s = v_config srv" "v_last_fired_cron ?s = v_last_fired_cron srv"
    "v_store ?s = ra_store app" by (simp_all add: load_server_def)
  let ?s' = "(snd (schedule_off_tick prev ops env now ?s))\<lparr>v_last_activity := clk\<rparr>"
  have "run_server name (shutdown_tick prev ops env now clk) app = (Inr (), save_server name ?s' app)"
    using srv tick by (simp add: run_server_def)
  then show ?thesis
    using tick unfolding same by (intro exI [of _ ?s'] exI [of _ "save_server name ?s' app"]) (simp add: save_server_def)
qed

definition demo_app :: "noop_backend relay" where
  "demo_app = \<lparr>ra_config = demo_relay, ra_store = open_store, ra_servers = [(''gpu'', owned_server)],
     ra_providers = [], ra_pollers = [], ra_endpoints = [(''chat'', demo_endpoint)], ra_catch_all = None,
     ra_tracker = [], ra_read_timeout = 0, ra_started_at = 0\<rparr>"

lemma busy_server_stays_on_witness:
  "\<exists>srv' app'. run_server ''gpu'' (shutdown_tick (\<lambda>_ t. t) noop_ops still 9000 9000) demo_app = (Inr (), app') \<and>
    dict_get (ra_servers app') ''gpu'' = Some srv' \<and> v_log srv' = [] \<and> v_last_activity srv' = 9000"
  using busy_server_stays_on [of demo_app "''gpu''" owned_server "''chat''" demo_endpoint "\<lambda>_ t. t" noop_ops still 9000 9000]
  by (auto simp: demo_app_def server_name_def demo_defs demo_endpoint_def new_endpoint_def ab_queue_eq
      default_endpoint_config_def)

section \<open>The totals of the monitor\<close>

lemma length_filter_concat: "length (filter P (concat xss)) = sum_list (map (\<lambda>xs. length (filter P xs)) xss)"
  by (induction xss) simp_all

lemma sum_list_concat_map: "sum_list (map f (concat xss)) = sum_list (map (\<lambda>xs. sum_list (map f xs)) xss)"
  by (induction xss) simp_all

text \<open>
  The numbers of the monitor agree. Whenever every queue satisfies its invariant, as every
  reachable queue does, the active sessions of the config block are the rows that hold a spot,
  its queued requests are the waiting requests of all rows, and the free slots of the endpoint
  lines with the active sessions make up the configured capacity.
\<close>

lemma monitor_totals_match_rows:
  assumes inv: "\<forall>(n, e) \<in> set (ra_endpoints app). \<exists>R W. q_inv R W (ep_queue e)"
    and data: "build_data next_fire isoformat wall_now now app = Inr data"
  shows "cb_active_sessions (md_config data) =
      length (filter (\<lambda>(row, n). r_spot row = ''held'') (md_sessions data)) \<and>
    int (cb_queued_requests (md_config data)) = sum_list (map (\<lambda>(row, n). r_waiting row) (md_sessions data)) \<and>
    sum_list (map el_free_slots (md_endpoints data)) + int (cb_active_sessions (md_config data)) =
      sum_list (map (\<lambda>(n, e). q_max_spots (ep_queue e)) (ra_endpoints app))"
proof -
  have d: "md_config data = config_block_of now app" "md_sessions data = session_rows now app"
    "md_endpoints data = map (\<lambda>(n, e). endpoint_line_of e) (ra_endpoints app)"
    using data by (cases "recent_power_events 50 (ra_store app)"; auto simp: build_data_def)+
  have held: "length (filter (\<lambda>(row, n). r_spot row = ''held'') (concat (map (\<lambda>(n, e).
        map (\<lambda>row. (row, endpoint_name e)) (snapshot (ep_queue e) now)) es))) =
      sum_list (map (\<lambda>(n, e). length (q_spots (ep_queue e))) es)"
    if "\<forall>(n, e) \<in> set es. \<exists>R W. q_inv R W (ep_queue e)" for es
    using that by (induction es) (auto simp: filter_map comp_def snapshot_held_rows)
  have waits: "sum_list (map (\<lambda>(row, n). r_waiting row) (concat (map (\<lambda>(n, e).
        map (\<lambda>row. (row, endpoint_name e)) (snapshot (ep_queue e) now)) es))) =
      int (sum_list (map (\<lambda>(n, e). length (q_queue (ep_queue e))) es))"
    if "\<forall>(n, e) \<in> set es. \<exists>R W. q_inv R W (ep_queue e)" for es
    using that by (induction es) (auto simp: comp_def snapshot_waiting_total)
  have free: "sum_list (map el_free_slots (map (\<lambda>(n, e). endpoint_line_of e) es)) +
      int (sum_list (map (\<lambda>(n, e). length (q_spots (ep_queue e))) es)) =
      sum_list (map (\<lambda>(n, e). q_max_spots (ep_queue e)) es)"
    if "\<forall>(n, e) \<in> set es. \<exists>R W. q_inv R W (ep_queue e)" for es
    using that by (induction es) (auto simp: endpoint_line_of_def Let_def q_inv_def q_capacity_def)
  show ?thesis
    using held [OF inv] waits [OF inv] free [OF inv]
    unfolding d by (simp add: config_block_of_def session_rows_def Let_def)
qed

lemma monitor_totals_match_rows_witness:
  "\<exists>data. build_data (\<lambda>_ t. Inr t) (\<lambda>_. []) 0 70 demo_app = Inr data \<and>
    cb_active_sessions (md_config data) = length (filter (\<lambda>(row, n). r_spot row = ''held'') (md_sessions data))"
proof -
  have "\<exists>data. build_data (\<lambda>_ t. Inr t) (\<lambda>_. []) 0 70 demo_app = Inr data"
    by (simp add: build_data_def demo_app_def recent_power_events_def open_store_def init_store_def empty_tables_def)
  then obtain data where data: "build_data (\<lambda>_ t. Inr t) (\<lambda>_. []) 0 70 demo_app = Inr data" by blast
  moreover have "\<forall>(n, e) \<in> set (ra_endpoints demo_app). \<exists>R W. q_inv R W (ep_queue e)"
    using ab_inv by (auto simp: demo_app_def demo_endpoint_def)
  ultimately show ?thesis using monitor_totals_match_rows [OF _ data] by blast
qed

section \<open>Traffic without an endpoint\<close>

lemma forwarded_only: "fst (hbind t (\<lambda>_. hbind u (\<lambda>r. hret (Forwarded r))) s) \<noteq> Inr BlockedPath \<and>
  fst (hbind t (\<lambda>_. hbind u (\<lambda>r. hret (Forwarded r))) s) \<noteq> Inr NoCatchAll"
  by (auto simp: hbind_def hret_def split: prod.split sum.split)

text \<open>A path no endpoint serves is refused under the policy \<open>block\<close>, without a trace in the application:
  no server is told, woken or adopted, and the tracker keeps no entry.\<close>

lemma blocked_path_leaves_no_trace:
  "fst (proxy ws envs uid now a app) = Inr BlockedPath \<longleftrightarrow>
     route_of (''/'' @ ar_path a) app = None \<and> px_unknown_path_policy (rc_proxy (ra_config app)) \<noteq> ''allow''"
  "fst (proxy ws envs uid now a app) = Inr BlockedPath \<Longrightarrow> snd (proxy ws envs uid now a app) = app"
  "fst (proxy ws envs uid now a app) = Inr NoCatchAll \<Longrightarrow> snd (proxy ws envs uid now a app) = app"
  by (auto simp: proxy_def Let_def forwarded_only split: option.splits if_splits)

section \<open>The last requests\<close>

text \<open>Shutdown writes what is still buffered, in order, when the database takes it; otherwise it
  counts every record it loses. Either way the buffer is empty and the store is closed.\<close>

lemma shutdown_accounts_for_buffer:
  assumes "so_open (ra_store app)" and "so_outcome (ra_store app) (so_txn (ra_store app)) = out"
    and "out = DbCommit \<or> (\<exists>c. out = DbApiError c \<and> db_failure c)"
  defines "st \<equiv> ra_store app" and "st' \<equiv> ra_store (shutdown app)"
  shows "so_buffer st' = [] \<and> \<not> so_open st' \<and>
    (if out = DbCommit
     then tb_requests (so_tables st') = tb_requests (so_tables st) @ so_buffer st \<and>
       so_dropped_requests st' = so_dropped_requests st
     else so_tables st' = so_tables st \<and>
       so_dropped_requests st' = so_dropped_requests st + length (so_buffer st))"
  using assms(1-3) unfolding st_def st'_def
  by (auto simp: shutdown_def flush_requests_def bulk_log_requests_def write_txn_def close_store_def
      note_write_success_def note_write_failure_def Let_def)

section \<open>The exit of the console command\<close>

text \<open>\<open>main\<close> reports every error of the loader and exits, but a server type without a backend is only
  noticed by the construction of the application, outside the handler: it escapes as a traceback.\<close>

lemma main_reports_loader_errors:
  assumes "fst (loaded I path environ) = Inl (ConfigError e)"
  shows "main I path host port environ now = SystemExit (''relay: config error: '' @ e)"
  using assms by (auto simp: main_def split: prod.split)

lemma main_lets_unsupported_type_escape:
  assumes "loaded I path environ = (Inr config, environ')" "fst (loaded I path environ') = Inr config"
    and "valid_config fs cron config" "\<not> list_all supported (rc_servers config)"
  shows "\<exists>m. main I path host port environ now = Escapes (ConfigError m)"
proof -
  have "list_all (\<lambda>c. valid_power (vc_type c) (vc_power c)) (rc_servers config)"
    using assms(3) by (auto simp: valid_config_def valid_server_def list_all_iff)
  from make_servers_unsupported [OF this assms(4)]
  obtain m where "make_servers (in_world I) (in_store I (st_path (px_store (rc_proxy config)))) now
      (rc_servers config) [] = Inl (ConfigError m)" by blast
  then have "create_app I path environ' now = Inl (ConfigError m)"
    using assms(2) by (simp add: create_app_def new_relay_def)
  then show ?thesis using assms(1) by (simp add: main_def)
qed

end
