(* ===== verification/Relay_Run.thy ===== *)
theory Relay_Run
  imports Relay_App_Props Relay_Ws_Props
begin

text \<open>
  The assembled relay at work: the steps of a running application, in any order, and what holds of
  every state they reach. A step is a turn of a background loop, an action of the monitor, or
  an event of the queue of one endpoint (a request or a WebSocket that comes, goes or ends); what
  happens at the awaits of a turn is arbitrary within the frame given here.
\<close>

section \<open>What no handler changes\<close>

text \<open>Interference that leaves the configuration of a server alone, and the same around an endpoint.\<close>

definition same_config :: "'b server \<Rightarrow> 'b server \<Rightarrow> bool" where
  "same_config s s' \<longleftrightarrow> v_config s' = v_config s"

definition steady :: "'b interference \<Rightarrow> bool" where
  "steady env \<longleftrightarrow> (\<forall>i s. same_config s (env i s))"

lemma steady_later: "steady env \<Longrightarrow> steady (later k env)"
  by (simp add: steady_def later_def)

interpretation conf: kept_relation same_config
  by unfold_locales (simp_all add: same_config_def)

lemma steady_config: "steady env \<Longrightarrow> v_config (env i s) = v_config s"
  by (simp add: steady_def same_config_def)

lemma same_config_fields [simp]:
  "same_config s s" "same_config s (s\<lparr>v_last_activity := a\<rparr>)" "same_config s (s\<lparr>v_last_sync_at := t\<rparr>)"
  "same_config s (s\<lparr>v_last_fired_cron := c\<rparr>)" "same_config s (s\<lparr>v_schedule_deferred := d\<rparr>)"
  "same_config s (s\<lparr>v_schedule_deferred := d, v_last_fired_cron := c\<rparr>)"
  by (simp_all add: same_config_def)

lemma steady_power:
  assumes "steady env"
  shows "same_config s (snd (server_power_on ops env reason by_whom uid now s))"
    and "same_config s (snd (server_power_off ops env reason by_whom now s))"
    and "same_config s (snd (maybe_power_on ops env reason uid now s))"
  using steady_config [OF assms]
  by (simp_all add: maybe_power_on_def server_power_on_def server_power_off_def same_config_def
      snd_hbind await_backend_eq await_store_eq split: sum.split)

lemma set_state_config [simp]: "v_config (set_state st now s) = v_config s"
  by (simp add: set_state_def Let_def)

lemma steady_await:
  assumes "steady env"
  shows "same_config s (snd (await_backend (env i) f s))" and "same_config s (snd (await_store (env i) g s))"
  using steady_config [OF assms] by (simp_all add: same_config_def await_backend_eq await_store_eq)

text \<open>Two store operations after an update of other fields: the shape of the small handlers.\<close>

lemma steady_writes:
  assumes "steady env" and "v_config t = v_config s"
  shows "same_config s (snd (hbind (await_store (env i) f) (\<lambda>_ s. await_store (env j) (g s) s) t))"
  using steady_config [OF assms(1)] assms(2)
  by (simp add: same_config_def snd_hbind await_store_eq split: sum.split)

lemma steady_small:
  assumes "steady env"
  shows "same_config s (snd (on_routed_traffic env uid now s))"
    and "same_config s (snd (note_service_ready env now s))"
    and "same_config s (snd (set_shutdown_override env b now s))"
    and "same_config s (snd (power_sync_tick ops env now s))"
    and "same_config s (snd (sync_state ops env now s))"
proof -
  show "same_config s (snd (on_routed_traffic env uid now s))"
    by (auto simp: on_routed_traffic_def Let_def intro!: steady_writes [OF assms])
  show "same_config s (snd (note_service_ready env now s))"
    by (auto simp: note_service_ready_def Let_def intro!: steady_writes [OF assms])
  show "same_config s (snd (set_shutdown_override env b now s))"
    using steady_config [OF assms] by (simp add: set_shutdown_override_def same_config_def await_store_eq Let_def)
  show "same_config s (snd (power_sync_tick ops env now s))"
    unfolding power_sync_tick_def
    by (rule conf.keeps_bind, rule steady_await [OF assms])
       (auto simp: Let_def intro!: steady_writes [OF assms])
  show "same_config s (snd (sync_state ops env now s))"
    unfolding sync_state_def Let_def
    by (rule conf.keeps_bind, rule steady_await [OF assms])
       (auto intro!: steady_writes [OF assms])
qed

lemma steady_shutdown_tick:
  assumes "steady env"
  shows "same_config s (snd (shutdown_tick prev ops env now clk s))"
proof -
  have can: "same_config s (snd (can_power_off ops env s))" for s
    unfolding can_power_off_def
    by (auto intro!: conf.keeps_bind steady_await [OF assms])
  have sched: "same_config s (snd (scheduled_off ops env now s))" for s
    unfolding scheduled_off_def
    by (rule conf.keeps_bind, rule can)
       (auto intro!: conf.keeps_then_return steady_power steady_later assms)
  have sched_then: "same_config s (snd (hbind (scheduled_off ops env now) (\<lambda>_. hmod g) s))"
    if "\<And>s. v_config (g s) = v_config s" for g s
    by (rule conf.keeps_bind, rule sched) (simp add: same_config_def that)
  have one: "same_config s (snd (schedule_off_tick prev ops env now s))" for s
    unfolding schedule_off_tick_def Let_def
    by (auto intro!: sched_then split: option.split)
  have off: "same_config s (snd ((if v_owned s then
      hbind (server_power_off ops (later 1 (later 4 env)) ''idle_timeout'' ''proxy'' clk) (\<lambda>_. hret ()) s
      else (Inr (), s))))" for s
    by (auto intro!: conf.keeps_then_return steady_power steady_later assms)
  have two: "same_config s (snd (idle_off_tick ops (later 4 env) clk s))" for s
    unfolding idle_off_tick_def
    by (auto intro!: conf.keeps_bind steady_await [OF steady_later [OF assms]] off)
  show ?thesis
    unfolding shutdown_tick_def by (rule conf.keeps_bind, rule one, rule two)
qed

section \<open>What a turn of an endpoint leaves of it\<close>

definition tame :: "'b surroundings \<Rightarrow> bool" where
  "tame W \<longleftrightarrow>
     (\<forall>n s. ep_config (w_env W n s) = ep_config s \<and> same_config (ep_server s) (ep_server (w_env W n s))) \<and>
     (\<forall>n. steady (w_server_env W n))"

interpretation framed: endpoint_loops W
  "\<lambda>s s'. tame W \<longrightarrow> ep_config s' = ep_config s \<and> same_config (ep_server s) (ep_server s')" for W :: "'b surroundings"
  by unfold_locales
     (auto simp: tame_def pass_def upd_queue_def steady_small steady_power same_config_def
        dest: steady_small(2) [unfolded same_config_def] steady_power(3) [unfolded same_config_def])

text \<open>A queue within its books, of the capacity its endpoint is configured with.\<close>

definition queue_fits :: "endpoint_config \<Rightarrow> equeue \<Rightarrow> bool" where
  "queue_fits c q \<longleftrightarrow> (\<exists>R ws. q_inv R ws q) \<and> q_max_spots q = max 1 (ec_concurrency c)"

lemma fresh_queue_fits: "queue_fits c (fresh_queue c)"
proof -
  have "q_inv {} (\<lambda>_. 0) (fresh_queue c)" unfolding fresh_queue_def by (rule init_queue_inv)
  then show ?thesis by (auto simp: queue_fits_def fresh_queue_def init_queue_def)
qed

lemma queue_fits_step:
  assumes "queue_fits c q" and "refines q q'"
  shows "queue_fits c q'"
proof -
  obtain R ws where "q_inv R ws q" using assms(1) by (auto simp: queue_fits_def)
  then have y: "qsys_inv \<lparr>y_queue = q, y_running = R, y_ws = ws\<rparr>" by (simp add: qsys_inv_def)
  obtain z where z: "qm.reach \<lparr>y_queue = q, y_running = R, y_ws = ws\<rparr> z" "y_queue z = q'"
    using assms(2) unfolding refines_def by (metis qsys.select_convs(1))
  then show ?thesis
    using qm.reach_inv [OF z(1) y] reach_config [OF z(1)] assms(1)
    by (auto simp: qsys_inv_def queue_fits_def q_config_def)
qed

text \<open>A turn that keeps an endpoint where it belongs, and its queue as \<open>fits\<close> wants it.\<close>

definition settled_turn :: "(endpoint_config \<Rightarrow> equeue \<Rightarrow> bool) \<Rightarrow> ('b, 'a) task \<Rightarrow> bool" where
  "settled_turn fits t \<longleftrightarrow> (\<forall>e. ep_config (snd (t e)) = ep_config e \<and> same_config (ep_server e) (ep_server (snd (t e))) \<and>
     (\<forall>c. fits c (ep_queue e) \<longrightarrow> fits c (ep_queue (snd (t e)))))"

definition manager_turn :: "'b surroundings \<Rightarrow> time \<Rightarrow> ('b, time) task" where
  "manager_turn W last_check e = (let (t, e') = manager_pass W last_check e in (Inr t, e'))"

definition readiness_turn :: "'b surroundings \<Rightarrow> ('b, unit) task" where
  "readiness_turn W e = (Inr (), readiness_pass W e)"

lemma turns_settled:
  assumes "tame W" and "by_machine W"
  shows "settled_turn queue_fits (manager_turn W last_check)" and "settled_turn queue_fits (readiness_turn W)"
    and "settled_turn queue_fits (check_readiness W)"
  using assms framed.keeps_manager_pass [of W] loops.keeps_manager_pass [of W]
    framed.keeps_readiness_pass [of W] loops.keeps_readiness_pass [of W]
    framed.keeps_check_readiness [of W] loops.keeps_check_readiness [of W]
  by (auto simp: settled_turn_def manager_turn_def readiness_turn_def split_beta intro: queue_fits_step)

section \<open>The invariant of the application\<close>

definition assembled :: "relay_config \<Rightarrow> 'b relay \<Rightarrow> bool" where
  "assembled config app \<longleftrightarrow> ra_config app = config \<and>
     map (\<lambda>(n, s). (n, v_config s)) (ra_servers app) = map (\<lambda>c. (vc_name c, c)) (rc_servers config) \<and>
     map (\<lambda>(n, e). (n, ep_config e)) (ra_endpoints app) = map (\<lambda>c. (ec_name c, c)) (rc_endpoints config)"

definition relay_inv :: "(endpoint_config \<Rightarrow> equeue \<Rightarrow> bool) \<Rightarrow> relay_config \<Rightarrow> 'b relay \<Rightarrow> bool" where
  "relay_inv fits config app \<longleftrightarrow> assembled config app \<and>
     (\<forall>(n, e) \<in> set (ra_endpoints app). fits (ep_config e) (ep_queue e))"

lemma map_put_same:
  "dict_get d n = Some x \<Longrightarrow> f y = f x \<Longrightarrow>
   map (\<lambda>(k, v). (k, f v)) (dict_put n y d) = map (\<lambda>(k, v). (k, f v)) d"
  by (induction d) (auto split: if_splits)

lemma set_put_subset: "set (dict_put n y d) \<subseteq> insert (n, y) (set d)"
  by (induction d) auto

section \<open>Upkeep: steps that run no request\<close>

text \<open>The loops of a server and of the store, traffic that tells a server of itself, the actions of the monitor.\<close>

inductive upkeep_step :: "'b power_ops \<Rightarrow> 'b relay \<Rightarrow> 'b relay \<Rightarrow> bool" for ops where
  shutdown_turn: "steady env \<Longrightarrow> upkeep_step ops app (snd (run_server name (shutdown_tick prev ops env now clk) app))"
| sync_turn: "steady env \<Longrightarrow> upkeep_step ops app (snd (run_server name (power_sync_tick ops env now) app))"
| traffic: "(\<And>n. steady (envs n)) \<Longrightarrow> upkeep_step ops app (snd (traffic envs uid now name app))"
| release: "upkeep_step ops app (snd (monitor_release fl now body app))"
| override: "(\<And>n. steady (envs n)) \<Longrightarrow> upkeep_step ops app (snd (monitor_shutdown fl envs now body app))"
| power: "(\<And>n. steady (envs n)) \<Longrightarrow> upkeep_step ops app (snd (monitor_power fl ops envs uid now body app))"
| timeout: "upkeep_step ops app (snd (monitor_timeout body app))"
| flush: "upkeep_step ops app (app\<lparr>ra_store := snd (flush_requests (ra_store app))\<rparr>)"
| retention: "upkeep_step ops app (app\<lparr>ra_store := snd (prune days now (ra_store app))\<rparr>)"

section \<open>What steps keep of the application\<close>

text \<open>A condition on the queues that a manual release keeps; the rest of upkeep touches no queue.\<close>

locale queue_books =
  fixes fits :: "endpoint_config \<Rightarrow> equeue \<Rightarrow> bool"
  assumes released: "fits c q \<Longrightarrow> fits c (snd (release_session now client session_id q))"
begin

lemma save_server_inv:
  assumes "relay_inv fits config app" and "dict_get (ra_servers app) name = Some srv" and "same_config srv srv'"
  shows "relay_inv fits config (save_server name srv' app)"
  using assms map_put_same [of "ra_servers app" name srv v_config srv']
  by (simp add: relay_inv_def assembled_def save_server_def same_config_def)

lemma run_server_inv:
  assumes inv: "relay_inv fits config app" and h: "\<And>s. same_config s (snd (h s))"
  shows "relay_inv fits config (snd (run_server name h app))"
proof (cases "dict_get (ra_servers app) name")
  case (Some srv)
  have "same_config srv (snd (h (load_server app srv)))"
    using h [of "load_server app srv"] by (simp add: same_config_def load_server_def)
  then show ?thesis
    using save_server_inv [OF inv Some] by (simp add: run_server_def Some split_beta Let_def)
qed (simp add: run_server_def inv)

lemma put_endpoint_inv:
  assumes inv: "relay_inv fits config app" and e: "dict_get (ra_endpoints app) name = Some e"
    and "ep_config e' = ep_config e" and "fits (ep_config e) (ep_queue e')"
  shows "relay_inv fits config (app\<lparr>ra_endpoints := dict_put name e' (ra_endpoints app)\<rparr>)"
  using inv map_put_same [OF e, of ep_config e'] assms(3,4) set_put_subset [of name e' "ra_endpoints app"]
  by (auto simp: relay_inv_def assembled_def dest!: subsetD)

lemma endpoint_fits:
  "relay_inv fits config app \<Longrightarrow> dict_get (ra_endpoints app) name = Some e \<Longrightarrow> fits (ep_config e) (ep_queue e)"
  by (auto simp: relay_inv_def dest: map_of_SomeD)

lemma run_endpoint_inv:
  assumes inv: "relay_inv fits config app" and t: "settled_turn fits t"
  shows "relay_inv fits config (snd (run_endpoint name t app))"
proof (cases "dict_get (ra_endpoints app) name")
  case (Some e)
  show ?thesis
  proof (cases "dict_get (ra_servers app) (ec_server (ep_config e))")
    case srv: (Some srv)
    let ?e = "load_endpoint app srv e" and ?e' = "snd (t (load_endpoint app srv e))"
    have e': "ep_config ?e' = ep_config e" "same_config srv (ep_server ?e')"
      "fits (ep_config e) (ep_queue ?e')"
      using t endpoint_fits [OF inv Some]
      by (auto simp: settled_turn_def load_endpoint_def load_server_def same_config_def)
    from put_endpoint_inv [OF inv Some e'(1,3)]
    have "relay_inv fits config (app\<lparr>ra_endpoints := dict_put name ?e' (ra_endpoints app),
        ra_pollers := ep_pollers ?e', ra_tracker := ep_tracker ?e'\<rparr>)"
      by (simp add: relay_inv_def assembled_def)
    from save_server_inv [OF this, of _ srv, OF _ e'(2)] show ?thesis
      using srv by (simp add: run_endpoint_def Some split_beta Let_def save_endpoint_def e'(1))
  qed (simp add: run_endpoint_def Some inv)
qed (simp add: run_endpoint_def inv)

lemma release_on_inv:
  assumes "\<forall>(n, e) \<in> set es. fits (ep_config e) (ep_queue e)"
  shows "map (\<lambda>(n, e). (n, ep_config e)) (snd (release_on now client session_id es)) =
      map (\<lambda>(n, e). (n, ep_config e)) es \<and>
    (\<forall>(n, e) \<in> set (snd (release_on now client session_id es)). fits (ep_config e) (ep_queue e))"
  using assms
proof (induction es)
  case (Cons ne es)
  obtain n e where ne: "ne = (n, e)" by (cases ne)
  have "fits (ep_config e) (snd (release_session now client session_id (ep_queue e)))"
    using Cons.prems ne by (auto intro: released)
  then show ?case
    using Cons ne by (auto simp: split_beta Let_def)
qed simp

lemma relay_inv_store [simp]: "relay_inv fits config (app\<lparr>ra_store := st\<rparr>) = relay_inv fits config app"
  by (simp add: relay_inv_def assembled_def)

lemma run_server_then_inv:
  assumes "relay_inv fits config app" and "\<And>s. same_config s (snd (h s))"
  shows "relay_inv fits config (snd (hbind (run_server name h) (\<lambda>x. hret (f x)) app))"
  using run_server_inv [OF assms] by (simp add: snd_hbind split: sum.split)

lemma timeout_inv: "relay_inv fits config app \<Longrightarrow> relay_inv fits config (set_read_timeout n app)"
  by (simp add: relay_inv_def assembled_def set_read_timeout_def case_prod_unfold comp_def)

lemma traffic_inv:
  "(\<And>n. steady (envs n)) \<Longrightarrow> relay_inv fits config app \<Longrightarrow> relay_inv fits config (snd (traffic envs uid now name app))"
  by (auto simp: traffic_def Let_def intro!: run_server_inv steady_small split: option.split)

lemma upkeep_inv:
  assumes "upkeep_step ops app app'" and "relay_inv fits config app"
  shows "relay_inv fits config app'"
  using assms
proof (induction rule: upkeep_step.induct)
  case (shutdown_turn env app name prev now clk)
  then show ?case by (intro run_server_inv steady_shutdown_tick)
next
  case (sync_turn env app name now)
  then show ?case by (intro run_server_inv steady_small)
next
  case (traffic envs app uid now name)
  then show ?case by (intro traffic_inv)
next
  case (release app fl now body)
  then show ?case
    using release_on_inv [of "ra_endpoints app"]
    by (auto simp: monitor_release_def Let_def split_beta relay_inv_def assembled_def split: option.split pyval.split)
next
  case (override envs app fl now body)
  then show ?case
    by (auto simp: monitor_shutdown_def intro!: run_server_then_inv steady_small split: option.split pyval.split sum.split)
next
  case (power envs app fl uid now body)
  then show ?case
    by (auto simp: monitor_power_def Let_def intro!: run_server_then_inv steady_power
        split: option.split pyval.split sum.split)
next
  case (timeout app body)
  then show ?case
    by (auto simp: monitor_timeout_def Let_def timeout_inv split: option.split pyval.split)
qed simp_all


lemma each_inv:
  assumes "\<And>x app. relay_inv fits config app \<Longrightarrow> relay_inv fits config (snd (f x app))" and "relay_inv fits config app"
  shows "relay_inv fits config (snd (each f xs app))"
  using assms(2) by (induction xs arbitrary: app) (auto simp: snd_hbind assms(1) hret_def split: sum.split)

lemma bind_inv:
  assumes "relay_inv fits config (snd (m app))"
    and "\<And>x app. relay_inv fits config app \<Longrightarrow> relay_inv fits config (snd (k x app))"
  shows "relay_inv fits config (snd (hbind m k app))"
  using assms by (simp add: snd_hbind split: sum.split)

lemma settled_then_return: "settled_turn fits t \<Longrightarrow> settled_turn fits (hbind t (\<lambda>_. hret x))"
  by (simp add: settled_turn_def snd_hbind hret_def split: sum.split)

lemma map_option_result: "map_option f x = Some (r, a) \<Longrightarrow> (\<And>y. P (snd (f y))) \<Longrightarrow> P a"
  by (cases x) (auto, metis snd_conv)

lemma startup_inv:
  fixes app :: "'b relay"
  assumes "startup ops attempts ws envs now clk app = Some (r, app')" and "relay_inv fits config app"
    and "\<And>n. settled_turn fits (check_readiness (ws n))" and "\<And>n. steady (envs n)"
  shows "relay_inv fits config app'"
proof -
  have "same_config s (snd (hmod (restore_row row) s))" for row and s :: "'b server"
    by (simp add: restore_row_def same_config_def Let_def split: option.split)
  then have row: "relay_inv fits config (snd (restore_server rows name a))" if "relay_inv fits config a" for rows name and a :: "'b relay"
    using that by (auto simp: restore_server_def intro!: run_server_inv split: option.split)
  have check: "relay_inv fits config (snd (run_endpoint name (hbind (check_readiness (ws name)) (\<lambda>_. hret ())) a))"
    if "relay_inv fits config a" for name a
    using that assms(3) by (intro run_endpoint_inv settled_then_return) simp_all
  have sync: "relay_inv fits config (snd (run_server name (sync_state ops (envs name) clk) a))" if "relay_inv fits config a" for name a
    using that assms(4) by (intro run_server_inv steady_small) simp_all
  show ?thesis
  proof (rule map_option_result [OF assms(1) [unfolded startup_def]])
    show "relay_inv fits config (snd (hbind (\<lambda>app. let (r, st) = reconcile_servers (map vc_name (rc_servers (ra_config app))) now
        (ra_store app) in (r, app\<lparr>ra_store := st\<rparr>)) (\<lambda>rows.
        hbind (\<lambda>app. each (restore_server rows) (dict_keys (ra_servers app)) app) (\<lambda>_.
        hbind (\<lambda>app. each (\<lambda>name. run_endpoint name (hbind (check_readiness (ws name)) (\<lambda>_. hret ())))
          (dict_keys (ra_endpoints app)) app) (\<lambda>_ app.
        each (\<lambda>name. run_server name (sync_state ops (envs name) clk)) (dict_keys (ra_servers app)) app)))
        (app\<lparr>ra_store := st\<rparr>)))" for st
      by (intro bind_inv each_inv row check sync) (simp_all add: split_beta Let_def assms(2))
  qed
qed

end

interpretation books: queue_books queue_fits
proof unfold_locales
  fix c q now client session_id
  assume "queue_fits c q"
  then show "queue_fits c (snd (release_session now client session_id q))"
    by (rule queue_fits_step) (simp add: refines_step [of _ "ManualRelease client session_id now"] advance_def)
qed

section \<open>The steps of a running application\<close>

text \<open>
  A step is atomic in the application and open in its surroundings: a turn of a loop meets
  arbitrary interference at its awaits (\<open>tame\<close>, \<open>by_machine\<close>, \<open>steady\<close>), which is how the turns of
  the other tasks appear to it. What runs on a queue at a step (\<open>R\<close>, \<open>ws\<close>) is any book that its
  invariant allows. An arrival is one event: identification and enqueueing with no await between
  them (\<open>admission_race_leaks\<close> shows what happens otherwise).
\<close>

inductive relay_step :: "'b power_ops \<Rightarrow> 'b relay \<Rightarrow> 'b relay \<Rightarrow> bool" for ops where
  upkeep: "upkeep_step ops app app' \<Longrightarrow> relay_step ops app app'"
| manager: "tame W \<Longrightarrow> by_machine W \<Longrightarrow>
    relay_step ops app (snd (run_endpoint name (manager_turn W last_check) app))"
| readiness: "tame W \<Longrightarrow> by_machine W \<Longrightarrow> relay_step ops app (snd (run_endpoint name (readiness_turn W) app))"
| queue_event: "dict_get (ra_endpoints app) name = Some e \<Longrightarrow>
    qsys_inv \<lparr>y_queue = ep_queue e, y_running = R, y_ws = ws\<rparr> \<Longrightarrow>
    qsys_guard ev \<lparr>y_queue = ep_queue e, y_running = R, y_ws = ws\<rparr> \<Longrightarrow>
    q' = y_queue (qsys_step ev \<lparr>y_queue = ep_queue e, y_running = R, y_ws = ws\<rparr>) \<Longrightarrow>
    relay_step ops app (app\<lparr>ra_endpoints := dict_put name (e\<lparr>ep_queue := q'\<rparr>) (ra_endpoints app)\<rparr>)"
| ws_open: "dict_get (ra_endpoints app) name = Some e \<Longrightarrow> q_inv R ws (ep_queue e) \<Longrightarrow> tracked (ep_queue e) r \<Longrightarrow>
    ws_take_spot now r (ep_queue e) = Some q' \<Longrightarrow>
    relay_step ops app (app\<lparr>ra_endpoints := dict_put name (e\<lparr>ep_queue := q'\<rparr>) (ra_endpoints app)\<rparr>)"
| ws_close: "dict_get (ra_endpoints app) name = Some e \<Longrightarrow> q_inv R ws (ep_queue e) \<Longrightarrow> 0 < ws r \<Longrightarrow>
    relay_step ops app (app\<lparr>ra_endpoints :=
      dict_put name (e\<lparr>ep_queue := release_ws_spot now r (ep_queue e)\<rparr>) (ra_endpoints app)\<rparr>)"

lemma ws_release_config: "q_max_spots (release_ws_spot now r q) = q_max_spots q"
  by (simp add: release_ws_spot_def Let_def)

lemma ws_take_config: "ws_take_spot now r q = Some q' \<Longrightarrow> q_max_spots q' = q_max_spots q"
  by (auto simp: ws_take_spot_def Let_def split: if_splits)

lemma relay_step_inv:
  assumes "relay_step ops app app'" and "relay_inv queue_fits config app"
  shows "relay_inv queue_fits config app'"
  using assms
proof (induction rule: relay_step.induct)
  case (upkeep app app')
  then show ?case by (rule books.upkeep_inv)
next
  case (manager W app name last_check)
  then show ?case by (intro books.run_endpoint_inv turns_settled)
next
  case (readiness W app name)
  then show ?case by (intro books.run_endpoint_inv turns_settled)
next
  case (queue_event app name e R ws ev q')
  let ?y = "\<lparr>y_queue = ep_queue e, y_running = R, y_ws = ws\<rparr>"
  have "qm.reach ?y (qsys_step ev ?y)" using queue_event.hyps by (blast intro: qm.reach_step qm.reach_refl)
  then have "queue_fits (ep_config e) q'"
    using qm.reach_inv [of ?y] reach_config [of ?y] queue_event.hyps books.endpoint_fits [OF queue_event.prems queue_event.hyps(1)]
    by (force simp: qsys_inv_def queue_fits_def q_config_def)
  then show ?case using queue_event by (intro books.put_endpoint_inv) simp_all
next
  case (ws_open app name e R ws r now q')
  then have "queue_fits (ep_config e) q'"
    using ws_take_inv [OF ws_open.hyps(2-4)] books.endpoint_fits [OF ws_open.prems ws_open.hyps(1)]
    by (auto simp: queue_fits_def ws_take_config)
  then show ?case using ws_open by (intro books.put_endpoint_inv) simp_all
next
  case (ws_close app name e R ws r now)
  then have "queue_fits (ep_config e) (release_ws_spot now r (ep_queue e))"
    using ws_release_inv [OF ws_close.hyps(2,3), of now] books.endpoint_fits [OF ws_close.prems ws_close.hyps(1)]
    by (auto simp: queue_fits_def ws_release_config)
  then show ?case using ws_close by (intro books.put_endpoint_inv) simp_all
qed

lemma relay_steps_inv: "(relay_step ops)\<^sup>*\<^sup>* app app' \<Longrightarrow> relay_inv queue_fits config app \<Longrightarrow> relay_inv queue_fits config app'"
  by (induction rule: rtranclp_induct) (auto intro: relay_step_inv)

section \<open>From the configuration to every later state\<close>

lemma assembled_keys:
  assumes "assembled config app"
  shows "dict_keys (ra_servers app) = map vc_name (rc_servers config)"
    and "dict_keys (ra_endpoints app) = map ec_name (rc_endpoints config)"
proof -
  have "map fst (map (\<lambda>(n, s). (n, v_config s)) (ra_servers app)) = map fst (map (\<lambda>c. (vc_name c, c)) (rc_servers config))"
    "map fst (map (\<lambda>(n, e). (n, ep_config e)) (ra_endpoints app)) = map fst (map (\<lambda>c. (ec_name c, c)) (rc_endpoints config))"
    using assms by (simp_all add: assembled_def)
  then show "dict_keys (ra_servers app) = map vc_name (rc_servers config)"
    and "dict_keys (ra_endpoints app) = map ec_name (rc_endpoints config)"
    by (simp_all add: comp_def case_prod_unfold)
qed

lemma assembled_inv:
  assumes "valid_config fs cron config" and "new_relay world st born config = Inr app0"
    and "setup_app True app0 = (Inr (), app1)" and "\<And>c. fits c (fresh_queue c)"
  shows "relay_inv fits config app1"
proof -
  have "list_all (\<lambda>c. valid_power (vc_type c) (vc_power c)) (rc_servers config)"
    using assms(1) by (auto simp: valid_config_def valid_server_def list_all_iff)
  from make_servers_unsupported [OF this, of world st born "[]"] assms(2)
  have "list_all supported (rc_servers config)" unfolding new_relay_def by fastforce
  from valid_app [OF assms(1) this, of world st born] assms(2-4) show ?thesis
    by (auto simp: relay_inv_def assembled_def)
qed

lemma capacity_total:
  assumes "assembled config app" and "\<forall>(n, e) \<in> set (ra_endpoints app). queue_fits (ep_config e) (ep_queue e)"
  shows "sum_list (map (\<lambda>(n, e). q_max_spots (ep_queue e)) (ra_endpoints app)) =
    sum_list (map (\<lambda>c. max 1 (ec_concurrency c)) (rc_endpoints config))"
proof -
  have "map (\<lambda>(n, e). q_max_spots (ep_queue e)) (ra_endpoints app) =
      map (\<lambda>(n, c). max 1 (ec_concurrency c)) (map (\<lambda>(n, e). (n, ep_config e)) (ra_endpoints app))"
    using assms(2) by (auto simp: queue_fits_def)
  also have "\<dots> = map (\<lambda>c. max 1 (ec_concurrency c)) (rc_endpoints config)"
    using assms(1) by (simp add: assembled_def comp_def)
  finally show ?thesis by simp
qed


section \<open>Witness\<close>

text \<open>The demonstration configuration, started over BMCs that do not answer; other tasks tick the queue at each await.\<close>

definition relay_world :: "backend surroundings" where
  "relay_world =
     \<lparr>w_env = (\<lambda>n s. upd_queue (\<lambda>q. snd (tick 70 70 q)) s), w_server_env = (\<lambda>_. still), w_ops = backend_ops,
      w_probe = (\<lambda>_ _. HttpAnswer 200 None), w_ask = (\<lambda>_ _. HttpFailed), w_clock = (\<lambda>_. 70),
      w_wall = (\<lambda>_. 1000), w_uid = (\<lambda>_. ''cycle''), w_float_text = (\<lambda>_. []), w_loads = (\<lambda>_. None)\<rparr>"

lemma relay_world_ok: "tame relay_world \<and> by_machine relay_world \<and> steady (still :: backend interference)"
  by (auto simp: tame_def by_machine_def relay_world_def steady_def same_config_def still_def upd_queue_def
      advance_def intro!: refines_step [of _ "Tick 70 70"])

definition silent_bmc :: "server_config \<Rightarrow> bmc_world" where
  "silent_bmc c = \<lparr>bw_answer = \<lambda>_. BmcTransportError, bw_calls = []\<rparr>"

definition demo_started :: "backend relay option" where
  "demo_started =
     (case new_relay silent_bmc demo_store 0 demo_relay of
        Inl x \<Rightarrow> None
      | Inr app0 \<Rightarrow>
          (case setup_app True app0 of
             (Inl x, _) \<Rightarrow> None
           | (Inr _, app1) \<Rightarrow> map_option snd (startup backend_ops [True] (\<lambda>_. relay_world) (\<lambda>_. still) 5 5 app1)))"

lemma demo_started_parts:
  assumes "demo_started = Some app2"
  obtains app0 app1 r where "new_relay silent_bmc demo_store 0 demo_relay = Inr app0"
    and "setup_app True app0 = (Inr (), app1)"
    and "startup backend_ops [True] (\<lambda>_. relay_world) (\<lambda>_. still) 5 5 app1 = Some (r, app2)"
  using assms by (auto simp: demo_started_def split: sum.splits prod.splits)

definition demo_turned :: "backend relay \<Rightarrow> backend relay" where
  "demo_turned app = snd (run_endpoint ''chat'' (manager_turn relay_world 0) app)"

lemma demo_monitored:
  "case demo_started of
     None \<Rightarrow> False
   | Some app \<Rightarrow> (case build_data (\<lambda>_ t. Inr t) (\<lambda>_. []) 0 70 (demo_turned app) of Inl x \<Rightarrow> False | Inr data \<Rightarrow> True)"
  by code_simp


end
