(* ===== verification/Relay_Requests.thy ===== *)
theory Relay_Requests
  imports Relay_Run
begin

text \<open>
  The handlers of requests and WebSockets as turns of the application, from admission to the end of
  the forward, with arbitrary interference at every await - also between the identification of a
  session and its enqueueing. What survives every interleaving: the configuration, and that no
  endpoint gives more spots than its capacity.
\<close>

section \<open>What the handlers keep\<close>

text \<open>A handler keeps what the loops keep when the operations of the queue it calls do.\<close>

locale endpoint_handlers = endpoint_loops W P
  for W :: "'b surroundings" and P :: "'b endpoint \<Rightarrow> 'b endpoint \<Rightarrow> bool" +
  assumes counts: "P s (s\<lparr>ep_active_forwards := n\<rparr>)"
    and identifies: "P s (upd_queue (\<lambda>q. snd (get_or_create_session client session_id api ip ua now q)) s)"
    and enters: "P s (upd_queue (\<lambda>q. enqueue now (fst (alloc_entry r path body now q)) (snd (alloc_entry r path body now q))) s)"
    and releases: "P s (upd_queue (release now e) s)"
    and abandons: "P s (upd_queue (abandon e) s)"
    and takes_ws: "ws_take_spot now r (ep_queue s) = Some q \<Longrightarrow> P s (s\<lparr>ep_queue := q\<rparr>)"
    and releases_ws: "P s (upd_queue (release_ws_spot now r) s)"
begin

lemma keeps_stage: "P s (stage_record rec s)"
  unfolding stage_record_def by (rule stored)

lemma keeps_callbacks:
  assumes "\<And>code s. P s (rel code s)"
  shows "P s (fold (run_callback rel mk) cs s)"
proof (induction cs arbitrary: s)
  case (Cons c cs)
  have "P s (run_callback rel mk c s)" by (simp add: run_callback_def assms keeps_stage split: callback.split)
  then show ?case using trans [OF _ Cons.IH] by simp
qed (simp add: refl)

lemma keeps_forward:
  assumes "\<And>code s. P s (rel code s)"
  shows "P s (snd (forward W outcome driven body rel mk s))"
  unfolding forward_def
  by (rule keeps_bind, rule keeps_pause, rule keeps_bind, rule keeps_pause)
     (simp add: refl keeps_callbacks [OF assms] split: option.split)

lemma keeps_gate: "P s (snd (readiness_gate W s))"
  by (simp add: readiness_gate_def refl keeps_then_return keeps_check_readiness)

lemma keeps_ensure: "P s (snd (ensure_wake W s))"
  by (simp add: ensure_wake_def refl keeps_wake)

lemma keeps_wait_ready: "P s (snd (wait_ready_loop W deadline polls s))"
proof (induction polls arbitrary: s)
  case (Cons gone polls)
  have "P s (snd (hbind (pause W) (\<lambda>_. wait_ready_loop W deadline polls) s))" for s
    by (rule keeps_bind, rule keeps_pause, rule Cons.IH)
  then have "P s (snd (hbind (ensure_wake W) (\<lambda>_. hbind (pause W) (\<lambda>_ s.
      if gone then (Inr (Some WDisconnected), s)
      else if past_deadline deadline (clock W s) then (Inr (Some WTimedOut), s)
      else hbind (pause W) (\<lambda>_. wait_ready_loop W deadline polls) s)) s))"
    by (intro keeps_bind keeps_ensure keeps_pause) (simp add: refl)
  then show ?case by (simp add: refl)
qed (simp add: refl)

lemma keeps_wait_ws: "P s (snd (wait_ws_ready W deadline polls s))"
proof (induction polls arbitrary: s)
  case (Cons gone polls)
  have "P s (snd (hbind (pause W) (\<lambda>_. wait_ws_ready W deadline polls) s))"
    by (rule keeps_bind, rule keeps_pause, rule Cons.IH)
  then show ?case by (simp add: refl)
qed (simp add: refl)

lemma keeps_hold_ws: "P s (snd (hold_ws_spot W r deadline polls s))"
proof (induction polls arbitrary: s)
  case (Cons gone polls)
  have "P s (snd (hbind (pause W) (\<lambda>_. hold_ws_spot W r deadline polls) s))"
    by (rule keeps_bind, rule keeps_pause, rule Cons.IH)
  then show ?case by (simp add: refl takes_ws split: option.split)
qed (simp add: refl takes_ws split: option.split)

lemma keeps_unqueued: "P s (snd (forward_unqueued W request outcome driven s))"
proof -
  have "P t (finish_forward code t)" for code t by (simp add: finish_forward_def counts)
  then show ?thesis
    unfolding forward_unqueued_def Let_def split_beta by (rule trans [OF counts keeps_forward])
qed

lemma keeps_admit_unqueued: "P s (snd (admit_unqueued W request polls outcome driven s))"
  unfolding admit_unqueued_def wait_until_ready_def
  by (rule keeps_bind, rule keeps_gate)
     (auto simp: refl keeps_unqueued intro!: keeps_bind keeps_wait_ready split: option.split)

lemma keeps_settle: "P s (settle W e s)"
  by (simp add: settle_def releases abandons)

lemma keeps_enter: "P s (snd (enter_queue W r path body s))"
  using enters [where s = s and now = "clock W s" and r = r and path = path and body = body]
  by (simp add: enter_queue_def Let_def split_beta upd_queue_def)

lemma keeps_serve_entry: "P s (snd (serve_entry W request ident polls outcome driven e s))"
  unfolding serve_entry_def Let_def
  by (rule keeps_bind, rule keeps_hold_loop)
     (auto simp: refl keeps_settle releases intro!: keeps_forward split: option.split)

lemma keeps_admit_queued: "P s (snd (admit_queued W request full_path polls outcome driven s))"
proof -
  have identified: "P t (t\<lparr>ep_queue := snd (get_or_create_session c i api ip ua now (ep_queue t))\<rparr>)" for t c i api ip ua now
    using identifies [of t c i api ip ua now] by (simp add: upd_queue_def)
  have "P t (snd (hbind (on_store W f) (\<lambda>_. hbind (enter_queue W r p b) (\<lambda>e.
      serve_entry W request ident polls outcome driven e)) t))" for t r p b ident and f :: "store \<Rightarrow> unit res \<times> store"
    by (intro keeps_bind keeps_on_store stored keeps_enter keeps_serve_entry)
  note entered = trans [OF identified this]
  show ?thesis
    unfolding admit_queued_def
    by (intro keeps_bind keeps_gate) (auto simp: refl Let_def split_beta intro!: keeps_bind keeps_ensure entered)
qed

lemma keeps_admit: "P s (snd (admit W readable request full_path polls outcome driven s))"
  unfolding admit_def
  by (rule keeps_bind, rule keeps_pause) (simp add: refl keeps_admit_queued keeps_admit_unqueued)

lemma keeps_catch_all: "P s (snd (admit_catch_all W readable request polls outcome driven s))"
  unfolding admit_catch_all_def
  by (rule keeps_bind, rule keeps_pause) (simp add: refl keeps_admit_unqueued)

lemma keeps_run_ws: "P s (snd (run_ws W ws ident passthrough polls carried s))"
proof -
  have queued: "P t (snd (hbind (hold_ws_spot W r deadline polls) (\<lambda>held. case held of
        None \<Rightarrow> hret WsHolding | Some False \<Rightarrow> hret WsRejected
      | Some True \<Rightarrow> hbind (pause W) (\<lambda>_. hbind (hmod (\<lambda>s. upd_queue (release_ws_spot (clock W s) r) s)) (\<lambda>_.
          hret (WsTunnelled carried)))) t))" for t r deadline
    by (rule keeps_bind, rule keeps_hold_ws)
       (auto simp: refl releases_ws simp del: hbind_hmod split: option.split bool.split
         intro!: keeps_bind keeps_pause keeps_hmod)
  have identified: "P s (s\<lparr>ep_queue := snd (get_or_create_session c i api ip ua now (ep_queue s))\<rparr>)" for c i api ip ua now
    using identifies [of s c i api ip ua now] by (simp add: upd_queue_def)
  have passed: "P s (snd (hbind (hmod (\<lambda>s. s\<lparr>ep_active_forwards := ep_active_forwards s + 1\<rparr>)) (\<lambda>_.
      hbind (pause W) (\<lambda>_. hbind (hmod (finish_forward None)) (\<lambda>_. hret (WsTunnelled carried)))) s))"
    by (auto simp: refl counts finish_forward_def simp del: hbind_hmod intro!: keeps_bind keeps_pause keeps_hmod)
  show ?thesis
    using passed trans [OF identified queued] by (simp add: run_ws_def Let_def split_beta)
qed

lemma keeps_admit_ws: "P s (snd (admit_ws W ws passthrough ready_polls spot_polls carried s))"
  unfolding admit_ws_def Let_def
  by (rule keeps_bind, rule keeps_pause, rule keeps_bind, rule keeps_gate)
     (auto simp: refl keeps_run_ws intro!: keeps_bind keeps_wait_ws split: option.split)

end


section \<open>The capacity survives every interleaving\<close>

text \<open>The capacity stays, and whoever was within it stays within it - with no other assumption on the queue.\<close>

definition room :: "equeue \<Rightarrow> bool" where
  "room q \<longleftrightarrow> int (length (q_spots q)) \<le> q_max_spots q"

definition keeps_room :: "equeue \<Rightarrow> equeue \<Rightarrow> bool" where
  "keeps_room q q' \<longleftrightarrow> q_max_spots q' = q_max_spots q \<and> (room q \<longrightarrow> room q')"

lemma room_refl [simp]: "keeps_room q q"
  by (simp add: keeps_room_def)

lemma room_trans: "keeps_room q r \<Longrightarrow> keeps_room r s \<Longrightarrow> keeps_room q s"
  by (simp add: keeps_room_def)

lemma room_same: "q_spots q' = q_spots q \<Longrightarrow> q_max_spots q' = q_max_spots q \<Longrightarrow> keeps_room q q'"
  by (simp add: keeps_room_def room_def)

lemma room_pop: "q_spots q' = dict_pop k (q_spots q) \<Longrightarrow> q_max_spots q' = q_max_spots q \<Longrightarrow> keeps_room q q'"
  using length_dict_pop_le [of k "q_spots q"] by (simp add: keeps_room_def room_def)

lemma room_promote: "eligible q e \<Longrightarrow> keeps_room q (promote now e q)"
  by (auto simp: keeps_room_def room_def promote_spots eligible_def Let_def length_dict_put split: if_splits)

lemma room_promote_loop: "keeps_room q (promote_loop now q)"
proof (induction now q rule: promote_loop.induct)
  case (1 now q)
  show ?case
  proof (cases "List.find (eligible q) (q_queue q)")
    case None
    then show ?thesis by (simp add: promote_loop.simps)
  next
    case (Some e)
    then show ?thesis
      using room_trans [OF room_promote 1 [OF Some]] find_SomeD [OF Some] by (simp add: promote_loop.simps [of now q])
  qed
qed

lemma room_try_promote: "keeps_room q (try_promote now q)"
  by (simp add: try_promote_def room_promote_loop)

lemma room_then_promote: "keeps_room q p \<Longrightarrow> keeps_room q (try_promote now p)"
  by (rule room_trans, assumption, rule room_try_promote)

lemma room_release_spot: "keeps_room q (release_spot now r k q)"
  unfolding release_spot_def Let_def
  by (intro room_then_promote room_pop [of _ k]) simp_all

lemma room_tick: "keeps_room q (snd (tick now clk q))"
proof -
  have status: "keeps_room q (tick_status now r q)" for q r
    by (rule room_same) (simp_all add: tick_status_def split: prod.split)
  have gone: "keeps_room p ((tick_status now r p)\<lparr>q_sessions := d\<rparr>)" for p r d
    by (rule room_trans [OF status room_same]) simp_all
  have one: "keeps_room p (fst (tick_one now clk kr (p, rel)))" for p kr rel
    by (cases kr) (simp add: tick_one_fst Let_def status gone room_trans [OF status room_release_spot])
  have "keeps_room p (fst (fold (tick_one now clk) items (p, rel)))" for items p rel
  proof (induction items arbitrary: p rel)
    case (Cons kr items)
    obtain p' rel' where step: "tick_one now clk kr (p, rel) = (p', rel')" by fastforce
    show ?case using room_trans [OF _ Cons.IH [of p' rel']] one [of p kr rel] by (simp add: step)
  qed simp
  then show ?thesis by (simp add: tick_def split_beta)
qed

lemma room_operations:
  "keeps_room q (upd_sess r f q)"
  "keeps_room q (snd (get_or_create_session client session_id api ip ua now q))"
  "keeps_room q (enqueue now (fst (alloc_entry r path body now q)) (snd (alloc_entry r path body now q)))"
  "keeps_room q (release now e q)" "keeps_room q (abandon e q)"
  "ws_take_spot now r q = Some q' \<Longrightarrow> keeps_room q q'" "keeps_room q (release_ws_spot now r q)"
  "keeps_room q (snd (release_session now client session_id q))"
proof -
  show "keeps_room q (upd_sess r f q)" by (rule room_same) simp_all
  show "keeps_room q (snd (get_or_create_session client session_id api ip ua now q))"
    by (rule room_same) (simp_all add: get_or_create_session_def Let_def split: option.split)
  show "keeps_room q (enqueue now (fst (alloc_entry r path body now q)) (snd (alloc_entry r path body now q)))"
    unfolding enqueue_def Let_def by (intro room_then_promote room_same) (simp_all add: alloc_entry_def Let_def)
  show "keeps_room q (release now e q)"
    unfolding release_def Let_def by (intro room_then_promote room_same) simp_all
  show "keeps_room q (abandon e q)"
    by (rule room_same) (simp_all add: abandon_def remove_waiting_def)
  show "ws_take_spot now r q = Some q' \<Longrightarrow> keeps_room q q'"
    by (auto simp: ws_take_spot_def Let_def keeps_room_def room_def length_dict_put dict_has_def split: if_splits)
  show "keeps_room q (release_ws_spot now r q)"
    unfolding release_ws_spot_def Let_def
    by (simp add: room_same, intro impI conjI room_then_promote; rule room_pop [of _ "s_key (sess q r)"]; simp)
  show "keeps_room q (snd (release_session now client session_id q))"
    by (simp add: release_session_def Let_def room_release_spot split: option.split)
qed

text \<open>Surroundings that respect the configuration and the capacity; nothing more is asked of them.\<close>

definition civil :: "'b surroundings \<Rightarrow> bool" where
  "civil W \<longleftrightarrow> tame W \<and> (\<forall>n s. keeps_room (ep_queue s) (ep_queue (w_env W n s)))"

lemma civil_pass: "civil W \<Longrightarrow> keeps_room (ep_queue s) (ep_queue (pass W s))"
  unfolding civil_def pass_queue
  by (drule conjunct2, drule spec, drule spec [of _ "s\<lparr>ep_awaits := Suc (ep_awaits s)\<rparr>"]) simp

interpretation roomy: endpoint_handlers W "\<lambda>s s'. civil W \<longrightarrow> keeps_room (ep_queue s) (ep_queue s')" for W :: "'b surroundings"
  by unfold_locales
     (auto simp: civil_pass room_tick room_try_promote room_operations intro: room_trans room_same)

interpretation settled: endpoint_handlers W
  "\<lambda>s s'. tame W \<longrightarrow> ep_config s' = ep_config s \<and> same_config (ep_server s) (ep_server s')" for W :: "'b surroundings"
  by unfold_locales (simp_all add: upd_queue_def)


section \<open>The application serving requests\<close>

definition roomy_queue :: "endpoint_config \<Rightarrow> equeue \<Rightarrow> bool" where
  "roomy_queue c q \<longleftrightarrow> q_max_spots q = max 1 (ec_concurrency c) \<and> room q"

text \<open>
  A step of the application that serves: upkeep, a turn of a loop, a request from its route to the
  end of its response, a WebSocket from its route to its close. A handler is one step here; what other
  tasks do to its endpoint, its server and the store between its awaits is its surroundings, which
  are \<open>polite\<close>.
\<close>

inductive serving_step :: "('b surroundings \<Rightarrow> bool) \<Rightarrow> 'b power_ops \<Rightarrow> 'b relay \<Rightarrow> 'b relay \<Rightarrow> bool" for polite ops where
  upkeep: "upkeep_step ops app app' \<Longrightarrow> serving_step polite ops app app'"
| manager: "polite W \<Longrightarrow> serving_step polite ops app (snd (run_endpoint name (manager_turn W last_check) app))"
| readiness: "polite W \<Longrightarrow> serving_step polite ops app (snd (run_endpoint name (readiness_turn W) app))"
| request: "(\<And>n. polite (ws n)) \<Longrightarrow> (\<And>n. steady (envs n)) \<Longrightarrow> serving_step polite ops app (snd (proxy ws envs uid now a app))"
| websocket: "(\<And>n. polite (ws n)) \<Longrightarrow> (\<And>n. steady (envs n)) \<Longrightarrow>
    serving_step polite ops app (snd (ws_proxy ws envs uid now wa app))"

lemma note_unknown_inv: "relay_inv fits config app \<Longrightarrow> relay_inv fits config (note_unknown now request path name app)"
  by (simp add: note_unknown_def relay_inv_def assembled_def Let_def split: option.split)

text \<open>A condition on the queues that the loops and the handlers keep in polite surroundings holds on every run.\<close>

locale serving_books = queue_books fits for fits +
  fixes polite :: "'b surroundings \<Rightarrow> bool"
  assumes admits: "polite W \<Longrightarrow> settled_turn fits (admit W readable request full_path polls outcome driven)"
    and admits_catch_all: "polite W \<Longrightarrow> settled_turn fits (admit_catch_all W readable request polls outcome driven)"
    and admits_ws: "polite W \<Longrightarrow> settled_turn fits (admit_ws W ws passthrough ready_polls spot_polls carried)"
    and checks: "polite W \<Longrightarrow> settled_turn fits (check_readiness W)"
    and manages: "polite W \<Longrightarrow> settled_turn fits (manager_turn W last_check)"
    and probes: "polite W \<Longrightarrow> settled_turn fits (readiness_turn W)"
begin

lemma routed_inv:
  assumes "\<And>n. steady (envs n)" and "settled_turn fits t" and "relay_inv fits config app"
  shows "relay_inv fits config (snd (hbind (traffic envs uid now name) (\<lambda>_.
    hbind (run_endpoint name t) (\<lambda>r. hret (f r))) app))"
  using assms by (intro bind_inv traffic_inv) (auto intro!: bind_inv run_endpoint_inv)

lemma serving_step_inv:
  assumes "serving_step polite ops app app'" and "relay_inv fits config app"
  shows "relay_inv fits config app'"
  using assms
proof (induction rule: serving_step.induct)
  case (upkeep app app')
  then show ?case by (rule upkeep_inv)
next
  case (manager W app name last_check)
  then show ?case by (intro run_endpoint_inv manages)
next
  case (readiness W app name)
  then show ?case by (intro run_endpoint_inv probes)
next
  case (request ws envs app uid now a)
  then show ?case
    by (auto simp: proxy_def Let_def intro!: routed_inv admits admits_catch_all note_unknown_inv split: option.split)
next
  case (websocket ws envs app uid now wa)
  then show ?case
    by (auto simp: ws_proxy_def Let_def intro!: routed_inv admits_ws split: option.split)
qed

lemma serving_steps_inv:
  "(serving_step polite ops)\<^sup>*\<^sup>* app app' \<Longrightarrow> relay_inv fits config app \<Longrightarrow> relay_inv fits config app'"
  by (induction rule: rtranclp_induct) (auto intro: serving_step_inv)

end

text \<open>From the configuration on: construction, setup, startup, steps.\<close>

lemma serving_invariant:
  fixes polite :: "backend surroundings \<Rightarrow> bool"
  assumes books: "serving_books fits polite" and fresh: "\<And>c. fits c (fresh_queue c)"
    and "valid_config fs cron config" and "new_relay world st born config = Inr app0"
    and "setup_app True app0 = (Inr (), app1)"
    and "startup ops attempts ws envs now clk app1 = Some (r, app2)"
    and "\<And>n. polite (ws n)" and "\<And>n. steady (envs n)"
  shows "relay_inv fits config app2" and "(serving_step polite ops)\<^sup>*\<^sup>* app2 app \<Longrightarrow> relay_inv fits config app"
proof -
  have "queue_books fits" using books by (simp add: serving_books_def)
  from queue_books.startup_inv [OF this assms(6) assembled_inv [where fits = fits, OF assms(3-5) fresh]
      serving_books.checks [OF books assms(7)] assms(8)]
  show inv: "relay_inv fits config app2" .
  show "relay_inv fits config app" if "(serving_step polite ops)\<^sup>*\<^sup>* app2 app"
    by (rule serving_books.serving_steps_inv [OF books that inv])
qed

interpretation rooms: queue_books roomy_queue
  using room_operations(8) by unfold_locales (simp add: roomy_queue_def keeps_room_def)

text \<open>It is enough that the operations of the queue keep the condition between the awaits.\<close>

lemma serving_booksI:
  fixes polite :: "'b surroundings \<Rightarrow> bool"
  assumes books: "queue_books fits" and tame: "\<And>W. polite W \<Longrightarrow> tame W"
    and handlers: "\<And>W. endpoint_handlers W (\<lambda>s s'. polite W \<longrightarrow> K (ep_queue s) (ep_queue s'))"
    and kept: "\<And>c q q'. K q q' \<Longrightarrow> fits c q \<Longrightarrow> fits c q'"
  shows "serving_books fits polite"
proof -
  have loops: "endpoint_loops W (\<lambda>s s'. polite W \<longrightarrow> K (ep_queue s) (ep_queue s'))" for W :: "'b surroundings"
    using handlers [of W] by (simp add: endpoint_handlers_def)
  have probes: "endpoint_probes W (\<lambda>s s'. polite W \<longrightarrow> K (ep_queue s) (ep_queue s'))" for W :: "'b surroundings"
    using loops [of W] by (simp add: endpoint_loops_def)
  have turn: "settled_turn fits t"
    if "\<And>s. tame W \<longrightarrow> ep_config (snd (t s)) = ep_config s \<and> same_config (ep_server s) (ep_server (snd (t s)))"
      and "\<And>s. polite W \<longrightarrow> K (ep_queue s) (ep_queue (snd (t s)))" and "polite W"
    for W :: "'b surroundings" and t :: "('b, 'a) task"
    using that tame [OF that(3)] kept by (simp add: settled_turn_def) blast
  show ?thesis
  proof (intro serving_books.intro serving_books_axioms.intro books)
    fix W :: "'b surroundings" and readable request full_path polls outcome driven ws passthrough ready_polls spot_polls carried last_check
    assume W: "polite W"
    show "settled_turn fits (admit W readable request full_path polls outcome driven)"
      by (rule turn [OF settled.keeps_admit endpoint_handlers.keeps_admit [OF handlers] W])
    show "settled_turn fits (admit_catch_all W readable request polls outcome driven)"
      by (rule turn [OF settled.keeps_catch_all endpoint_handlers.keeps_catch_all [OF handlers] W])
    show "settled_turn fits (admit_ws W ws passthrough ready_polls spot_polls carried)"
      by (rule turn [OF settled.keeps_admit_ws endpoint_handlers.keeps_admit_ws [OF handlers] W])
    show "settled_turn fits (check_readiness W)"
      by (rule turn [OF framed.keeps_check_readiness endpoint_probes.keeps_check_readiness [OF probes] W])
    show "settled_turn fits (manager_turn W last_check)"
      by (rule turn [OF _ _ W])
         (simp_all add: manager_turn_def split_beta Let_def framed.keeps_manager_pass endpoint_loops.keeps_manager_pass [OF loops])
    show "settled_turn fits (readiness_turn W)"
      by (rule turn [OF _ _ W])
         (simp_all add: readiness_turn_def framed.keeps_readiness_pass endpoint_probes.keeps_readiness_pass [OF probes])
  qed
qed

interpretation served: serving_books roomy_queue civil
proof (rule serving_booksI [where K = keeps_room])
  show "endpoint_handlers W (\<lambda>s s'. civil W \<longrightarrow> keeps_room (ep_queue s) (ep_queue s'))" for W :: "'b surroundings"
    by (rule roomy.endpoint_handlers_axioms)
qed (auto simp: civil_def keeps_room_def roomy_queue_def intro: rooms.queue_books_axioms)

lemma fresh_queue_roomy: "roomy_queue c (fresh_queue c)"
  by (simp add: roomy_queue_def room_def fresh_queue_def init_queue_def)


section \<open>Serving from the configuration on\<close>

text \<open>A prefix matches the path, which starts with a slash for routing.\<close>

definition startswith_route :: "string \<Rightarrow> string \<Rightarrow> bool" where
  "startswith_route path pre = startswith (if startswith path ''/'' then path else ''/'' @ path) pre"

lemma routed_endpoint:
  assumes "valid_config fs cron config" and "assembled config app" and "route_of path app = Some name"
  shows "\<exists>e srv. dict_get (ra_endpoints app) name = Some e \<and> startswith_route path (ec_path_prefix (ep_config e)) \<and>
    ep_config e \<in> set (rc_endpoints config) \<and> dict_get (ra_servers app) (ec_server (ep_config e)) = Some srv"
proof -
  have keys: "dict_keys (ra_endpoints app) = map ec_name (rc_endpoints config)"
    "dict_keys (ra_servers app) = map vc_name (rc_servers config)" by (rule assembled_keys [OF assms(2)])+
  obtain e where e: "(name, e) \<in> set (ra_endpoints app)" "startswith_route path (ec_path_prefix (ep_config e))"
    using assms(3) fold_better [OF refl, of _ "\<lambda>(_, e). ec_path_prefix (ep_config e)" "ra_endpoints app" None]
    by (fastforce simp: route_of_def route_def startswith_route_def Let_def)
  have "distinct (dict_keys (ra_endpoints app))" using assms(1) unfolding keys by (simp add: valid_config_def)
  then have get: "dict_get (ra_endpoints app) name = Some e"
    using e(1) by (simp add: dict_ok_get dict_ok_def)
  have "(name, ep_config e) \<in> set (map (\<lambda>(n, e). (n, ep_config e)) (ra_endpoints app))" using e(1) by force
  also have "\<dots> = set (map (\<lambda>c. (ec_name c, c)) (rc_endpoints config))" using assms(2) by (simp only: assembled_def)
  finally have mem: "ep_config e \<in> set (rc_endpoints config)" by auto
  then have "ec_server (ep_config e) \<in> set (dict_keys (ra_servers app))"
    using assms(1) unfolding keys by (simp add: valid_config_def)
  then obtain srv where "dict_get (ra_servers app) (ec_server (ep_config e)) = Some srv"
    unfolding dict_has_iff [symmetric] dict_has_def by blast
  then show ?thesis using get e(2) mem by blast
qed

text \<open>
  C2: An application that serves stays within its configuration, whatever races. From a
  configuration the loader accepts, through construction, setup and startup, by any steps:
  requests and WebSockets from their route to their end, turns of the loops, upkeep and the monitor's
  actions, with surroundings at every await that may do anything but leave the configuration or
  exceed a capacity. Then servers and endpoints are still exactly the configured ones, no endpoint
  gives more spots than its concurrency (at least one), and whatever path a request asks for: an
  endpoint it is routed to exists and so does its server, so no handler fails on a missing name.
\<close>

theorem serving_relay_safe:
  assumes "valid_config fs cron config" and "new_relay world st born config = Inr app0"
    and "setup_app True app0 = (Inr (), app1)"
    and "startup ops attempts ws envs now clk app1 = Some (r, app2)"
    and "\<And>n. civil (ws n)" and "\<And>n. steady (envs n)"
    and "(serving_step civil ops)\<^sup>*\<^sup>* app2 app"
  shows "map (\<lambda>(n, s). (n, v_config s)) (ra_servers app) = map (\<lambda>c. (vc_name c, c)) (rc_servers config) \<and>
    map (\<lambda>(n, e). (n, ep_config e)) (ra_endpoints app) = map (\<lambda>c. (ec_name c, c)) (rc_endpoints config) \<and>
    (\<forall>(n, e) \<in> set (ra_endpoints app). int (length (q_spots (ep_queue e))) \<le> max 1 (ec_concurrency (ep_config e))) \<and>
    (\<forall>path name. route_of path app = Some name \<longrightarrow>
       (\<exists>e srv. dict_get (ra_endpoints app) name = Some e \<and> startswith_route path (ec_path_prefix (ep_config e)) \<and>
          dict_get (ra_servers app) (ec_server (ep_config e)) = Some srv))"
proof -
  have "relay_inv roomy_queue config app"
    by (rule serving_invariant(2) [OF served.serving_books_axioms fresh_queue_roomy assms])
  then have rooms: "\<forall>(n, e) \<in> set (ra_endpoints app). roomy_queue (ep_config e) (ep_queue e)"
    and as: "assembled config app" by (simp_all add: relay_inv_def)
  show ?thesis
    using rooms as routed_endpoint [OF assms(1) as] by (fastforce simp: assembled_def roomy_queue_def room_def)
qed

lemma relay_world_civil: "civil relay_world"
  using relay_world_ok by (simp add: civil_def relay_world_def upd_queue_def room_tick)

definition demo_arrival :: arrival where
  "demo_arrival = \<lparr>ar_request = demo_request, ar_path = ''v1/chat'', ar_readable = True, ar_polls = [False, True],
     ar_outcome = SendCancelled, ar_driven = NeverStarted\<rparr>"

lemma demo_served: "demo_started \<noteq> None"
  using demo_monitored by (auto split: option.splits)

lemma serving_relay_safe_witness:
  "\<exists>app app'. demo_started = Some app \<and>
     app' = snd (proxy (\<lambda>_. relay_world) (\<lambda>_. still) ''cycle'' 70 demo_arrival app) \<and>
     dict_keys (ra_endpoints app') = [''chat'', ''all''] \<and>
     (\<forall>(n, e) \<in> set (ra_endpoints app'). int (length (q_spots (ep_queue e))) \<le> max 1 (ec_concurrency (ep_config e)))"
proof -
  obtain app where app: "demo_started = Some app" using demo_served by blast
  obtain app0 app1 r where up: "new_relay silent_bmc demo_store 0 demo_relay = Inr app0"
    "setup_app True app0 = (Inr (), app1)"
    "startup backend_ops [True] (\<lambda>_. relay_world) (\<lambda>_. still) 5 5 app1 = Some (r, app)"
    by (rule demo_started_parts [OF app])
  let ?app = "snd (proxy (\<lambda>_. relay_world) (\<lambda>_. still) ''cycle'' 70 demo_arrival app)"
  have "(serving_step civil backend_ops)\<^sup>*\<^sup>* app ?app"
    using relay_world_ok relay_world_civil by (intro r_into_rtranclp request) simp_all
  note served = serving_relay_safe [OF demo_relay_valid up relay_world_civil conjunct2 [OF conjunct2 [OF relay_world_ok]] this]
  have safe: "map (\<lambda>(n, e). (n, ep_config e)) (ra_endpoints ?app) = map (\<lambda>c. (ec_name c, c)) (rc_endpoints demo_relay)"
    "\<forall>(n, e) \<in> set (ra_endpoints ?app). int (length (q_spots (ep_queue e))) \<le> max 1 (ec_concurrency (ep_config e))"
    using served by simp_all
  have "dict_keys (ra_endpoints ?app) = map ec_name (rc_endpoints demo_relay)"
    using arg_cong [OF safe(1), of "map fst"] by (simp add: comp_def case_prod_unfold)
  then have keys: "dict_keys (ra_endpoints ?app) = [''chat'', ''all'']"
    by (simp add: demo_relay_def default_endpoint_config_def)
  show ?thesis by (intro exI [of _ app] exI [of _ ?app] conjI app refl keys safe(2))
qed

end
