(* ===== verification/Relay_Lifecycle.thy ===== *)
theory Relay_Lifecycle
  imports Relay_Requests
begin

text \<open>
  The life of the process (\<open>lifespan\<close> of relay/main.py with the \<open>start\<close> and \<open>stop\<close> of its parts):
  the shared HTTP client, the background tasks that run, the backends that were closed, and the
  batch a flush has in hand between taking it from the buffer and writing it. A task that is
  cancelled stops at the await where it is; a flush cancelled there forgets its batch. Which of the
  closings raise is given (\<open>close_of\<close>, \<open>aclose\<close>).
\<close>

section \<open>Tasks and the process\<close>

datatype background =
  SyncLoop string | ShutdownLoop string | ReadinessLoop string | ManagerLoop string | RetentionLoop | FlushLoop

record 'b process =
  pr_app :: "'b relay"
  pr_http :: bool
  pr_tasks :: "background list"
  pr_closed :: "string list"
  pr_flushing :: "request_record list"

type_synonym 'b act = "'b process \<Rightarrow> unit res \<times> 'b process"

definition cancel :: "background \<Rightarrow> 'b process \<Rightarrow> 'b process" where
  "cancel task p =
     p\<lparr>pr_tasks := removeAll task (pr_tasks p),
       pr_flushing := (if task = FlushLoop then [] else pr_flushing p)\<rparr>"

definition create_task :: "background \<Rightarrow> 'b process \<Rightarrow> 'b process" where
  "create_task task p = p\<lparr>pr_tasks := pr_tasks p @ [task]\<rparr>"

definition upd_store :: "(store \<Rightarrow> store) \<Rightarrow> 'b process \<Rightarrow> 'b process" where
  "upd_store f p = p\<lparr>pr_app := (pr_app p)\<lparr>ra_store := f (ra_store (pr_app p))\<rparr>\<rparr>"

text \<open>The two halves of \<open>flush_requests\<close> in \<open>request_flush_loop\<close>; what escapes is logged there.\<close>

definition take_batch :: "'b process \<Rightarrow> 'b process" where
  "take_batch p =
     (if FlushLoop \<in> set (pr_tasks p) \<and> pr_flushing p = [] then
        upd_store (\<lambda>st. st\<lparr>so_buffer := []\<rparr>) (p\<lparr>pr_flushing := so_buffer (ra_store (pr_app p))\<rparr>)
      else p)"

definition write_batch :: "'b process \<Rightarrow> 'b process" where
  "write_batch p = upd_store (\<lambda>st. snd (bulk_log_requests (pr_flushing p) st)) (p\<lparr>pr_flushing := []\<rparr>)"

section \<open>Start and stop of the parts\<close>

definition start_server :: "string \<Rightarrow> 'b act" where
  "start_server name = hmod (\<lambda>p. create_task (ShutdownLoop name) (create_task (SyncLoop name) p))"

definition start_endpoint :: "string \<Rightarrow> 'b act" where
  "start_endpoint name = hmod (\<lambda>p. create_task (ManagerLoop name) (create_task (ReadinessLoop name) p))"

definition stop_endpoint :: "string \<Rightarrow> 'b act" where
  "stop_endpoint name = hmod (\<lambda>p. cancel (ManagerLoop name) (cancel (ReadinessLoop name) p))"

definition close_backend :: "(string \<Rightarrow> exn option) \<Rightarrow> string \<Rightarrow> 'b act" where
  "close_backend close_of name p =
     (case close_of name of Some x \<Rightarrow> (Inl x, p) | None \<Rightarrow> (Inr (), p\<lparr>pr_closed := pr_closed p @ [name]\<rparr>))"

definition stop_server :: "(string \<Rightarrow> exn option) \<Rightarrow> string \<Rightarrow> 'b act" where
  "stop_server close_of name =
     hbind (hmod (\<lambda>p. cancel (ShutdownLoop name) (cancel (SyncLoop name) p))) (\<lambda>_. close_backend close_of name)"

section \<open>Startup, shutdown, lifespan\<close>

text \<open>The loops start when the startup sync is through.\<close>

definition start_loops :: "'b act" where
  "start_loops =
     hbind (\<lambda>p. each start_server (dict_keys (ra_servers (pr_app p))) p) (\<lambda>_.
     hbind (\<lambda>p. each start_endpoint (dict_keys (ra_endpoints (pr_app p))) p) (\<lambda>_.
     hmod (\<lambda>p. create_task FlushLoop (create_task RetentionLoop p))))"

definition stop_parts :: "(string \<Rightarrow> exn option) \<Rightarrow> exn option \<Rightarrow> 'b act" where
  "stop_parts close_of aclose =
     hbind (hmod (\<lambda>p. cancel FlushLoop (cancel RetentionLoop p))) (\<lambda>_.
     hbind (\<lambda>p. each stop_endpoint (dict_keys (ra_endpoints (pr_app p))) p) (\<lambda>_.
     hbind (\<lambda>p. each (stop_server close_of) (dict_keys (ra_servers (pr_app p))) p) (\<lambda>_ p.
       case aclose of Some x \<Rightarrow> (Inl x, p) | None \<Rightarrow> (Inr (), p\<lparr>pr_http := False\<rparr>))))"

definition shutdown_process :: "(string \<Rightarrow> exn option) \<Rightarrow> exn option \<Rightarrow> 'b act" where
  "shutdown_process close_of aclose =
     hbind (stop_parts close_of aclose) (\<lambda>_. hmod (\<lambda>p. p\<lparr>pr_app := shutdown (pr_app p)\<rparr>))"

text \<open>The lifespan up to its yield: None while the store cannot be opened. An exception escapes past
  the \<open>finally\<close>, which is only entered after the startup.\<close>

definition lifespan_start ::
    "'b power_ops \<Rightarrow> bool list \<Rightarrow> (string \<Rightarrow> 'b surroundings) \<Rightarrow> (string \<Rightarrow> 'b interference) \<Rightarrow> time \<Rightarrow> time \<Rightarrow>
     'b relay \<Rightarrow> (unit res \<times> 'b process) option" where
  "lifespan_start ops attempts ws envs now clk app =
     (let p = \<lparr>pr_app = app, pr_http = True, pr_tasks = [], pr_closed = [], pr_flushing = []\<rparr> in
      case setup_app (pr_http p) app of
        (Inl x, app) \<Rightarrow> Some (Inl x, p\<lparr>pr_app := app\<rparr>)
      | (Inr _, app) \<Rightarrow>
          map_option (\<lambda>(r, app). case r of Inl x \<Rightarrow> (Inl x, p\<lparr>pr_app := app\<rparr>) | Inr _ \<Rightarrow> start_loops (p\<lparr>pr_app := app\<rparr>))
            (startup ops attempts ws envs now clk app))"

section \<open>What a teardown leaves\<close>

lemma flush_halves:
  "FlushLoop \<in> set (pr_tasks p) \<Longrightarrow> pr_flushing p = [] \<Longrightarrow>
   write_batch (take_batch p) = upd_store (\<lambda>st. snd (flush_requests st)) p"
  by (simp add: write_batch_def take_batch_def upd_store_def flush_requests_def Let_def bulk_log_requests_def)

text \<open>The tasks of the parts with the given names.\<close>

definition server_tasks :: "string list \<Rightarrow> background list" where
  "server_tasks ns = concat (map (\<lambda>n. [SyncLoop n, ShutdownLoop n]) ns)"

definition endpoint_tasks_of :: "string list \<Rightarrow> background list" where
  "endpoint_tasks_of ns = concat (map (\<lambda>n. [ReadinessLoop n, ManagerLoop n]) ns)"

lemma each_start_server:
  "each start_server ns p = (Inr (), p\<lparr>pr_tasks := pr_tasks p @ server_tasks ns\<rparr>)"
  by (induction ns arbitrary: p) (simp_all add: start_server_def create_task_def server_tasks_def hret_def)

lemma each_start_endpoint:
  "each start_endpoint ns p = (Inr (), p\<lparr>pr_tasks := pr_tasks p @ endpoint_tasks_of ns\<rparr>)"
  by (induction ns arbitrary: p) (simp_all add: start_endpoint_def create_task_def endpoint_tasks_of_def hret_def)

lemma start_loops_eq:
  "start_loops p = (Inr (), p\<lparr>pr_tasks := pr_tasks p @ server_tasks (dict_keys (ra_servers (pr_app p))) @
     endpoint_tasks_of (dict_keys (ra_endpoints (pr_app p))) @ [RetentionLoop, FlushLoop]\<rparr>)"
  by (simp add: start_loops_def hbind_def each_start_server each_start_endpoint create_task_def hmod_def)

definition keep_tasks :: "(background \<Rightarrow> bool) \<Rightarrow> 'b process \<Rightarrow> 'b process" where
  "keep_tasks P p = p\<lparr>pr_tasks := filter P (pr_tasks p)\<rparr>"

lemma each_stop_endpoint:
  "each stop_endpoint ns p = (Inr (), keep_tasks (\<lambda>t. t \<notin> set (endpoint_tasks_of ns)) p)"
  by (induction ns arbitrary: p)
     (auto simp: stop_endpoint_def cancel_def keep_tasks_def endpoint_tasks_of_def hret_def removeAll_filter_not_eq
        intro!: process.equality filter_cong)

lemma each_stop_server:
  assumes "\<And>n. n \<in> set ns \<Longrightarrow> close_of n = None"
  shows "each (stop_server close_of) ns p =
    (Inr (), (keep_tasks (\<lambda>t. t \<notin> set (server_tasks ns)) p)\<lparr>pr_closed := pr_closed p @ ns\<rparr>)"
  using assms
  by (induction ns arbitrary: p)
     (auto simp: stop_server_def close_backend_def cancel_def keep_tasks_def server_tasks_def hret_def hbind_def hmod_def
        removeAll_filter_not_eq intro!: process.equality filter_cong)


text \<open>The tasks of a process of the given servers and endpoints.\<close>

definition all_tasks :: "string list \<Rightarrow> string list \<Rightarrow> background list" where
  "all_tasks ss es = server_tasks ss @ endpoint_tasks_of es @ [RetentionLoop, FlushLoop]"

lemma stop_parts_eq:
  assumes "\<And>n. close_of n = None"
  shows "stop_parts close_of None p =
    (Inr (), p\<lparr>pr_http := False, pr_flushing := [], pr_closed := pr_closed p @ dict_keys (ra_servers (pr_app p)),
       pr_tasks := filter (\<lambda>t. t \<notin> set (all_tasks (dict_keys (ra_servers (pr_app p))) (dict_keys (ra_endpoints (pr_app p)))))
         (pr_tasks p)\<rparr>)"
proof -
  have "each (stop_server close_of) ns p =
      (Inr (), (keep_tasks (\<lambda>t. t \<notin> set (server_tasks ns)) p)\<lparr>pr_closed := pr_closed p @ ns\<rparr>)" for ns and p :: "'a process"
    using assms by (intro each_stop_server)
  then show ?thesis
  by (auto simp: stop_parts_def hbind_def hmod_def each_stop_endpoint cancel_def keep_tasks_def all_tasks_def
      removeAll_filter_not_eq intro!: process.equality filter_cong)
qed

section \<open>A running process\<close>

inductive process_step :: "'b power_ops \<Rightarrow> 'b process \<Rightarrow> 'b process \<Rightarrow> bool" for ops where
  work: "serving_step civil ops (pr_app p) app \<Longrightarrow> process_step ops p (p\<lparr>pr_app := app\<rparr>)"
| takes: "process_step ops p (take_batch p)"
| writes: "process_step ops p (write_batch p)"

definition process_inv :: "relay_config \<Rightarrow> 'b process \<Rightarrow> bool" where
  "process_inv config p \<longleftrightarrow> relay_inv roomy_queue config (pr_app p) \<and> pr_http p \<and> pr_closed p = [] \<and>
     pr_tasks p = all_tasks (map vc_name (rc_servers config)) (map ec_name (rc_endpoints config))"

lemma process_step_inv: "process_step ops p q \<Longrightarrow> process_inv config p \<Longrightarrow> process_inv config q"
  by (induction rule: process_step.induct)
     (auto simp: process_inv_def take_batch_def write_batch_def upd_store_def intro: served.serving_step_inv)

lemma process_steps_inv: "(process_step ops)\<^sup>*\<^sup>* p q \<Longrightarrow> process_inv config p \<Longrightarrow> process_inv config q"
  by (induction rule: rtranclp_induct) (auto intro: process_step_inv)

lemma lifespan_start_inv:
  assumes "valid_config fs cron config" and "new_relay world st born config = Inr app"
    and "lifespan_start ops attempts ws envs now clk app = Some (Inr (), p)"
    and "\<And>n. civil (ws n)" and "\<And>n. steady (envs n)"
  shows "process_inv config p"
proof -
  obtain app1 where built: "setup_app True app = (Inr (), app1)"
    using assms(3) by (auto simp: lifespan_start_def Let_def split: prod.splits sum.splits)
  then obtain app2 where up: "startup ops attempts ws envs now clk app1 = Some (Inr (), app2)"
    and p: "start_loops \<lparr>pr_app = app2, pr_http = True, pr_tasks = [], pr_closed = [], pr_flushing = []\<rparr> = (Inr (), p)"
    using assms(3) by (auto simp: lifespan_start_def Let_def split: sum.splits)
  have "relay_inv roomy_queue config app2"
    by (rule serving_invariant(1) [OF served.serving_books_axioms fresh_queue_roomy assms(1,2) built up assms(4,5)])
  then show ?thesis
    using p assembled_keys [of config app2] by (auto simp: process_inv_def start_loops_eq all_tasks_def relay_inv_def)
qed


section \<open>Clean teardown\<close>

text \<open>What is in the buffer is written, or counted as dropped; the database takes it or fails as one.\<close>

definition accounted :: "store \<Rightarrow> request_record list \<Rightarrow> store \<Rightarrow> bool" where
  "accounted st rs st' \<longleftrightarrow>
     tb_requests (so_tables st') = tb_requests (so_tables st) @ rs \<and> so_dropped_requests st' = so_dropped_requests st \<or>
     tb_requests (so_tables st') = tb_requests (so_tables st) \<and> so_dropped_requests st' = so_dropped_requests st + length rs"

lemma shutdown_accounts:
  assumes "so_open (ra_store app)" and "benign (so_outcome (ra_store app) (so_txn (ra_store app)))"
  shows "accounted (ra_store app) (so_buffer (ra_store app)) (ra_store (shutdown app)) \<and>
    so_buffer (ra_store (shutdown app)) = [] \<and> \<not> so_open (ra_store (shutdown app))"
  using assms
  by (cases "so_outcome (ra_store app) (so_txn (ra_store app))")
     (auto simp: shutdown_def flush_requests_def bulk_log_requests_def write_txn_def close_store_def accounted_def
       note_write_success_def note_write_failure_def Let_def)


text \<open>
  C22: A shutdown during a flush loses the batch. The flusher empties the buffer before it awaits
  the write. When the shutdown cancels it there, the requests it had taken are neither written nor
  counted as dropped, although the final flush succeeds; had the shutdown come one step earlier,
  all of them would have been written.
\<close>

theorem shutdown_loses_batch_in_flight:
  fixes p :: "'b process"
  assumes "FlushLoop \<in> set (pr_tasks p)" and "pr_flushing p = []" and "\<And>n. close_of n = None"
    and "so_open (ra_store (pr_app p))" and "so_outcome (ra_store (pr_app p)) (so_txn (ra_store (pr_app p))) = DbCommit"
  shows "(case shutdown_process close_of None (take_batch p) of (r, q) \<Rightarrow>
      r = Inr () \<and> tb_requests (so_tables (ra_store (pr_app q))) = tb_requests (so_tables (ra_store (pr_app p))) \<and>
      so_dropped_requests (ra_store (pr_app q)) = so_dropped_requests (ra_store (pr_app p)) \<and>
      so_buffer (ra_store (pr_app q)) = [] \<and> pr_flushing q = []) \<and>
    (case shutdown_process close_of None p of (r, q) \<Rightarrow>
      tb_requests (so_tables (ra_store (pr_app q))) =
        tb_requests (so_tables (ra_store (pr_app p))) @ so_buffer (ra_store (pr_app p)))"
proof -
  note stop = stop_parts_eq [of close_of, OF assms(3), where ?'a = 'b]
  show ?thesis
    using assms
    by (auto simp: stop shutdown_process_def hbind_def hmod_def take_batch_def upd_store_def shutdown_def flush_requests_def
      bulk_log_requests_def write_txn_def close_store_def note_write_success_def Let_def)
qed

text \<open>A closing that raises ends the shutdown there: later servers keep their tasks, the client stays open, and
  the buffer is not written.\<close>

lemma failing_close_aborts_shutdown:
  assumes "dict_keys (ra_servers (pr_app p)) = ns @ n # ms" and "\<And>m. m \<in> set ns \<Longrightarrow> close_of m = None"
    and "close_of n = Some x"
  shows "fst (shutdown_process close_of aclose p) = Inl x \<and>
    pr_app (snd (shutdown_process close_of aclose p)) = pr_app p \<and> pr_http (snd (shutdown_process close_of aclose p)) = pr_http p \<and>
    pr_closed (snd (shutdown_process close_of aclose p)) = pr_closed p @ ns"
proof -
  have split: "each f (as @ bs) = hbind (each f as) (\<lambda>_. each f bs)" for f :: "string \<Rightarrow> 'a act" and as bs
    by (induction as) (auto simp: hbind_def hret_def fun_eq_iff split: prod.split sum.split)
  have "each (stop_server close_of) ns q =
      (Inr (), (keep_tasks (\<lambda>t. t \<notin> set (server_tasks ns)) q)\<lparr>pr_closed := pr_closed q @ ns\<rparr>)" for q :: "'a process"
    using assms(2) by (intro each_stop_server)
  then show ?thesis
    using assms(1,3)
    by (simp add: shutdown_process_def stop_parts_def hbind_def hmod_def each_stop_endpoint keep_tasks_def cancel_def split
        stop_server_def [of _ n] close_backend_def)
qed


section \<open>Witnesses\<close>

definition still_world :: "backend surroundings" where
  "still_world = relay_world\<lparr>w_env := (\<lambda>n s. s)\<rparr>"

text \<open>The process of the demonstration configuration after its startup, if there is one.\<close>

definition demo_run :: "backend process option" where
  "demo_run =
     (case new_relay silent_bmc (init_store empty_tables (\<lambda>_. DbCommit)) 0 demo_relay of
        Inl x \<Rightarrow> None
      | Inr app \<Rightarrow>
          (case lifespan_start backend_ops [True] (\<lambda>_. still_world) (\<lambda>_. still) 5 5 app of
             Some (Inr _, p) \<Rightarrow> Some p | _ \<Rightarrow> None))"

lemma still_world_ok: "civil still_world \<and> steady (still :: backend interference)"
  by (simp add: civil_def tame_def still_world_def relay_world_def steady_def same_config_def still_def)

lemma demo_run_open:
  "case demo_run of
     Some p \<Rightarrow> so_open (ra_store (pr_app (take_batch p))) \<and>
       benign (so_outcome (ra_store (pr_app (take_batch p))) (so_txn (ra_store (pr_app (take_batch p)))))
   | None \<Rightarrow> False"
  by code_simp


definition demo_process :: "noop_backend process" where
  "demo_process = \<lparr>pr_app = demo_app\<lparr>ra_store := (ra_store demo_app)\<lparr>so_buffer := [demo_record 1], so_outcome := (\<lambda>_. DbCommit)\<rparr>\<rparr>,
     pr_http = True, pr_tasks = [RetentionLoop, FlushLoop], pr_closed = [], pr_flushing = []\<rparr>"

lemma shutdown_loses_batch_in_flight_witness:
  "tb_requests (so_tables (ra_store (pr_app (snd (shutdown_process (\<lambda>_. None) None (take_batch demo_process)))))) = [] \<and>
   so_dropped_requests (ra_store (pr_app (snd (shutdown_process (\<lambda>_. None) None (take_batch demo_process))))) = 0 \<and>
   tb_requests (so_tables (ra_store (pr_app (snd (shutdown_process (\<lambda>_. None) None demo_process))))) = [demo_record 1]"
  using shutdown_loses_batch_in_flight [of demo_process "\<lambda>_. None"]
  by (auto simp: demo_process_def demo_app_def open_store_def init_store_def empty_tables_def split: prod.splits)

end
