(* ===== verification/Relay_Page.thy ===== *)
theory Relay_Page
  imports Relay_Monitor
begin

text \<open>
  The page of the monitor (\<open>HTML_PAGE\<close> of relay/monitor.py): what its script makes of the data, as HTML
  text put together with \<open>+\<close>, and what its buttons post. Beside it, as the specification, a
  reader of that HTML: tags, attributes in double quotes and character references as the HTML
  standard has them (for text without NUL and carriage return, which a parser replaces).

  Parameters: \<open>num\<close> is the text of a JavaScript number, \<open>local_time\<close> is \<open>toLocaleString\<close> of an instant. The
  banner of a degraded store goes to \<open>textContent\<close>, so only its numbers are modelled.
\<close>

section \<open>Escaping\<close>

text \<open>\<open>esc\<close> of the page; its argument is a string, or null for None.\<close>

definition esc_char :: "char \<Rightarrow> string" where
  "esc_char c =
     (if c = CHR ''&'' then ''&amp;'' else if c = CHR ''<'' then ''&lt;'' else if c = CHR ''>'' then ''&gt;''
      else if c = CHR 0x22 then ''&quot;'' else if c = CHR 0x27 then ''&#39;'' else [c])"

definition esc :: "string \<Rightarrow> string" where
  "esc s = concat (map esc_char s)"

definition clock_text :: "(time \<Rightarrow> string) \<Rightarrow> time \<Rightarrow> string" where
  "clock_text local_time ts = (if ts \<noteq> 0 then local_time ts else ''-'')"


section \<open>The rows of the tables\<close>

text \<open>\<open>s || d\<close> of a string or null.\<close>

definition text_or :: "string option \<Rightarrow> string \<Rightarrow> string" where
  "text_or s d = (case s of None \<Rightarrow> d | Some t \<Rightarrow> if t = [] then d else t)"

definition on_off :: "bool \<Rightarrow> string" where
  "on_off b = (if b then ''on'' else ''off'')"

definition power_class :: "string \<Rightarrow> string" where
  "power_class state = (if state = ''on'' then ''on'' else if state = ''off'' then ''off'' else ''unknown'')"

definition server_html :: "(rat \<Rightarrow> string) \<Rightarrow> server_line \<Rightarrow> string" where
  "server_html num s =
     (let auto_on = sl_shutdown_enabled s in
      ''<tr>''
      @ ''<td class=\"nw\">'' @ esc (sl_name s) @ ''</td>''
      @ ''<td class=\"nw\">'' @ esc (sl_type s) @ ''</td>''
      @ ''<td class=\"nw status '' @ power_class (sl_power_state s) @ ''\">'' @ esc (sl_power_state s) @ ''</td>''
      @ ''<td class=\"nw\">'' @ (if sl_owned s then ''yes'' else ''no'') @ ''</td>''
      @ ''<td class=\"nw\">'' @ (case sl_idle_countdown s of None \<Rightarrow> ''-'' | Some t \<Rightarrow> num t @ ''s'') @ ''</td>''
      @ ''<td class=\"nw\">'' @ (case sl_next_scheduled_off s of None \<Rightarrow> ''-'' | Some t \<Rightarrow> if t = [] then ''-'' else esc t) @ ''</td>''
      @ ''<td class=\"nw\"><span class=\"'' @ on_off auto_on @ ''\">'' @ on_off auto_on @ ''</span> ''
      @ ''<button class=\"toggle\" data-server=\"'' @ esc (sl_name s) @ ''\" data-on=\"'' @ on_off auto_on @ ''\">''
      @ on_off (\<not> auto_on) @ ''</button></td>''
      @ ''<td class=\"nw\"><button class=\"pwr on\" data-server=\"'' @ esc (sl_name s) @ ''\" data-action=\"on\">on</button> ''
      @ ''<button class=\"pwr off\" data-server=\"'' @ esc (sl_name s) @ ''\" data-action=\"off\">off</button></td>''
      @ ''</tr>'')"

definition endpoint_html :: "(rat \<Rightarrow> string) \<Rightarrow> endpoint_line \<Rightarrow> string" where
  "endpoint_html num e =
     ''<tr>''
     @ ''<td class=\"nw\">'' @ esc (el_name e) @ ''</td>''
     @ ''<td class=\"nw\">'' @ esc (el_server e) @ ''</td>''
     @ ''<td class=\"nw\">'' @ esc (el_path_prefix e) @ ''</td>''
     @ ''<td class=\"nw status '' @ on_off (el_ready e) @ ''\">'' @ (if el_ready e then ''ready'' else ''not ready'') @ ''</td>''
     @ ''<td class=\"nw\">'' @ num (of_nat (el_queue_depth e)) @ ''</td>''
     @ ''<td class=\"nw\">'' @ num (of_int (el_free_slots e)) @ ''</td>''
     @ ''<td class=\"nw\">'' @ esc (el_wait_policy e) @ ''</td>''
     @ ''<td class=\"nw\">'' @ esc (el_routing e) @ ''</td>''
     @ ''<td class=\"nw\">'' @ num (of_int (el_concurrency e)) @ ''</td>''
     @ ''</tr>''"

text \<open>A row of the sessions comes with the name of its endpoint. Parts of it: a detail in grey, the age of a
  report, the spot with its button.\<close>

definition detail_html :: "string \<Rightarrow> string" where
  "detail_html d = (if d = [] then [] else '' <span class=\"muted\">'' @ esc d @ ''</span>'')"

definition age_html :: "(rat \<Rightarrow> string) \<Rightarrow> time option \<Rightarrow> string" where
  "age_html num t = (case t of None \<Rightarrow> [] | Some t \<Rightarrow> '' <span class=\"muted\">'' @ num t @ ''s</span>'')"

definition spot_html :: "snapshot_row \<Rightarrow> string" where
  "spot_html s =
     (if r_spot s = ''shared'' then ''<span class=\"shared-spot\">shared</span>'' else r_spot s)
     @ (if r_spot s = ''held''
        then '' <button class=\"release\" data-client=\"'' @ esc (r_client s) @ ''\" data-session=\"'' @ esc (r_session s)
             @ ''\" title=\"Release this spot now (before the idle timeout)\">release</button>''
        else [])"

definition session_html :: "(rat \<Rightarrow> string) \<Rightarrow> snapshot_row \<times> string \<Rightarrow> string" where
  "session_html num se =
     (let s = fst se in
      ''<tr>''
      @ ''<td class=\"nw\">'' @ num (of_nat (r_position s)) @ ''</td>''
      @ ''<td class=\"nw\">'' @ esc (snd se) @ ''</td>''
      @ ''<td class=\"wrap\">'' @ esc (r_session s) @ ''</td>''
      @ ''<td class=\"nw\">'' @ esc (r_client s) @ ''</td>''
      @ ''<td class=\"status nw '' @ r_status s @ ''\">'' @ esc (r_status s)
      @ detail_html (r_detail s) @ ''</td>''
      @ ''<td class=\"nw '' @ (if r_client_status s = Some ''waiting'' then ''waiting'' else []) @ ''\">''
      @ esc (text_or (r_client_status s) ''-'')
      @ detail_html (r_client_status_detail s) @ age_html num (r_client_status_age s) @ ''</td>''
      @ ''<td class=\"nw\">'' @ spot_html s @ ''</td>''
      @ ''<td class=\"nw\">'' @ (case r_spot_releases_in s of None \<Rightarrow> ''-'' | Some t \<Rightarrow> num t @ ''s'') @ ''</td>''
      @ ''<td class=\"nw\">'' @ num (of_int (r_inflight s)) @ ''</td>''
      @ ''<td class=\"nw\">'' @ num (of_int (r_waiting s)) @ ''</td>''
      @ ''<td class=\"nw\">'' @ (case r_queue_position s of None \<Rightarrow> ''-'' | Some i \<Rightarrow> num (of_nat i)) @ ''</td>''
      @ ''<td class=\"wrap\">'' @ esc (r_last_path s) @ ''</td>''
      @ ''<td class=\"nw\">'' @ esc (r_client_ip s) @ ''</td>''
      @ ''</tr>'')"

definition unknown_html :: "(rat \<Rightarrow> string) \<Rightarrow> unknown_row \<Rightarrow> string" where
  "unknown_html num u =
     ''<tr>''
     @ ''<td class=\"wrap\">'' @ esc (ur_id u) @ ''</td>''
     @ ''<td class=\"nw\">'' @ esc (ur_method u) @ ''</td>''
     @ ''<td class=\"wrap\">'' @ esc (ur_target_url u) @ ''</td>''
     @ ''<td class=\"nw\">'' @ num (of_nat (ur_requests u)) @ ''</td>''
     @ ''<td class=\"nw\">'' @ num (ur_last_activity u) @ ''</td>''
     @ ''</tr>''"

definition event_html :: "(time \<Rightarrow> string) \<Rightarrow> power_event \<Rightarrow> string" where
  "event_html local_time e =
     ''<tr>''
     @ ''<td class=\"nw\">'' @ clock_text local_time (pe_ts e) @ ''</td>''
     @ ''<td class=\"nw\">'' @ esc (pe_server e) @ ''</td>''
     @ ''<td class=\"nw\">'' @ esc (pe_action e) @ ''</td>''
     @ ''<td class=\"nw\">'' @ esc (pe_reason e) @ ''</td>''
     @ ''<td class=\"nw\">'' @ esc (pe_initiated_by e) @ ''</td>''
     @ ''<td class=\"nw status '' @ on_off (pe_success e) @ ''\">'' @ (if pe_success e then ''ok'' else ''fail'') @ ''</td>''
     @ ''</tr>''"

text \<open>\<open>rows.join('') || fallback\<close>: the body of a table.\<close>

definition table_html :: "string \<Rightarrow> string list \<Rightarrow> string" where
  "table_html fallback rows = (if concat rows = [] then fallback else concat rows)"


section \<open>The config block\<close>

text \<open>A value of the config block after JSON.\<close>

datatype page_value = VNull | VBool bool | VNum rat | VStr string

definition v_opt :: "('a \<Rightarrow> page_value) \<Rightarrow> 'a option \<Rightarrow> page_value" where
  "v_opt f x = (case x of None \<Rightarrow> VNull | Some y \<Rightarrow> f y)"

text \<open>\<open>Object.entries(d.config)\<close>: the keys of \<open>build_data\<close> in their order.\<close>

definition config_entries :: "config_block \<Rightarrow> (string \<times> page_value) list" where
  "config_entries c =
     [(''concurrent_sessions'', v_opt (\<lambda>i. VNum (of_int i)) (cb_concurrent_sessions c)),
      (''concurrent_session_requests'', v_opt (\<lambda>i. VNum (of_int i)) (cb_concurrent_session_requests c)),
      (''request_mode'', v_opt VStr (cb_request_mode c)),
      (''immediate_idle_release'', v_opt VBool (cb_immediate_idle_release c)),
      (''unknown_path_policy'', VStr (cb_unknown_path_policy c)),
      (''session_expiry'', v_opt VNum (cb_session_expiry c)),
      (''client_busy_window'', v_opt VNum (cb_client_busy_window c)),
      (''client_status_poll'', v_opt VNum (cb_client_status_poll c)),
      (''queue_timeout'', v_opt VNum (cb_queue_timeout c)),
      (''target_server_url'', v_opt VStr (cb_target_server_url c)),
      (''idle_timeout'', v_opt VNum (cb_idle_timeout c)),
      (''shutdown_enabled'', v_opt VBool (cb_shutdown_enabled c)),
      (''target_read_timeout'', VNum (of_int (cb_target_read_timeout c))),
      (''server_powered_on'', v_opt VBool (cb_server_powered_on c)),
      (''server_healthy'', v_opt VBool (cb_server_healthy c)),
      (''power_managed'', v_opt VBool (cb_power_managed c)),
      (''queue_manager_age'', v_opt VNum (cb_queue_manager_age c)),
      (''active_sessions'', VNum (of_nat (cb_active_sessions c))),
      (''queued_requests'', VNum (of_nat (cb_queued_requests c)))]"

text \<open>\<open>refresh\<close> writes unknown for null before it renders.\<close>

definition named_unknown :: "(string \<times> page_value) list \<Rightarrow> (string \<times> page_value) list" where
  "named_unknown es = map (\<lambda>(k, v). (k, if v = VNull then VStr ''unknown'' else v)) es"

text \<open>\<open>String(v)\<close>; null, which \<open>??\<close> takes out before, has no text here.\<close>

definition js_text :: "(rat \<Rightarrow> string) \<Rightarrow> page_value \<Rightarrow> string" where
  "js_text num v = (case v of VNull \<Rightarrow> [] | VBool b \<Rightarrow> if b then ''true'' else ''false'' | VNum x \<Rightarrow> num x | VStr s \<Rightarrow> s)"

text \<open>\<open>Number(v)\<close>, None for NaN. The one value it is asked for is a number.\<close>

definition js_number :: "page_value \<Rightarrow> rat option" where
  "js_number v = (case v of VNull \<Rightarrow> Some 0 | VBool b \<Rightarrow> Some (if b then 1 else 0) | VNum x \<Rightarrow> Some x | VStr _ \<Rightarrow> None)"

definition nan_text :: "(rat \<Rightarrow> string) \<Rightarrow> rat option \<Rightarrow> string" where
  "nan_text num x = (case x of None \<Rightarrow> ''NaN'' | Some y \<Rightarrow> num y)"

definition idle_text :: "(rat \<Rightarrow> string) \<Rightarrow> (string, page_value) dict \<Rightarrow> string" where
  "idle_text num es =
     (case dict_get es ''idle_timeout'' of None \<Rightarrow> ''unknown'' | Some v \<Rightarrow> if v = VNull then ''unknown'' else js_text num v)"

definition config_item_html :: "(rat \<Rightarrow> string) \<Rightarrow> (string, page_value) dict \<Rightarrow> string \<times> page_value \<Rightarrow> string" where
  "config_item_html num es kv =
     (let k = fst kv; v = snd kv in
      if k = ''shutdown_enabled'' then
        (let on = (v = VBool True \<or> v = VStr ''true'') in
         ''<div><b>auto power-off this cycle (primary):</b> <span class=\"status ''
         @ on_off on @ ''\">'' @ on_off on @ ''</span>''
         @ '' <span class=\"muted\">after '' @ esc (idle_text num es)
         @ ''s idle; resets to the config default on the next power-on</span> ''
         @ ''<button class=\"toggle\" id=\"shutdown-toggle\" data-on=\"'' @ on_off on @ ''\" ''
         @ ''title=\"Toggle automatic shutdown for the current power cycle\">''
         @ on_off (\<not> on) @ ''</button></div>'')
      else if k = ''target_read_timeout'' then
        (let n = js_number v; none = (n = Some 0) in
         ''<div><b>target read timeout:</b> '' @ esc (if none then ''none'' else js_text num v @ ''s'')
         @ '' <span class=\"muted\">max silence from the target; 0 = no timeout</span> ''
         @ ''<input class=\"timeout-input\" id=\"read-timeout\" type=\"number\" min=\"0\" step=\"1\" ''
         @ ''value=\"'' @ (if none then num 0 else nan_text num n) @ ''\"> ''
         @ ''<button class=\"apply\" id=\"timeout-apply\" ''
         @ ''title=\"Apply the target read timeout in seconds (0 = no timeout)\">apply</button></div>'')
      else ''<div><b>'' @ esc k @ '':</b> '' @ esc (js_text num v) @ ''</div>'')"


section \<open>The page\<close>

record page =
  pg_banner :: "(nat \<times> nat) option"
  pg_config :: string
  pg_servers :: string
  pg_endpoints :: string
  pg_sessions :: string
  pg_unknown :: string
  pg_events :: string

definition render_page :: "(rat \<Rightarrow> string) \<Rightarrow> (time \<Rightarrow> string) \<Rightarrow> monitor_data \<Rightarrow> page" where
  "render_page num local_time d =
     (let es = named_unknown (config_entries (md_config d)) in
      \<lparr>pg_banner = (if md_degraded d then Some (md_dropped_writes d, md_dropped_requests d) else None),
       pg_config = concat (map (config_item_html num es) es),
       pg_servers = table_html ''<tr><td colspan=\"8\" class=\"muted\">no servers</td></tr>'' (map (server_html num) (md_servers d)),
       pg_endpoints = table_html ''<tr><td colspan=\"9\" class=\"muted\">no endpoints</td></tr>'' (map (endpoint_html num) (md_endpoints d)),
       pg_sessions = table_html ''<tr><td colspan=\"13\" class=\"muted\">no sessions</td></tr>'' (map (session_html num) (md_sessions d)),
       pg_unknown = table_html ''<tr><td colspan=\"5\" class=\"muted\">none</td></tr>'' (map (unknown_html num) (md_unknown d)),
       pg_events = table_html ''<tr><td colspan=\"6\" class=\"muted\">no events</td></tr>'' (map (event_html local_time) (md_power_events d))\<rparr>)"


section \<open>Reading HTML\<close>

definition entity :: "string \<Rightarrow> (char \<times> nat) option" where
  "entity s =
     (if startswith s ''&amp;'' then Some (CHR ''&'', 4) else if startswith s ''&lt;'' then Some (CHR ''<'', 3)
      else if startswith s ''&gt;'' then Some (CHR ''>'', 3) else if startswith s ''&quot;'' then Some (CHR 0x22, 5)
      else if startswith s ''&#39;'' then Some (CHR 0x27, 4) else None)"

fun unesc :: "string \<Rightarrow> string" where
  "unesc [] = []"
| "unesc (c # s) = (case entity (c # s) of None \<Rightarrow> c # unesc s | Some (d, n) \<Rightarrow> d # unesc (drop n s))"

datatype html_token = Tag string | Attr string string | TagEnd | Text string
datatype html_state = InText string | InTag string | InValue string string

definition shown :: "string \<Rightarrow> html_token list" where
  "shown s = (if s = [] then [] else [Text s])"

definition tagged :: "string \<Rightarrow> html_token list" where
  "tagged w = (if w = [] then [] else [Tag w])"

definition push :: "html_token list \<Rightarrow> html_token list option \<Rightarrow> html_token list option" where
  "push ts r = map_option (\<lambda>us. ts @ us) r"

text \<open>Text up to the next tag; in a tag words and \<open>name="value"\<close>. None: the input ends inside a tag.\<close>

fun read_html :: "html_state \<Rightarrow> string \<Rightarrow> html_token list option" where
  "read_html (InText t) [] = Some (shown (unesc t))"
| "read_html (InTag w) [] = None"
| "read_html (InValue n v) [] = None"
| "read_html (InText t) (c # s) =
     (if c = CHR ''<'' then push (shown (unesc t)) (read_html (InTag []) s) else read_html (InText (t @ [c])) s)"
| "read_html (InTag w) (c # s) =
     (if c = CHR ''>'' then push (tagged w @ [TagEnd]) (read_html (InText []) s)
      else if c = CHR '' '' then push (tagged w) (read_html (InTag []) s)
      else if c = CHR 0x22 then read_html (InValue (butlast w) []) s
      else read_html (InTag (w @ [c])) s)"
| "read_html (InValue n v) (c # s) =
     (if c = CHR 0x22 then push [Attr n (unesc v)] (read_html (InTag []) s) else read_html (InValue n (v @ [c])) s)"

abbreviation tokens :: "string \<Rightarrow> html_token list option" where
  "tokens s \<equiv> read_html (InText []) s"

lemma push_simps [simp]:
  "push ts (push us r) = push (ts @ us) r" "push [] r = r" "push ts (Some us) = Some (ts @ us)"
  by (cases r; simp add: push_def)+

text \<open>A plain text is the same escaped and unescaped, and can stand anywhere.\<close>

definition plain :: "string \<Rightarrow> bool" where
  "plain s \<longleftrightarrow> list_all (\<lambda>c. esc_char c = [c]) s"

lemma plain_char: "esc_char c = [c] \<longleftrightarrow> c \<notin> {CHR ''&'', CHR ''<'', CHR ''>'', CHR 0x22, CHR 0x27}"
  by (simp add: esc_char_def)

lemma entity_plain: "c \<noteq> CHR ''&'' \<Longrightarrow> entity (c # s) = None"
  by (simp add: entity_def startswith_def)

lemma unesc_plain [simp]: "plain s \<Longrightarrow> unesc (s @ t) = s @ unesc t"
  by (induction s) (auto simp: plain_def plain_char entity_plain)

lemma unesc_esc [simp]: "unesc (esc s @ t) = s @ unesc t"
proof (induction s)
  case (Cons c s)
  have "unesc (esc_char c @ u) = c # unesc u" for u
    by (auto simp: esc_char_def entity_plain) (simp_all add: entity_def startswith_def)
  then show ?case using Cons.IH by (simp add: esc_def)
qed (simp add: esc_def)

lemma unesc_whole [simp]: "unesc (esc s) = s" "plain u \<Longrightarrow> unesc u = u"
  using unesc_esc [of s "[]"] unesc_plain [of u "[]"] by simp_all

definition harmless :: "string \<Rightarrow> bool" where
  "harmless s \<longleftrightarrow> list_all (\<lambda>c. c \<noteq> CHR ''<'' \<and> c \<noteq> CHR 0x22) s"

lemma harmless_esc: "harmless (esc s)"
  by (induction s) (auto simp: harmless_def esc_def esc_char_def)

lemma plain_harmless: "plain s \<Longrightarrow> harmless s"
  by (auto simp: plain_def plain_char harmless_def list_all_iff)

lemma read_harmless:
  "harmless s \<Longrightarrow> read_html (InText t) (s @ r) = read_html (InText (t @ s)) r"
  "harmless s \<Longrightarrow> read_html (InValue n t) (s @ r) = read_html (InValue n (t @ s)) r"
  by (induction s arbitrary: t) (auto simp: harmless_def)

lemmas read_pieces = read_harmless [OF harmless_esc] read_harmless [OF plain_harmless] entity_plain
  read_html.simps unesc.simps unesc_plain unesc_esc unesc_whole push_simps tagged_def


section \<open>What the rows say\<close>

definition tr :: "html_token list list \<Rightarrow> html_token list" where
  "tr cells = [Tag ''tr'', TagEnd] @ concat cells @ [Tag ''/tr'', TagEnd]"

definition td :: "string \<Rightarrow> html_token list \<Rightarrow> html_token list" where
  "td cls body = [Tag ''td'', Attr ''class'' cls, TagEnd] @ body @ [Tag ''/td'', TagEnd]"

text \<open>A text and the grey notes behind it.\<close>

fun labelled :: "string \<Rightarrow> string list \<Rightarrow> html_token list" where
  "labelled t [] = shown t"
| "labelled t (n # ns) =
     [Text (t @ '' ''), Tag ''span'', Attr ''class'' ''muted'', TagEnd] @ shown n @ [Tag ''/span'', TagEnd] @ labelled [] ns"

definition remarks :: "string \<Rightarrow> string list" where
  "remarks d = (if d = [] then [] else [d])"

definition button :: "(string \<times> string) list \<Rightarrow> string \<Rightarrow> html_token list" where
  "button attrs label = [Tag ''button''] @ map (\<lambda>(n, v). Attr n v) attrs @ [TagEnd] @ shown label @ [Tag ''/button'', TagEnd]"

definition server_cells :: "(rat \<Rightarrow> string) \<Rightarrow> server_line \<Rightarrow> html_token list" where
  "server_cells num s =
     tr [td ''nw'' (shown (sl_name s)), td ''nw'' (shown (sl_type s)),
       td (''nw status '' @ power_class (sl_power_state s)) (shown (sl_power_state s)),
       td ''nw'' (shown (if sl_owned s then ''yes'' else ''no'')),
       td ''nw'' (shown (case sl_idle_countdown s of None \<Rightarrow> ''-'' | Some t \<Rightarrow> num t @ ''s'')),
       td ''nw'' (shown (text_or (sl_next_scheduled_off s) ''-'')),
       td ''nw'' ([Tag ''span'', Attr ''class'' (on_off (sl_shutdown_enabled s)), TagEnd] @ shown (on_off (sl_shutdown_enabled s)) @
         [Tag ''/span'', TagEnd, Text '' ''] @
         button [(''class'', ''toggle''), (''data-server'', sl_name s), (''data-on'', on_off (sl_shutdown_enabled s))]
           (on_off (\<not> sl_shutdown_enabled s))),
       td ''nw'' (button [(''class'', ''pwr on''), (''data-server'', sl_name s), (''data-action'', ''on'')] ''on'' @ [Text '' ''] @
         button [(''class'', ''pwr off''), (''data-server'', sl_name s), (''data-action'', ''off'')] ''off'')]"

definition endpoint_cells :: "(rat \<Rightarrow> string) \<Rightarrow> endpoint_line \<Rightarrow> html_token list" where
  "endpoint_cells num e =
     tr [td ''nw'' (shown (el_name e)), td ''nw'' (shown (el_server e)), td ''nw'' (shown (el_path_prefix e)),
       td (''nw status '' @ on_off (el_ready e)) (shown (if el_ready e then ''ready'' else ''not ready'')),
       td ''nw'' (shown (num (of_nat (el_queue_depth e)))), td ''nw'' (shown (num (of_int (el_free_slots e)))),
       td ''nw'' (shown (el_wait_policy e)), td ''nw'' (shown (el_routing e)), td ''nw'' (shown (num (of_int (el_concurrency e))))]"

definition spot_cell :: "snapshot_row \<Rightarrow> html_token list" where
  "spot_cell s =
     (if r_spot s = ''shared'' then [Tag ''span'', Attr ''class'' ''shared-spot'', TagEnd, Text ''shared'', Tag ''/span'', TagEnd]
      else if r_spot s = ''held'' then
        [Text ''held ''] @ button [(''class'', ''release''), (''data-client'', r_client s), (''data-session'', r_session s),
          (''title'', ''Release this spot now (before the idle timeout)'')] ''release''
      else shown (r_spot s))"

definition session_cells :: "(rat \<Rightarrow> string) \<Rightarrow> snapshot_row \<times> string \<Rightarrow> html_token list" where
  "session_cells num se =
     (let s = fst se in
      tr [td ''nw'' (shown (num (of_nat (r_position s)))), td ''nw'' (shown (snd se)),
        td ''wrap'' (shown (r_session s)), td ''nw'' (shown (r_client s)),
        td (''status nw '' @ r_status s) (labelled (r_status s) (remarks (r_detail s))),
        td (''nw '' @ (if r_client_status s = Some ''waiting'' then ''waiting'' else []))
          (labelled (text_or (r_client_status s) ''-'') (remarks (r_client_status_detail s) @
             (case r_client_status_age s of None \<Rightarrow> [] | Some t \<Rightarrow> [num t @ ''s'']))),
        td ''nw'' (spot_cell s),
        td ''nw'' (shown (case r_spot_releases_in s of None \<Rightarrow> ''-'' | Some t \<Rightarrow> num t @ ''s'')),
        td ''nw'' (shown (num (of_int (r_inflight s)))), td ''nw'' (shown (num (of_int (r_waiting s)))),
        td ''nw'' (shown (case r_queue_position s of None \<Rightarrow> ''-'' | Some i \<Rightarrow> num (of_nat i))),
        td ''wrap'' (shown (r_last_path s)), td ''nw'' (shown (r_client_ip s))])"

definition unknown_cells :: "(rat \<Rightarrow> string) \<Rightarrow> unknown_row \<Rightarrow> html_token list" where
  "unknown_cells num u =
     tr [td ''wrap'' (shown (ur_id u)), td ''nw'' (shown (ur_method u)), td ''wrap'' (shown (ur_target_url u)),
       td ''nw'' (shown (num (of_nat (ur_requests u)))), td ''nw'' (shown (num (ur_last_activity u)))]"

definition event_cells :: "(time \<Rightarrow> string) \<Rightarrow> power_event \<Rightarrow> html_token list" where
  "event_cells local_time e =
     tr [td ''nw'' (shown (clock_text local_time (pe_ts e))), td ''nw'' (shown (pe_server e)), td ''nw'' (shown (pe_action e)),
       td ''nw'' (shown (pe_reason e)), td ''nw'' (shown (pe_initiated_by e)),
       td (''nw status '' @ on_off (pe_success e)) (shown (if pe_success e then ''ok'' else ''fail''))]"

lemma shown_Cons: "shown [] = []" "shown (c # s) = [Text (c # s)]" "shown (s @ c # t) = [Text (s @ c # t)]"
  by (simp_all add: shown_def)

lemma plain_simps: "plain []" "plain (c # s) \<longleftrightarrow> esc_char c = [c] \<and> plain s" "plain (s @ t) \<longleftrightarrow> plain s \<and> plain t"
  by (auto simp: plain_def)

lemma plain_fixed [simp]:
  "plain (on_off b)" "plain (power_class state)" "plain (if b then ''yes'' else ''no'')"
  "plain (if b then ''ready'' else ''not ready'')" "plain (if b then ''ok'' else ''fail'')"
  "plain (if b then ''waiting'' else [])"
  by (simp_all add: on_off_def power_class_def plain_simps plain_char)

lemma plain_dash [simp]: "plain ''-''"
  by (simp add: plain_simps plain_char)

lemma plain_seconds [simp]:
  assumes "\<And>x. plain (num x)"
  shows "plain (case t of None \<Rightarrow> ''-'' | Some t \<Rightarrow> num t @ ''s'')" "plain (case i of None \<Rightarrow> ''-'' | Some i \<Rightarrow> num (of_nat i))"
  using assms by (simp_all add: plain_simps plain_char split: option.split)

lemma next_off_esc: "(case x of None \<Rightarrow> ''-'' | Some t \<Rightarrow> if t = [] then ''-'' else esc t) = esc (text_or x ''-'')"
  by (simp add: text_or_def esc_def esc_char_def split: option.split)

lemmas cell_defs = td_def tr_def shown_Cons button_def

lemma server_html_read:
  assumes "\<And>x. plain (num x)"
  shows "tokens (server_html num s @ rest) = push (server_cells num s) (tokens rest)"
  using assms by (simp add: server_html_def server_cells_def Let_def cell_defs read_pieces next_off_esc)

lemma endpoint_html_read:
  assumes "\<And>x. plain (num x)"
  shows "tokens (endpoint_html num e @ rest) = push (endpoint_cells num e) (tokens rest)"
  using assms by (simp add: endpoint_html_def endpoint_cells_def cell_defs read_pieces)

lemma unknown_html_read:
  assumes "\<And>x. plain (num x)"
  shows "tokens (unknown_html num u @ rest) = push (unknown_cells num u) (tokens rest)"
  using assms by (simp add: unknown_html_def unknown_cells_def cell_defs read_pieces)

lemma event_html_read:
  assumes "\<And>x. plain (local_time x)"
  shows "tokens (event_html local_time e @ rest) = push (event_cells local_time e) (tokens rest)"
proof -
  have "plain (clock_text local_time t)" for t using assms by (simp add: clock_text_def)
  then show ?thesis by (simp add: event_html_def event_cells_def cell_defs read_pieces)
qed

lemma read_notes:
  assumes "\<And>x. plain (num x)"
  shows "read_html (InText (esc t)) (detail_html d @ CHR ''<'' # rest) = push (labelled t (remarks d)) (read_html (InTag []) rest)"
    and "read_html (InText (esc t)) (detail_html d @ age_html num a @ CHR ''<'' # rest) =
      push (labelled t (remarks d @ (case a of None \<Rightarrow> [] | Some t \<Rightarrow> [num t @ ''s'']))) (read_html (InTag []) rest)"
  using assms
  by (cases "d = []"; cases a; simp add: detail_html_def age_html_def remarks_def read_pieces cell_defs)+

lemma read_spot:
  "plain (r_spot s) \<Longrightarrow> read_html (InText []) (spot_html s @ CHR ''<'' # rest) = push (spot_cell s) (read_html (InTag []) rest)"
  by (cases "r_spot s = ''shared''"; cases "r_spot s = ''held''")
     (simp_all add: spot_html_def spot_cell_def read_pieces cell_defs)

lemma session_html_read:
  assumes "\<And>x. plain (num x)" and "plain (r_status (fst se))" and "plain (r_spot (fst se))"
  shows "tokens (session_html num se @ rest) = push (session_cells num se) (tokens rest)"
  using assms
  by (simp add: session_html_def session_cells_def Let_def cell_defs read_pieces read_notes [where num = num] read_spot)

text \<open>An entry of the config block: its name and its value, with the switches of two of them.\<close>

definition tag_of :: "string \<Rightarrow> (string \<times> string) list \<Rightarrow> html_token list" where
  "tag_of t attrs = [Tag t] @ map (\<lambda>(n, v). Attr n v) attrs @ [TagEnd]"

definition config_item_cells :: "(rat \<Rightarrow> string) \<Rightarrow> (string, page_value) dict \<Rightarrow> string \<times> page_value \<Rightarrow> html_token list" where
  "config_item_cells num es kv =
     (let k = fst kv; v = snd kv; named = (\<lambda>name body. tag_of ''div'' [] @ tag_of ''b'' [] @ shown name @ tag_of ''/b'' [] @ body @ tag_of ''/div'' [])
      in if k = ''shutdown_enabled'' then
        (let on = (v = VBool True \<or> v = VStr ''true'') in
         named ''auto power-off this cycle (primary):''
           ([Text '' ''] @ tag_of ''span'' [(''class'', ''status '' @ on_off on)] @ shown (on_off on) @ tag_of ''/span'' [] @
            [Text '' ''] @ tag_of ''span'' [(''class'', ''muted'')] @
            shown (''after '' @ idle_text num es @ ''s idle; resets to the config default on the next power-on'') @ tag_of ''/span'' [] @
            [Text '' ''] @ button [(''class'', ''toggle''), (''id'', ''shutdown-toggle''), (''data-on'', on_off on),
              (''title'', ''Toggle automatic shutdown for the current power cycle'')] (on_off (\<not> on))))
      else if k = ''target_read_timeout'' then
        (let n = js_number v; none = (n = Some 0) in
         named ''target read timeout:''
           ([Text ('' '' @ (if none then ''none'' else js_text num v @ ''s'') @ '' '')] @ tag_of ''span'' [(''class'', ''muted'')] @
            [Text ''max silence from the target; 0 = no timeout''] @ tag_of ''/span'' [] @
            [Text '' ''] @ tag_of ''input'' [(''class'', ''timeout-input''), (''id'', ''read-timeout''), (''type'', ''number''),
              (''min'', ''0''), (''step'', ''1''), (''value'', if none then num 0 else nan_text num n)] @
            [Text '' ''] @ button [(''class'', ''apply''), (''id'', ''timeout-apply''),
              (''title'', ''Apply the target read timeout in seconds (0 = no timeout)'')] ''apply''))
      else named (k @ '':'') (shown ('' '' @ js_text num v)))"

lemma config_item_html_read:
  assumes "\<And>x. plain (num x)"
  shows "tokens (config_item_html num es kv @ rest) = push (config_item_cells num es kv) (tokens rest)"
proof -
  have nan: "plain (nan_text num n)" for n using assms by (simp add: nan_text_def plain_simps plain_char split: option.split)
  then have field: "plain (if b then num 0 else nan_text num n)" for b n using assms by simp
  note facts = config_item_html_def config_item_cells_def Let_def cell_defs read_pieces tag_of_def
  consider "fst kv = ''shutdown_enabled''" | "fst kv = ''target_read_timeout''"
    | "fst kv \<noteq> ''shutdown_enabled''" "fst kv \<noteq> ''target_read_timeout''" by blast
  then show ?thesis
  proof cases
    case 1
    then show ?thesis by (simp add: facts)
  next
    case 2
    then show ?thesis using field [of "js_number (snd kv) = Some 0" "js_number (snd kv)"] by (simp add: facts)
  next
    case 3
    then show ?thesis by (simp add: facts)
  qed
qed

text \<open>Whole tables.\<close>

definition table_cells :: "string \<Rightarrow> string \<Rightarrow> html_token list list \<Rightarrow> html_token list" where
  "table_cells cols label rows =
     (if rows = [] then tr [tag_of ''td'' [(''colspan'', cols), (''class'', ''muted'')] @ shown label @ tag_of ''/td'' []] else concat rows)"

lemma rows_read:
  assumes "\<And>x rest. x \<in> set xs \<Longrightarrow> tokens (row x @ rest) = push (cells x) (tokens rest)"
  shows "tokens (concat (map row xs) @ rest) = push (concat (map cells xs)) (tokens rest)"
  using assms by (induction xs) simp_all

lemma table_read:
  assumes "\<And>x rest. x \<in> set xs \<Longrightarrow> tokens (row x @ rest) = push (cells x) (tokens rest)"
    and "\<And>x. row x \<noteq> []" and "tokens fallback = Some (table_cells cols label [])"
  shows "tokens (table_html fallback (map row xs)) = Some (table_cells cols label (map cells xs))"
proof (cases xs)
  case Nil
  then show ?thesis using assms(3) by (simp add: table_html_def)
next
  case (Cons x ys)
  then have "concat (map row xs) \<noteq> []" using assms(2) [of x] by simp
  then show ?thesis
    using rows_read [of xs row cells "[]"] assms(1) assms(2) [of x] Cons by (simp add: table_html_def table_cells_def read_pieces cell_defs)
qed

lemma rows_nonempty:
  "server_html num s \<noteq> []" "endpoint_html num e \<noteq> []" "session_html num r \<noteq> []" "unknown_html num u \<noteq> []" "event_html lt v \<noteq> []"
  by (simp_all add: server_html_def endpoint_html_def session_html_def unknown_html_def event_html_def Let_def)

text \<open>What a reader of the page finds in it.\<close>

definition page_says :: "(rat \<Rightarrow> string) \<Rightarrow> (time \<Rightarrow> string) \<Rightarrow> monitor_data \<Rightarrow> page \<Rightarrow> bool" where
  "page_says num local_time d p \<longleftrightarrow>
     (let es = named_unknown (config_entries (md_config d)) in
      tokens (pg_config p) = Some (concat (map (config_item_cells num es) es))) \<and>
     tokens (pg_servers p) = Some (table_cells ''8'' ''no servers'' (map (server_cells num) (md_servers d))) \<and>
     tokens (pg_endpoints p) = Some (table_cells ''9'' ''no endpoints'' (map (endpoint_cells num) (md_endpoints d))) \<and>
     tokens (pg_sessions p) = Some (table_cells ''13'' ''no sessions'' (map (session_cells num) (md_sessions d))) \<and>
     tokens (pg_unknown p) = Some (table_cells ''5'' ''none'' (map (unknown_cells num) (md_unknown d))) \<and>
     tokens (pg_events p) = Some (table_cells ''6'' ''no events'' (map (event_cells local_time) (md_power_events d)))"

lemma page_reads_back:
  assumes "\<And>x. plain (num x)" and "\<And>x. plain (local_time x)"
    and "\<And>se. se \<in> set (md_sessions d) \<Longrightarrow> plain (r_status (fst se)) \<and> plain (r_spot (fst se))"
  shows "page_says num local_time d (render_page num local_time d)"
proof -
  let ?es = "named_unknown (config_entries (md_config d))"
  have "tokens (concat (map (config_item_html num ?es) ?es) @ []) = push (concat (map (config_item_cells num ?es) ?es)) (tokens [])"
    by (rule rows_read, rule config_item_html_read, rule assms(1))
  then have config: "tokens (concat (map (config_item_html num ?es) ?es)) = Some (concat (map (config_item_cells num ?es) ?es))"
    by (simp only: append_Nil2 read_pieces cell_defs push_simps append_Nil2)
  note fallback = table_cells_def tag_of_def read_pieces cell_defs
  show ?thesis
    unfolding page_says_def render_page_def Let_def page.simps
  proof (intro conjI)
    show "tokens (table_html ''<tr><td colspan=\"8\" class=\"muted\">no servers</td></tr>'' (map (server_html num) (md_servers d))) =
        Some (table_cells ''8'' ''no servers'' (map (server_cells num) (md_servers d)))"
      by (rule table_read) (simp_all add: server_html_read assms rows_nonempty, simp add: fallback)
    show "tokens (table_html ''<tr><td colspan=\"9\" class=\"muted\">no endpoints</td></tr>'' (map (endpoint_html num) (md_endpoints d))) =
        Some (table_cells ''9'' ''no endpoints'' (map (endpoint_cells num) (md_endpoints d)))"
      by (rule table_read) (simp_all add: endpoint_html_read assms rows_nonempty, simp add: fallback)
    show "tokens (table_html ''<tr><td colspan=\"13\" class=\"muted\">no sessions</td></tr>'' (map (session_html num) (md_sessions d))) =
        Some (table_cells ''13'' ''no sessions'' (map (session_cells num) (md_sessions d)))"
      by (rule table_read) (simp_all add: session_html_read assms rows_nonempty, simp add: fallback)
    show "tokens (table_html ''<tr><td colspan=\"5\" class=\"muted\">none</td></tr>'' (map (unknown_html num) (md_unknown d))) =
        Some (table_cells ''5'' ''none'' (map (unknown_cells num) (md_unknown d)))"
      by (rule table_read) (simp_all add: unknown_html_read assms rows_nonempty, simp add: fallback)
    show "tokens (table_html ''<tr><td colspan=\"6\" class=\"muted\">no events</td></tr>'' (map (event_html local_time) (md_power_events d))) =
        Some (table_cells ''6'' ''no events'' (map (event_cells local_time) (md_power_events d)))"
      by (rule table_read) (simp_all add: event_html_read assms rows_nonempty, simp add: fallback)
  qed (rule config)
qed


section \<open>The buttons\<close>

text \<open>The elements of a document in order: the tag with its attributes.\<close>

type_synonym element = "string \<times> (string \<times> string) list"

fun attributes :: "html_token list \<Rightarrow> (string \<times> string) list" where
  "attributes (Attr n v # ts) = (n, v) # attributes ts"
| "attributes _ = []"

fun elements :: "html_token list \<Rightarrow> element list" where
  "elements [] = []"
| "elements (Tag t # ts) = (t, attributes ts) # elements ts"
| "elements (_ # ts) = elements ts"

text \<open>\<open>querySelectorAll('button.c')\<close>, \<open>getElementById\<close>, \<open>b.dataset.k\<close> (None for undefined).\<close>

definition has_class :: "string \<Rightarrow> element \<Rightarrow> bool" where
  "has_class c e = (case dict_get (snd e) ''class'' of None \<Rightarrow> False | Some cs \<Rightarrow> c \<in> set (split_ws cs))"

definition buttons :: "string \<Rightarrow> element list \<Rightarrow> element list" where
  "buttons c es = filter (\<lambda>e. fst e = ''button'' \<and> has_class c e) es"

definition by_id :: "string \<Rightarrow> element list \<Rightarrow> element option" where
  "by_id i es = List.find (\<lambda>e. dict_get (snd e) ''id'' = Some i) es"

definition dataset :: "string \<Rightarrow> element \<Rightarrow> string option" where
  "dataset k e = dict_get (snd e) (''data-'' @ k)"

text \<open>The body \<open>post\<close> sends: \<open>JSON.stringify\<close> leaves undefined out.\<close>

definition json_body :: "(string \<times> pyval option) list \<Rightarrow> pyval" where
  "json_body kvs = PDict (List.map_filter (\<lambda>(k, v). map_option (Pair k) v) kvs)"

text \<open>What each button sends when it is clicked, in the order of the document.\<close>

definition release_posts :: "element list \<Rightarrow> pyval list" where
  "release_posts es =
     map (\<lambda>b. json_body [(''client'', map_option PStr (dataset ''client'' b)), (''session'', map_option PStr (dataset ''session'' b))])
       (buttons ''release'' es)"

definition enables :: "element \<Rightarrow> pyval option" where
  "enables b = Some (PBool (dataset ''on'' b = Some ''off''))"

definition primary_toggle_post :: "element list \<Rightarrow> pyval option" where
  "primary_toggle_post es = map_option (\<lambda>b. json_body [(''enabled'', enables b)]) (by_id ''shutdown-toggle'' es)"

definition toggle_posts :: "element list \<Rightarrow> pyval list" where
  "toggle_posts es =
     map (\<lambda>b. json_body [(''server'', map_option PStr (dataset ''server'' b)), (''enabled'', enables b)])
       (filter (\<lambda>b. dataset ''server'' b \<noteq> None) (buttons ''toggle'' es))"

definition power_posts :: "element list \<Rightarrow> pyval list" where
  "power_posts es =
     map (\<lambda>b. json_body [(''server'', map_option PStr (dataset ''server'' b)), (''action'', map_option PStr (dataset ''action'' b))])
       (buttons ''pwr'' es)"

text \<open>The timeout of the input field; None when \<open>parseInt\<close> gives NaN. None: nothing is sent.\<close>

definition timeout_post :: "int option \<Rightarrow> pyval option" where
  "timeout_post val = (case val of None \<Rightarrow> None | Some n \<Rightarrow> if n < 0 then None else Some (json_body [(''read_timeout'', Some (PInt n))]))"

definition page_elements :: "page \<Rightarrow> element list" where
  "page_elements p =
     concat (map (\<lambda>h. case tokens h of None \<Rightarrow> [] | Some ts \<Rightarrow> elements ts)
       [pg_config p, pg_servers p, pg_endpoints p, pg_sessions p, pg_unknown p, pg_events p])"

lemma elements_shown [simp]: "elements (shown s @ ts) = elements ts"
  by (simp add: shown_def)

lemma elements_labelled [simp]: "elements (labelled t ns @ ts) =
    concat (map (\<lambda>_. [(''span'', [(''class'', ''muted'')]), (''/span'', [])]) ns) @ elements ts"
  by (induction t ns rule: labelled.induct) simp_all

text \<open>The buttons among them, row by row.\<close>

definition page_buttons :: "html_token list \<Rightarrow> element list" where
  "page_buttons ts = filter (\<lambda>e. fst e = ''button'') (elements ts)"

lemma page_buttons_simps [simp]:
  "page_buttons [] = []"
  "page_buttons (Tag t # ts) = (if t = ''button'' then [(t, attributes ts)] else []) @ page_buttons ts"
  "page_buttons (Attr n v # ts) = page_buttons ts" "page_buttons (TagEnd # ts) = page_buttons ts" "page_buttons (Text x # ts) = page_buttons ts"
  "page_buttons (shown x @ ts) = page_buttons ts"
  "page_buttons (labelled x ns @ ts) = page_buttons ts"
  by (simp_all add: page_buttons_def filter_concat comp_def)

lemma buttons_eq: "buttons c es = filter (has_class c) (filter (\<lambda>e. fst e = ''button'') es)"
  by (simp add: buttons_def conj_commute)

definition server_buttons :: "server_line \<Rightarrow> element list" where
  "server_buttons s =
     [(''button'', [(''class'', ''toggle''), (''data-server'', sl_name s), (''data-on'', on_off (sl_shutdown_enabled s))]),
      (''button'', [(''class'', ''pwr on''), (''data-server'', sl_name s), (''data-action'', ''on'')]),
      (''button'', [(''class'', ''pwr off''), (''data-server'', sl_name s), (''data-action'', ''off'')])]"

definition session_buttons :: "snapshot_row \<times> string \<Rightarrow> element list" where
  "session_buttons se =
     (if r_spot (fst se) = ''held''
      then [(''button'', [(''class'', ''release''), (''data-client'', r_client (fst se)), (''data-session'', r_session (fst se)),
          (''title'', ''Release this spot now (before the idle timeout)'')])]
      else [])"

lemma page_buttons_spot [simp]: "page_buttons (spot_cell s @ ts) = session_buttons (s, ep) @ page_buttons ts"
  by (simp add: spot_cell_def session_buttons_def cell_defs)

lemma row_buttons:
  "page_buttons (server_cells num s @ ts) = server_buttons s @ page_buttons ts"
  "page_buttons (endpoint_cells num e @ ts) = [] @ page_buttons ts"
  "page_buttons (session_cells num se @ ts) = session_buttons se @ page_buttons ts"
  "page_buttons (unknown_cells num u @ ts) = [] @ page_buttons ts"
  "page_buttons (event_cells local_time v @ ts) = [] @ page_buttons ts"
  by (cases se) (simp_all add: server_cells_def endpoint_cells_def session_cells_def unknown_cells_def event_cells_def
      server_buttons_def cell_defs Let_def page_buttons_spot [where ep = "snd se"])

lemma table_buttons:
  assumes "\<And>x ts. page_buttons (cells x @ ts) = bs x @ page_buttons ts"
  shows "page_buttons (table_cells cols label (map cells xs)) = concat (map bs xs)"
proof -
  have "page_buttons (concat (map cells xs)) = concat (map bs xs)" by (induction xs) (simp_all add: assms)
  then show ?thesis by (simp add: table_cells_def cell_defs tag_of_def)
qed

definition config_buttons :: "string \<times> page_value \<Rightarrow> element list" where
  "config_buttons kv =
     (if fst kv = ''shutdown_enabled'' then
        [(''button'', [(''class'', ''toggle''), (''id'', ''shutdown-toggle''),
           (''data-on'', on_off (snd kv = VBool True \<or> snd kv = VStr ''true'')), (''title'', ''Toggle automatic shutdown for the current power cycle'')])]
      else if fst kv = ''target_read_timeout'' then
        [(''button'', [(''class'', ''apply''), (''id'', ''timeout-apply''), (''title'', ''Apply the target read timeout in seconds (0 = no timeout)'')])]
      else [])"

lemma config_buttons_read: "page_buttons (config_item_cells num es kv @ ts) = config_buttons kv @ page_buttons ts"
  by (simp add: config_item_cells_def config_buttons_def Let_def cell_defs tag_of_def)

lemma class_words:
  "split_ws ''toggle'' = [''toggle'']" "split_ws ''pwr on'' = [''pwr'', ''on'']" "split_ws ''pwr off'' = [''pwr'', ''off'']"
  "split_ws ''release'' = [''release'']" "split_ws ''apply'' = [''apply'']"
  by code_simp+

lemma no_buttons: "concat (map (\<lambda>x. []) xs) = []"
  by (induction xs) simp_all

lemma all_buttons:
  assumes "page_says num local_time d p"
  shows "filter (\<lambda>e. fst e = ''button'') (page_elements p) =
    concat (map config_buttons (named_unknown (config_entries (md_config d)))) @
    concat (map server_buttons (md_servers d)) @ concat (map session_buttons (md_sessions d))"
proof -
  let ?es = "named_unknown (config_entries (md_config d))"
  have "page_buttons (concat (map (config_item_cells num ?es) xs)) = concat (map config_buttons xs)" for xs
    by (induction xs) (simp_all add: config_buttons_read)
  then show ?thesis
    using assms
    by (simp add: page_says_def page_elements_def Let_def page_buttons_def [symmetric] table_buttons row_buttons no_buttons)
qed

definition release_order :: "snapshot_row \<times> string \<Rightarrow> pyval" where
  "release_order se = PDict [(''client'', PStr (r_client (fst se))), (''session'', PStr (r_session (fst se)))]"

definition switch_order :: "server_line \<Rightarrow> pyval" where
  "switch_order s = PDict [(''server'', PStr (sl_name s)), (''enabled'', PBool (\<not> sl_shutdown_enabled s))]"

definition power_orders :: "server_line \<Rightarrow> pyval list" where
  "power_orders s =
     [PDict [(''server'', PStr (sl_name s)), (''action'', PStr ''on'')], PDict [(''server'', PStr (sl_name s)), (''action'', PStr ''off'')]]"

lemmas click_defs = dataset_def json_body_def has_class_def class_words map_filter_def enables_def

lemma config_sends_nothing:
  "filter (has_class ''release'') (config_buttons kv) = []" "filter (has_class ''pwr'') (config_buttons kv) = []"
  "filter (\<lambda>b. has_class ''toggle'' b \<and> dataset ''server'' b \<noteq> None) (config_buttons kv) = []"
  by (simp_all add: config_buttons_def click_defs)

lemma filter_rows: "filter P (concat (map f xs)) = concat (map (\<lambda>x. filter P (f x)) xs)"
  by (simp add: filter_concat comp_def)

lemma map_rows: "map g (concat (map f xs)) = concat (map (\<lambda>x. map g (f x)) xs)"
  by (simp add: map_concat comp_def)

lemma one_each: "concat (map (\<lambda>x. [f x]) xs) = map f xs"
  by (induction xs) simp_all

lemma one_each_if: "concat (map (\<lambda>x. if P x then [f x] else []) xs) = map f (filter P xs)"
  by (induction xs) simp_all

lemma page_posts:
  assumes "page_says num local_time d p"
  shows "release_posts (page_elements p) = map release_order (filter (\<lambda>se. r_spot (fst se) = ''held'') (md_sessions d))"
    and "toggle_posts (page_elements p) = map switch_order (md_servers d)"
    and "power_posts (page_elements p) = concat (map power_orders (md_servers d))"
proof -
  note all = buttons_eq all_buttons [OF assms] filter_append append_Nil map_append filter_rows map_rows
  have rel: "map (\<lambda>b. json_body [(''client'', map_option PStr (dataset ''client'' b)), (''session'', map_option PStr (dataset ''session'' b))])
      (filter (has_class ''release'') (session_buttons se)) = (if r_spot (fst se) = ''held'' then [release_order se] else [])"
    and "filter (has_class ''release'') (server_buttons s) = []" "filter (has_class ''pwr'') (session_buttons se) = []"
    and "filter (\<lambda>b. has_class ''toggle'' b \<and> dataset ''server'' b \<noteq> None) (session_buttons se) = []" for se s
    by (simp_all add: session_buttons_def server_buttons_def click_defs release_order_def)
  moreover have "map (\<lambda>b. json_body [(''server'', map_option PStr (dataset ''server'' b)), (''enabled'', enables b)])
      (filter (\<lambda>b. has_class ''toggle'' b \<and> dataset ''server'' b \<noteq> None) (server_buttons s)) = [switch_order s]"
    and "map (\<lambda>b. json_body [(''server'', map_option PStr (dataset ''server'' b)), (''action'', map_option PStr (dataset ''action'' b))])
      (filter (has_class ''pwr'') (server_buttons s)) = power_orders s" for s
    by (simp_all add: server_buttons_def click_defs switch_order_def power_orders_def on_off_def)
  ultimately show "release_posts (page_elements p) = map release_order (filter (\<lambda>se. r_spot (fst se) = ''held'') (md_sessions d))"
    and "toggle_posts (page_elements p) = map switch_order (md_servers d)"
    and "power_posts (page_elements p) = concat (map power_orders (md_servers d))"
    using config_sends_nothing
    by (simp_all add: release_posts_def toggle_posts_def power_posts_def all filter_filter no_buttons one_each one_each_if)
qed

text \<open>The switch of the primary server stands in the config block, before everything else with an id.\<close>

lemma elements_tags [simp]:
  "elements (tag_of t as @ ts) = (t, as) # elements ts" "elements (button as label @ ts) = (''button'', as) # (''/button'', []) # elements ts"
proof -
  have "attributes (map (\<lambda>(n, v). Attr n v) as @ TagEnd # ts) = as" for ts by (induction as) auto
  moreover have "elements (map (\<lambda>(n, v). Attr n v) as @ ts) = elements ts" for ts by (induction as) auto
  ultimately show "elements (tag_of t as @ ts) = (t, as) # elements ts"
    and "elements (button as label @ ts) = (''button'', as) # (''/button'', []) # elements ts"
    by (simp_all add: tag_of_def button_def)
qed

lemma elements_tag [simp]: "elements (tag_of t as) = [(t, as)]"
  using elements_tags(1) [of t as "[]"] by simp

lemma primary_toggle:
  assumes "page_says num local_time d p"
  shows "primary_toggle_post (page_elements p) =
    Some (PDict [(''enabled'', PBool (cb_shutdown_enabled (md_config d) \<noteq> Some True))])"
proof -
  let ?es = "named_unknown (config_entries (md_config d))"
  have item: "elements (config_item_cells num ?es (k, v) @ ts) =
      elements (config_item_cells num ?es (k, v)) @ elements ts" for k v ts
    by (simp add: config_item_cells_def Let_def)
  have none: "by_id ''shutdown-toggle'' (elements (config_item_cells num ?es (k, v)) @ xs) = by_id ''shutdown-toggle'' xs"
    if "k \<noteq> ''shutdown_enabled''" for k v xs
    using that by (simp add: config_item_cells_def Let_def by_id_def)
  have switch: "map_option (\<lambda>b. json_body [(''enabled'', enables b)])
      (by_id ''shutdown-toggle'' (elements (config_item_cells num ?es (''shutdown_enabled'', v)) @ xs)) =
      Some (PDict [(''enabled'', PBool (v \<noteq> VBool True \<and> v \<noteq> VStr ''true''))])" for v xs
    by (simp add: config_item_cells_def Let_def by_id_def click_defs on_off_def)
  obtain before v after where es: "?es = before @ (''shutdown_enabled'', v) # after" "''shutdown_enabled'' \<notin> fst ` set before"
    "v = (case cb_shutdown_enabled (md_config d) of None \<Rightarrow> VStr ''unknown'' | Some b \<Rightarrow> VBool b)"
  proof
    show "?es = take 11 ?es @ (''shutdown_enabled'', case cb_shutdown_enabled (md_config d) of None \<Rightarrow> VStr ''unknown'' | Some b \<Rightarrow> VBool b) # drop 12 ?es"
      by (simp add: named_unknown_def config_entries_def v_opt_def split: option.split)
    show "''shutdown_enabled'' \<notin> fst ` set (take 11 ?es)"
      by (simp add: named_unknown_def config_entries_def)
  qed (rule refl)
  have all: "elements (concat (map (config_item_cells num ?es) xs)) = concat (map (\<lambda>kv. elements (config_item_cells num ?es kv)) xs)" for xs
    by (induction xs) (simp_all add: item split_paired_all)
  have skip: "by_id ''shutdown-toggle'' (concat (map (\<lambda>kv. elements (config_item_cells num ?es kv)) before) @ xs) = by_id ''shutdown-toggle'' xs" for xs
    using es(2) by (induction before) (auto simp: none)
  have "page_elements p = elements (concat (map (config_item_cells num ?es) ?es)) @
      concat (map (\<lambda>h. case tokens h of None \<Rightarrow> [] | Some ts \<Rightarrow> elements ts) [pg_servers p, pg_endpoints p, pg_sessions p, pg_unknown p, pg_events p])"
    using assms by (simp add: page_says_def page_elements_def Let_def)
  also have "elements (concat (map (config_item_cells num ?es) ?es)) =
      concat (map (\<lambda>kv. elements (config_item_cells num ?es kv)) before) @ elements (config_item_cells num ?es (''shutdown_enabled'', v)) @
      concat (map (\<lambda>kv. elements (config_item_cells num ?es kv)) after)"
    unfolding all by (subst (2) es(1)) simp
  finally show ?thesis
    by (simp add: primary_toggle_post_def skip switch) (auto simp: es(3) split: option.splits)
qed

end
