(* ===== verification/Relay_Actions.thy ===== *)
theory Relay_Actions
  imports Relay_Run
begin

text \<open>
  The power switch of the monitor (\<open>/monitor/power\<close> of relay/main.py): which bodies are orders, and
  that an order is one command to one server while everything else is refused without a trace.
\<close>

text \<open>The server and the action of a body that is an order.\<close>

definition power_order :: "pyval option \<Rightarrow> 'b relay \<Rightarrow> (string \<times> bool) option" where
  "power_order body app =
     (case body of
        Some (PDict data) \<Rightarrow>
          (case dget data ''server'' of
             PStr name \<Rightarrow>
               if name = [] \<or> \<not> dict_has (ra_servers app) name then None
               else if dget data ''action'' = PStr ''on'' then Some (name, True)
               else if dget data ''action'' = PStr ''off'' then Some (name, False) else None
           | _ \<Rightarrow> None)
      | _ \<Rightarrow> None)"

definition hands_off :: "'b interference \<Rightarrow> bool" where
  "hands_off env \<longleftrightarrow> (\<forall>i s. v_log (env i s) = v_log s \<and> v_owned (env i s) = v_owned s)"

lemma hands_off_same: "hands_off env \<Longrightarrow> v_log (env i s) = v_log s \<and> v_owned (env i s) = v_owned s"
  by (simp add: hands_off_def)

text \<open>A manual command, and the ownership that follows from its acceptance.\<close>

lemma switched:
  assumes "hands_off env"
  shows "v_log (snd (server_power_on ops env reason by_whom uid now s)) = v_log s @ [CmdOn reason now]"
    and "fst (server_power_on ops env reason by_whom uid now s) = Inr ok \<Longrightarrow>
      v_owned (snd (server_power_on ops env reason by_whom uid now s)) = (ok \<or> v_owned s)"
    and "v_log (snd (server_power_off ops env reason by_whom now s)) =
      v_log s @ [CmdOff reason (v_owned s) (server_has_activity s)]"
    and "fst (server_power_off ops env reason by_whom now s) = Inr ok \<Longrightarrow>
      v_owned (snd (server_power_off ops env reason by_whom now s)) = (\<not> ok \<and> v_owned s)"
proof -
  have "commandless env" using assms by (simp add: hands_off_def commandless_def)
  then show "v_log (snd (server_power_on ops env reason by_whom uid now s)) = v_log s @ [CmdOn reason now]"
    and "v_log (snd (server_power_off ops env reason by_whom now s)) = v_log s @ [CmdOff reason (v_owned s) (server_has_activity s)]"
    by (rule power_on_log, rule power_off_log)
  show "fst (server_power_on ops env reason by_whom uid now s) = Inr ok \<Longrightarrow>
      v_owned (snd (server_power_on ops env reason by_whom uid now s)) = (ok \<or> v_owned s)"
    using hands_off_same [OF assms]
    by (auto simp: server_power_on_def snd_hbind fst_hbind hret_def await_backend_eq await_store_eq split: sum.splits if_splits)
  show "fst (server_power_off ops env reason by_whom now s) = Inr ok \<Longrightarrow>
      v_owned (snd (server_power_off ops env reason by_whom now s)) = (\<not> ok \<and> v_owned s)"
    using hands_off_same [OF assms]
    by (auto simp: server_power_off_def snd_hbind fst_hbind hret_def await_backend_eq await_store_eq split: sum.splits if_splits)
qed

text \<open>What an order does, at the server it names.\<close>

definition obeyed :: "string \<Rightarrow> bool \<Rightarrow> time \<Rightarrow> 'b relay \<Rightarrow> reply res \<times> 'b relay \<Rightarrow> bool" where
  "obeyed name on now app result \<longleftrightarrow>
     (\<exists>srv srv'. dict_get (ra_servers app) name = Some srv \<and> dict_get (ra_servers (snd result)) name = Some srv' \<and>
        v_log srv' = v_log srv @
          [if on then CmdOn ''manual'' now else CmdOff ''manual'' (v_owned srv) (server_has_activity (load_server app srv))] \<and>
        (\<forall>reply. fst result = Inr reply \<longrightarrow>
           (\<exists>ok. reply = Done [(''ok'', PBool ok), (''server'', PStr name), (''action'', PStr (if on then ''on'' else ''off''))] \<and>
              v_owned srv' = (if ok then on else v_owned srv)))) \<and>
     (\<forall>n. n \<noteq> name \<longrightarrow> dict_get (ra_servers (snd result)) n = dict_get (ra_servers app) n) \<and>
     ra_endpoints (snd result) = ra_endpoints app"

definition refused :: "'b relay \<Rightarrow> reply res \<times> 'b relay \<Rightarrow> bool" where
  "refused app result \<longleftrightarrow> snd result = app \<and>
     (case fst result of Inl x \<Rightarrow> x = OtherExn ''TypeError'' | Inr (Done _) \<Rightarrow> False | Inr _ \<Rightarrow> True)"

lemma run_server_obeyed:
  assumes srv: "dict_get (ra_servers app) name = Some srv"
    and log: "v_log (snd (h (load_server app srv))) = v_log srv @
      [if on then CmdOn ''manual'' now else CmdOff ''manual'' (v_owned srv) (server_has_activity (load_server app srv))]"
    and owned: "\<And>ok. fst (h (load_server app srv)) = Inr ok \<Longrightarrow>
      v_owned (snd (h (load_server app srv))) = (if ok then on else v_owned srv)"
  shows "obeyed name on now app (hbind (run_server name h)
    (\<lambda>ok. hret (Done [(''ok'', PBool ok), (''server'', PStr name), (''action'', PStr (if on then ''on'' else ''off''))])) app)"
proof -
  obtain r srv' where h: "h (load_server app srv) = (r, srv')" by fastforce
  let ?done = "\<lambda>ok. Done [(''ok'', PBool ok), (''server'', PStr name), (''action'', PStr (if on then ''on'' else ''off''))]"
  have run: "hbind (run_server name h) (\<lambda>ok. hret (?done ok)) app =
      ((case r of Inl x \<Rightarrow> Inl x | Inr ok \<Rightarrow> Inr (?done ok)), save_server name srv' app)"
    by (simp add: hbind_def hret_def run_server_def srv h split: sum.split)
  have "v_owned srv' = (if ok then on else v_owned srv)" if "r = Inr ok" for ok using owned [of ok] that by (simp add: h)
  then have reply: "\<exists>ok. reply = ?done ok \<and> v_owned srv' = (if ok then on else v_owned srv)"
    if "(case r of Inl x \<Rightarrow> Inl x | Inr ok \<Rightarrow> Inr (?done ok)) = Inr reply" for reply
    using that by (cases r) (simp, metis sum.inject(2) sum.case(2))
  have saved: "dict_get (ra_servers (save_server name srv' app)) n = (if n = name then Some srv' else dict_get (ra_servers app) n)"
    and eps: "ra_endpoints (save_server name srv' app) = ra_endpoints app" for n
    by (simp_all add: save_server_def)
  show ?thesis
    unfolding run obeyed_def fst_conv snd_conv saved
  proof (rule conjI, rule exI [of _ srv], rule exI [of _ srv'], intro conjI allI impI)
    show "v_log srv' = v_log srv @ [if on then CmdOn ''manual'' now
        else CmdOff ''manual'' (v_owned srv) (server_has_activity (load_server app srv))]"
      using log by (simp only: h snd_conv)
  qed (rule srv, simp, erule reply, simp_all add: eps)
qed

lemma no_order_refused:
  assumes "power_order body app = None"
  shows "refused app (monitor_power fl ops envs uid now body app)"
proof (cases "\<exists>data. body = Some (PDict data)")
  case False
  then show ?thesis by (simp add: monitor_power_def refused_def split: option.split pyval.split)
next
  case True
  then obtain data where body: "body = Some (PDict data)" by blast
  show ?thesis
  proof (cases "truthy (dget data ''server'') \<and> dget data ''action'' \<in> {PStr ''on'', PStr ''off''}")
    case False
    then show ?thesis by (auto simp: body monitor_power_def Let_def refused_def)
  next
    case True
    have "find_server (dget data ''server'') app \<in> {Inl (OtherExn ''TypeError''), Inr None}"
    proof (cases "dget data ''server''")
      case (PStr name)
      then have "dict_get (ra_servers app) name = None"
        using assms True by (auto simp: body power_order_def dict_has_def split: if_splits)
      then show ?thesis by (simp add: find_server_def PStr)
    qed (simp_all add: find_server_def)
    then show ?thesis using True by (auto simp: body monitor_power_def Let_def refused_def unknown_server_def)
  qed
qed

text \<open>
  C26: The power switch of the monitor obeys orders and nothing else. A body that names a
  configured server and the action on or off is an order: exactly one manual command goes to
  that server, whether or not it is owned or busy, no other server and no endpoint is touched, and
  the reply says whether the backend accepted it - then the server is owned after an on and not
  owned after an off; else the ownership stays. Every other body is refused with 400 or 404, or
  with a TypeError for a server that has no hash, and changes nothing.
\<close>

theorem monitor_power_obeys:
  assumes "\<And>n. hands_off (envs n)" and "\<And>n s. dict_get (ra_servers app) n = Some s \<Longrightarrow> server_name s = n"
  shows "case power_order body app of
      Some (name, on) \<Rightarrow> obeyed name on now app (monitor_power fl ops envs uid now body app)
    | None \<Rightarrow> refused app (monitor_power fl ops envs uid now body app)"
proof (cases "power_order body app")
  case None
  have "refused app (monitor_power fl ops envs uid now body app)" by (rule no_order_refused [OF None])
  then show ?thesis using None by simp
next
  case (Some no)
  obtain name on where no: "no = (name, on)" by (cases no)
  obtain data srv where data: "body = Some (PDict data)" "dget data ''server'' = PStr name" "name \<noteq> []"
    "dict_get (ra_servers app) name = Some srv" "dget data ''action'' = PStr (if on then ''on'' else ''off'')"
    using Some no by (auto simp: power_order_def dict_has_def split: option.splits pyval.splits if_splits)
  have loaded: "v_log (load_server app srv) = v_log srv" "v_owned (load_server app srv) = v_owned srv"
    by (simp_all add: load_server_def)
  have "obeyed name on now app (hbind (run_server name
      (if on then server_power_on ops (envs name) ''manual'' ''monitor-ui'' uid now
       else server_power_off ops (envs name) ''manual'' ''monitor-ui'' now))
      (\<lambda>ok. hret (Done [(''ok'', PBool ok), (''server'', PStr name), (''action'', PStr (if on then ''on'' else ''off''))])) app)"
    by (rule run_server_obeyed [OF data(4)])
       (auto simp: loaded switched(1,3) [OF assms(1)] dest!: switched(2,4) [OF assms(1)])
  then have "obeyed name on now app (monitor_power fl ops envs uid now body app)"
    using data assms(2) [OF data(4)] by (cases on) (simp_all add: monitor_power_def Let_def find_server_def)
  then show ?thesis unfolding Some no by simp
qed

lemma monitor_power_obeys_witness:
  "obeyed ''gpu'' False 70 demo_app (monitor_power (\<lambda>_. []) noop_ops (\<lambda>_. still) ''cycle'' 70
     (Some (PDict [(''server'', PStr ''gpu''), (''action'', PStr ''off'')])) demo_app)"
proof -
  have "server_name s = n" if "dict_get (ra_servers demo_app) n = Some s" for n s
    using that by (auto simp: demo_app_def demo_defs server_name_def split: if_splits)
  then show ?thesis
    using monitor_power_obeys [where envs = "\<lambda>_. still" and app = demo_app and now = 70 and fl = "\<lambda>_. []" and ops = noop_ops
        and uid = "''cycle''" and body = "Some (PDict [(''server'', PStr ''gpu''), (''action'', PStr ''off'')])"]
    by (simp add: hands_off_def power_order_def demo_app_def dget_def dict_has_def)
qed

end
