(* ===== verification/Relay_Page_Props.thy ===== *)
theory Relay_Page_Props
  imports Relay_Page Relay_Requests Relay_Actions
begin

text \<open>
  What the page of the monitor shows and what its buttons do, on a running application: every table is
  read back as the data it was made of - for which the one text that goes in unescaped, the status of
  a session, must be one of four words in every state -, and each button acts on what its row shows.
\<close>

section \<open>The status of a session is one of four words\<close>

text \<open>... and its key is its client and its id.\<close>

definition knows_states :: "session \<Rightarrow> bool" where
  "knows_states s \<longleftrightarrow> s_key s = (s_client s, s_session_id s) \<and> s_status s \<in> client_states \<and> (\<forall>c. s_client_status s = Some c \<longrightarrow> c \<in> client_states)"

definition states_known :: "equeue \<Rightarrow> bool" where
  "states_known q \<longleftrightarrow> (\<forall>r. knows_states (sess q r))"

definition keeps_states :: "equeue \<Rightarrow> equeue \<Rightarrow> bool" where
  "keeps_states q q' \<longleftrightarrow> (states_known q \<longrightarrow> states_known q')"

lemma states_refl [simp]: "keeps_states q q"
  by (simp add: keeps_states_def)

lemma states_trans: "keeps_states q r \<Longrightarrow> keeps_states r s \<Longrightarrow> keeps_states q s"
  by (simp add: keeps_states_def)

lemma states_same: "q_heap q' = q_heap q \<Longrightarrow> keeps_states q q'"
  by (simp add: keeps_states_def states_known_def)

lemma states_upd: "(\<And>s. knows_states s \<Longrightarrow> knows_states (f s)) \<Longrightarrow> keeps_states q (upd_sess r f q)"
  by (simp add: keeps_states_def states_known_def upd_sess_def)

lemma states_promote: "keeps_states q (promote now e q)"
  by (simp add: keeps_states_def states_known_def promote_def Let_def upd_sess_def upd_entry_def knows_states_def client_states_def)

lemma states_promote_loop: "keeps_states q (promote_loop now q)"
proof (induction now q rule: promote_loop.induct)
  case (1 now q)
  show ?case
  proof (cases "List.find (eligible q) (q_queue q)")
    case None
    then show ?thesis by (simp add: promote_loop.simps)
  next
    case (Some e)
    then show ?thesis using states_trans [OF states_promote 1 [OF Some]] by (simp add: promote_loop.simps [of now q])
  qed
qed

lemma states_then_promote: "keeps_states q p \<Longrightarrow> keeps_states q (try_promote now p)"
  by (simp add: try_promote_def states_trans [OF _ states_promote_loop])

lemma states_release_spot: "keeps_states q (release_spot now r k q)"
  unfolding release_spot_def Let_def
  by (rule states_then_promote) (simp add: keeps_states_def states_known_def upd_sess_def knows_states_def)

lemma current_status_known: "knows_states s \<Longrightarrow> fst (current_status q s now) \<in> client_states"
  by (simp add: current_status_def knows_states_def client_states_def split: option.split)

lemma states_tick: "keeps_states q (snd (tick now clk q))"
proof -
  have status: "keeps_states q (tick_status now r q)" for q r
    using current_status_known [of "sess q r" q now]
    by (auto simp: tick_status_def Let_def keeps_states_def states_known_def upd_sess_def knows_states_def split: prod.split)
  have gone: "keeps_states p ((tick_status now r p)\<lparr>q_sessions := d\<rparr>)" for p r d
    by (rule states_trans [OF status states_same]) simp
  have one: "keeps_states p (fst (tick_one now clk kr (p, rel)))" for p kr rel
    by (cases kr) (simp add: tick_one_fst Let_def status gone states_trans [OF status states_release_spot])
  have "keeps_states p (fst (fold (tick_one now clk) items (p, rel)))" for items p rel
  proof (induction items arbitrary: p rel)
    case (Cons kr items)
    obtain p' rel' where step: "tick_one now clk kr (p, rel) = (p', rel')" by fastforce
    show ?case using states_trans [OF _ Cons.IH [of p' rel']] one [of p kr rel] by (simp add: step)
  qed simp
  then show ?thesis by (simp add: tick_def split_beta)
qed

lemma states_operations:
  "keeps_states q (snd (get_or_create_session client session_id api ip ua now q))"
  "keeps_states q (enqueue now (fst (alloc_entry r path body now q)) (snd (alloc_entry r path body now q)))"
  "keeps_states q (release now e q)" "keeps_states q (abandon e q)"
  "ws_take_spot now r q = Some q' \<Longrightarrow> keeps_states q q'" "keeps_states q (release_ws_spot now r q)"
  "keeps_states q (snd (release_session now client session_id q))"
proof -
  note facts = keeps_states_def states_known_def upd_sess_def knows_states_def
  show "keeps_states q (snd (get_or_create_session client session_id api ip ua now q))"
    by (auto simp: get_or_create_session_def new_session_def Let_def facts client_states_def split: option.split)
  show "keeps_states q (enqueue now (fst (alloc_entry r path body now q)) (snd (alloc_entry r path body now q)))"
    unfolding enqueue_def Let_def by (rule states_then_promote) (simp add: alloc_entry_def Let_def facts)
  show "keeps_states q (release now e q)"
    unfolding release_def Let_def by (rule states_then_promote) (simp add: facts)
  show "keeps_states q (abandon e q)" by (simp add: abandon_def remove_waiting_def facts)
  show "ws_take_spot now r q = Some q' \<Longrightarrow> keeps_states q q'"
    by (auto simp: ws_take_spot_def Let_def facts split: if_splits)
  show "keeps_states q (release_ws_spot now r q)"
    unfolding release_ws_spot_def Let_def
    by (simp add: states_upd knows_states_def, intro impI conjI states_then_promote; simp add: facts)
  show "keeps_states q (snd (release_session now client session_id q))"
    by (simp add: release_session_def Let_def states_release_spot split: option.split)
qed

text \<open>Surroundings that respect the configuration and invent no state of a session.\<close>

definition truthful :: "'b surroundings \<Rightarrow> bool" where
  "truthful W \<longleftrightarrow> tame W \<and> (\<forall>n s. keeps_states (ep_queue s) (ep_queue (w_env W n s)))"

lemma truthful_pass: "truthful W \<Longrightarrow> keeps_states (ep_queue s) (ep_queue (pass W s))"
  unfolding truthful_def pass_queue
  by (drule conjunct2, drule spec, drule spec [of _ "s\<lparr>ep_awaits := Suc (ep_awaits s)\<rparr>"]) simp

interpretation told: endpoint_handlers W "\<lambda>s s'. truthful W \<longrightarrow> keeps_states (ep_queue s) (ep_queue s')" for W :: "'b surroundings"
  by unfold_locales
     (auto simp: truthful_pass states_tick states_then_promote states_operations knows_states_def
        intro: states_trans states_same intro!: states_upd)

definition words_queue :: "endpoint_config \<Rightarrow> equeue \<Rightarrow> bool" where
  "words_queue c q \<longleftrightarrow> states_known q"

interpretation words: queue_books words_queue
  using states_operations(7) by unfold_locales (simp add: words_queue_def keeps_states_def)

interpretation spoken: serving_books words_queue truthful
proof (rule serving_booksI [where K = keeps_states])
  show "endpoint_handlers W (\<lambda>s s'. truthful W \<longrightarrow> keeps_states (ep_queue s) (ep_queue s'))" for W :: "'b surroundings"
    by (rule told.endpoint_handlers_axioms)
qed (auto simp: truthful_def keeps_states_def words_queue_def intro: words.queue_books_axioms)

lemma fresh_queue_words: "words_queue c (fresh_queue c)"
  by (simp add: words_queue_def states_known_def knows_states_def fresh_queue_def init_queue_def new_session_def client_states_def)



section \<open>The page shows the data\<close>

lemma client_states_plain: "w \<in> client_states \<Longrightarrow> plain w"
  by (auto simp: client_states_def plain_simps plain_char)

lemma snapshot_texts:
  assumes "states_known q" and "row \<in> set (snapshot q now)"
  shows "plain (r_status row) \<and> plain (r_spot row)"
proof -
  obtain idx r where row: "row = snapshot_row_of q now idx r" using assms(2) by (auto simp: snapshot_def)
  have "r_status row \<in> client_states" using assms(1) by (simp add: row snapshot_row_of_def Let_def states_known_def knows_states_def)
  moreover have "r_spot row \<in> {''held'', ''none'', ''shared''}" by (simp add: row snapshot_row_of_def Let_def split: option.split)
  then have "plain (r_spot row)" by (auto simp: plain_simps plain_char)
  ultimately show ?thesis using client_states_plain by blast
qed

lemma build_data_parts:
  assumes "build_data next_fire isoformat wall_now now app = Inr d"
  shows "md_config d = config_block_of now app" and "md_sessions d = session_rows now app"
    and "md_servers d = map (\<lambda>(_, s). server_line_of next_fire isoformat wall_now now (load_server app s)) (ra_servers app)"
  using assms by (cases "recent_power_events 50 (ra_store app)"; auto simp: build_data_def)+

lemma app_page_reads_back:
  assumes "build_data next_fire isoformat wall_now now app = Inr d" and "\<forall>(n, e) \<in> set (ra_endpoints app). states_known (ep_queue e)"
    and "\<And>x. plain (num x)" and "\<And>x. plain (local_time x)"
  shows "page_says num local_time d (render_page num local_time d)"
proof (rule page_reads_back [OF assms(3,4)])
  fix se
  assume "se \<in> set (md_sessions d)"
  then obtain n e where "(n, e) \<in> set (ra_endpoints app)" "fst se \<in> set (snapshot (ep_queue e) now)"
    by (auto simp: build_data_parts(2) [OF assms(1)] session_rows_def)
  then show "plain (r_status (fst se)) \<and> plain (r_spot (fst se))" using assms(2) snapshot_texts by blast
qed

text \<open>
  C16: The page of the monitor shows what the relay told it, and nothing of it becomes markup. From a
  configuration the loader accepts, through startup and any steps of requests, WebSockets, loops, upkeep
  and monitor actions, in surroundings that respect the configuration and invent no session state:
  whatever session ids, paths, user agents, addresses, methods, URLs and details clients
  and targets sent, a reader of HTML finds in the config block and in each table exactly the
  rows of the data, text for text - the status of a session, the one text that is not escaped,
  is busy, idle, retry or waiting, whatever the status API of a client answers.
\<close>

theorem monitor_page_shows_data:
  assumes "valid_config fs cron config" and "new_relay world st born config = Inr app0"
    and "setup_app True app0 = (Inr (), app1)"
    and "startup ops attempts ws envs now clk app1 = Some (r, app2)"
    and "\<And>n. truthful (ws n)" and "\<And>n. steady (envs n)"
    and "(serving_step truthful ops)\<^sup>*\<^sup>* app2 app"
    and "build_data next_fire isoformat wall_now t app = Inr d"
    and "\<And>x. plain (num x)" and "\<And>x. plain (local_time x)"
  shows "page_says num local_time d (render_page num local_time d)"
proof -
  have "relay_inv words_queue config app"
    by (rule serving_invariant(2) [OF spoken.serving_books_axioms fresh_queue_words assms(1-7)])
  then have "\<forall>(n, e) \<in> set (ra_endpoints app). states_known (ep_queue e)" by (auto simp: relay_inv_def words_queue_def)
  then show ?thesis by (rule app_page_reads_back [OF assms(8) _ assms(9,10)])
qed


section \<open>The release button\<close>

text \<open>The endpoints up to the first that knows the session on a spot.\<close>

definition holds_spot :: "string \<Rightarrow> string \<Rightarrow> 'b endpoint \<Rightarrow> bool" where
  "holds_spot client session_id e = dict_has (q_spots (ep_queue e)) (client, session_id)"

lemma release_session_holder:
  assumes "q_inv R W q"
  shows "release_session now client session_id q =
    (if dict_has (q_spots q) (client, session_id)
     then (True, release_spot now (the (dict_get (q_sessions q) (client, session_id))) (client, session_id) q) else (False, q))"
proof (cases "dict_get (q_sessions q) (client, session_id)")
  case None
  then show ?thesis using assms by (auto simp: release_session_def q_inv_def q_spots_ok_def dict_has_def)
next
  case (Some r)
  then show ?thesis using assms by (simp add: release_session_def q_inv_def q_spots_ok_def)
qed

definition freed :: "time \<Rightarrow> string \<Rightarrow> string \<Rightarrow> 'b endpoint \<Rightarrow> 'b endpoint" where
  "freed now client session_id e =
     e\<lparr>ep_queue := release_spot now (the (dict_get (q_sessions (ep_queue e)) (client, session_id))) (client, session_id) (ep_queue e)\<rparr>"

lemma release_on_first:
  assumes "\<forall>(n, e) \<in> set pre. \<not> holds_spot client session_id e" and "holds_spot client session_id e"
    and "\<forall>(n, e) \<in> set (pre @ [(name, e)]). \<exists>R W. q_inv R W (ep_queue e)"
  shows "release_on now client session_id (pre @ (name, e) # post) = (True, pre @ (name, freed now client session_id e) # post)"
  using assms
proof (induction pre)
  case Nil
  then obtain R W where "q_inv R W (ep_queue e)" by auto
  from release_session_holder [OF this] Nil show ?case by (simp add: holds_spot_def freed_def)
next
  case (Cons x pre)
  then obtain R W where "q_inv R W (ep_queue (snd x))" by (cases x) auto
  from release_session_holder [OF this] Cons show ?case by (cases x) (auto simp: holds_spot_def)
qed

lemma held_row:
  assumes "q_inv R W q" and "states_known q" and "row \<in> set (snapshot q now)" and "r_spot row = ''held''"
  shows "dict_has (q_spots q) (r_client row, r_session row)"
proof -
  obtain idx r where row: "row = snapshot_row_of q now idx r" using assms(3) by (auto simp: snapshot_def)
  have "s_key (sess q r) = (s_client (sess q r), s_session_id (sess q r))"
    using assms(2) by (simp add: states_known_def knows_states_def)
  then show ?thesis using assms(4) by (auto simp: row snapshot_row_of_def Let_def split: option.splits if_splits)
qed

text \<open>
  C17: The release buttons of the page. There is one for each row that holds a spot, in the order of
  the rows, and it sends the client and the session of its row, whatever characters they have.
  When neither is empty, the relay answers that it released, and exactly one endpoint has changed:
  the first, in the order of the configuration, where that session holds a spot has freed that spot
  and promoted who may run. That is the endpoint of the row unless the same session also
  holds a spot at an earlier one.
\<close>

theorem release_buttons_free_first_holder:
  assumes "\<forall>(n, e) \<in> set (ra_endpoints app). (\<exists>R W. q_inv R W (ep_queue e)) \<and> states_known (ep_queue e)"
    and "build_data next_fire isoformat wall_now t app = Inr d"
    and "\<And>x. plain (num x)" and "\<And>x. plain (local_time x)"
  shows "release_posts (page_elements (render_page num local_time d)) =
      map release_order (filter (\<lambda>se. r_spot (fst se) = ''held'') (md_sessions d)) \<and>
    (\<forall>(row, endpoint) \<in> set (md_sessions d).
       r_spot row = ''held'' \<and> r_client row \<noteq> [] \<and> r_session row \<noteq> [] \<longrightarrow>
       (\<exists>pre name e post. ra_endpoints app = pre @ (name, e) # post \<and> holds_spot (r_client row) (r_session row) e \<and>
          (\<forall>(n, e) \<in> set pre. \<not> holds_spot (r_client row) (r_session row) e) \<and>
          monitor_release fl now (Some (release_order (row, endpoint))) app =
            (Done [(''released'', PBool True)],
             app\<lparr>ra_endpoints := pre @ (name, freed now (r_client row) (r_session row) e) # post\<rparr>)))"
proof (intro conjI ballI)
  have "page_says num local_time d (render_page num local_time d)"
    using assms(1) by (intro app_page_reads_back [OF assms(2) _ assms(3,4)]) auto
  then show "release_posts (page_elements (render_page num local_time d)) =
      map release_order (filter (\<lambda>se. r_spot (fst se) = ''held'') (md_sessions d))" by (rule page_posts(1))
next
  fix se
  assume se: "se \<in> set (md_sessions d)"
  obtain row endpoint where eq: "se = (row, endpoint)" by fastforce
  let ?c = "r_client row" and ?i = "r_session row"
  have "\<exists>pre name e post. ra_endpoints app = pre @ (name, e) # post \<and> holds_spot ?c ?i e \<and>
      (\<forall>(n, e) \<in> set pre. \<not> holds_spot ?c ?i e) \<and>
      monitor_release fl now (Some (release_order (row, endpoint))) app =
        (Done [(''released'', PBool True)], app\<lparr>ra_endpoints := pre @ (name, freed now ?c ?i e) # post\<rparr>)"
    if row: "r_spot row = ''held''" "?c \<noteq> []" "?i \<noteq> []"
  proof -
    obtain n0 e0 where e0: "(n0, e0) \<in> set (ra_endpoints app)" "row \<in> set (snapshot (ep_queue e0) t)"
      using se by (auto simp: eq build_data_parts(2) [OF assms(2)] session_rows_def)
    then have "holds_spot ?c ?i e0" using assms(1) held_row row(1) unfolding holds_spot_def by blast
    then have "\<exists>ne \<in> set (ra_endpoints app). holds_spot ?c ?i (snd ne)" using e0(1) by force
    then obtain pre ne post where split: "ra_endpoints app = pre @ ne # post" "holds_spot ?c ?i (snd ne)"
      "\<forall>x \<in> set pre. \<not> holds_spot ?c ?i (snd x)" by (rule split_list_first_propE)
    obtain name e where ne: "ne = (name, e)" by fastforce
    have "release_on now ?c ?i (ra_endpoints app) = (True, pre @ (name, freed now ?c ?i e) # post)"
      unfolding split(1) ne
    proof (rule release_on_first)
      show "\<forall>(n, e) \<in> set pre. \<not> holds_spot ?c ?i e" using split(3) by auto
      show "holds_spot ?c ?i e" using split(2) by (simp add: ne)
      have "set (pre @ [(name, e)]) \<subseteq> set (ra_endpoints app)" unfolding split(1) ne by auto
      then show "\<forall>(n, e) \<in> set (pre @ [(name, e)]). \<exists>R W. q_inv R W (ep_queue e)" using assms(1) by blast
    qed
    then have reply: "monitor_release fl now (Some (release_order (row, endpoint))) app =
        (Done [(''released'', PBool True)], app\<lparr>ra_endpoints := pre @ (name, freed now ?c ?i e) # post\<rparr>)"
      by (simp add: monitor_release_def release_order_def dget_def Let_def str_val_def row)
    have "\<forall>(n, e) \<in> set pre. \<not> holds_spot ?c ?i e" using split(3) by auto
    then show ?thesis using split(1,2) reply unfolding ne snd_conv by blast
  qed
  then show "case se of (row, endpoint) \<Rightarrow> r_spot row = ''held'' \<and> r_client row \<noteq> [] \<and> r_session row \<noteq> [] \<longrightarrow>
      (\<exists>pre name e post. ra_endpoints app = pre @ (name, e) # post \<and> holds_spot (r_client row) (r_session row) e \<and>
          (\<forall>(n, e) \<in> set pre. \<not> holds_spot (r_client row) (r_session row) e) \<and>
          monitor_release fl now (Some (release_order (row, endpoint))) app =
            (Done [(''released'', PBool True)],
             app\<lparr>ra_endpoints := pre @ (name, freed now (r_client row) (r_session row) e) # post\<rparr>))"
    unfolding eq prod.case by blast
qed



section \<open>The buttons of a server\<close>

definition leaves_switch :: "'b interference \<Rightarrow> bool" where
  "leaves_switch env \<longleftrightarrow> (\<forall>i s. v_shutdown_override (env i s) = v_shutdown_override s \<and> v_config (env i s) = v_config s)"

text \<open>One server has its automatic power-off switched over, and nothing else of servers and endpoints has changed.\<close>

definition flips :: "string \<Rightarrow> 'b server \<Rightarrow> 'b relay \<Rightarrow> 'b relay \<Rightarrow> bool" where
  "flips name srv app app' \<longleftrightarrow>
     (\<exists>srv'. dict_get (ra_servers app') name = Some srv' \<and> v_config srv' = v_config srv \<and>
        shutdown_enabled_now srv' = (\<not> shutdown_enabled_now srv)) \<and>
     (\<forall>n. n \<noteq> name \<longrightarrow> dict_get (ra_servers app') n = dict_get (ra_servers app) n) \<and> ra_endpoints app' = ra_endpoints app"

lemma override_set:
  assumes "leaves_switch env"
  shows "v_shutdown_override (snd (set_shutdown_override env b now s)) = Some b \<and> v_config (snd (set_shutdown_override env b now s)) = v_config s"
  using assms by (simp add: set_shutdown_override_def Let_def await_store_eq leaves_switch_def)

lemma switched_over:
  assumes "\<And>n. leaves_switch (envs n)" and "dict_get (ra_servers app) name = Some srv" and "server_name srv = name"
    and "dget data ''enabled'' = PBool (\<not> shutdown_enabled_now srv)" and "target_server data app = Inr (PStr name)"
  shows "flips name srv app (snd (monitor_shutdown fl envs now (Some (PDict data)) app))"
proof -
  let ?h = "set_shutdown_override (envs name) (\<not> shutdown_enabled_now srv) now"
  obtain r srv' where h: "?h (load_server app srv) = (r, srv')" by fastforce
  have "v_shutdown_override srv' = Some (\<not> shutdown_enabled_now srv) \<and> v_config srv' = v_config srv"
    using override_set [OF assms(1), of name "\<not> shutdown_enabled_now srv" now "load_server app srv"]
    unfolding h by (simp add: load_server_def)
  moreover have "snd (monitor_shutdown fl envs now (Some (PDict data)) app) = save_server name srv' app"
    using assms(2-5) h by (simp add: monitor_shutdown_def find_server_def snd_hbind run_server_def hret_def split: sum.split)
  ultimately show ?thesis by (simp add: flips_def save_server_def shutdown_enabled_now_def)
qed

lemma assembled_server:
  assumes "valid_config fs cron config" and "assembled config app" and "(name, srv) \<in> set (ra_servers app)"
  shows "dict_get (ra_servers app) name = Some srv" and "server_name srv = name" and "name \<noteq> []"
proof -
  have keys: "dict_keys (ra_servers app) = map vc_name (rc_servers config)" by (rule assembled_keys(1) [OF assms(2)])
  have "distinct (dict_keys (ra_servers app))" using assms(1) unfolding keys by (simp add: valid_config_def)
  then show "dict_get (ra_servers app) name = Some srv" using assms(3) by (simp add: dict_ok_get dict_ok_def)
  have "(name, v_config srv) \<in> set (map (\<lambda>(n, s). (n, v_config s)) (ra_servers app))" using assms(3) by force
  also have "\<dots> = set (map (\<lambda>c. (vc_name c, c)) (rc_servers config))" using assms(2) by (simp only: assembled_def)
  finally have "vc_name (v_config srv) = name" and "v_config srv \<in> set (rc_servers config)" by auto
  then show "server_name srv = name" and "name \<noteq> []"
    using assms(1) by (auto simp: server_name_def valid_config_def valid_server_def list_all_iff blank_def strip_def strip_by_def lstrip_by_def rstrip_by_def)
qed

text \<open>
  C27: The buttons of a server act on the server of their row. The page of a configured application has,
  for every row of its server table in order, a switch that sends the name of the server and the
  opposite of the automatic power-off it shows, and two power buttons, which are the orders to switch that
  server on and off. The switch turns over the automatic power-off of exactly that server, also
  when the store cannot be written; the switch of the primary block does so for the first server.
\<close>

theorem server_buttons_act_on_their_server:
  assumes "valid_config fs cron config" and "assembled config app"
    and "\<forall>(n, e) \<in> set (ra_endpoints app). states_known (ep_queue e)"
    and "build_data next_fire isoformat wall_now t app = Inr d"
    and "\<And>x. plain (num x)" and "\<And>x. plain (local_time x)" and "\<And>n. leaves_switch (envs n)"
  shows "let els = page_elements (render_page num local_time d);
      shutdown = (\<lambda>body. snd (monitor_shutdown fl envs now (Some body) app)) in
    toggle_posts els = map switch_order (md_servers d) \<and> power_posts els = concat (map power_orders (md_servers d)) \<and>
    list_all2 (\<lambda>line (name, srv). sl_name line = name \<and> flips name srv app (shutdown (switch_order line)) \<and>
        map (\<lambda>body. power_order (Some body) app) (power_orders line) = [Some (name, True), Some (name, False)])
      (md_servers d) (ra_servers app) \<and>
    (\<forall>name srv rest. ra_servers app = (name, srv) # rest \<longrightarrow>
       (\<exists>body. primary_toggle_post els = Some body \<and> flips name srv app (shutdown body)))"
proof -
  let ?els = "page_elements (render_page num local_time d)"
  have page: "page_says num local_time d (render_page num local_time d)"
    by (rule app_page_reads_back [OF assms(4,3,5,6)])
  have parts: "md_config d = config_block_of t app"
    "md_servers d = map (\<lambda>(_, s). server_line_of next_fire isoformat wall_now t (load_server app s)) (ra_servers app)"
    by (rule build_data_parts [OF assms(4)])+
  note named = assembled_server [OF assms(1,2)]
  have row: "sl_name line = name \<and> flips name srv app (snd (monitor_shutdown fl envs now (Some (switch_order line)) app)) \<and>
      map (\<lambda>body. power_order (Some body) app) (power_orders line) = [Some (name, True), Some (name, False)]"
    if srv: "(name, srv) \<in> set (ra_servers app)" and line: "line = server_line_of next_fire isoformat wall_now t (load_server app srv)"
    for name srv line
  proof -
    have name: "sl_name line = name" "sl_shutdown_enabled line = shutdown_enabled_now srv"
      using named(2) [OF srv] by (simp_all add: line server_line_of_def load_server_def server_name_def shutdown_enabled_now_def split: option.split)
    have "flips name srv app (snd (monitor_shutdown fl envs now (Some (switch_order line)) app))"
      unfolding switch_order_def
      by (rule switched_over [OF assms(7) named(1,2) [OF srv]]) (simp_all add: name dget_def target_server_def named(3) [OF srv])
    then show ?thesis using named [OF srv] by (simp add: name power_orders_def power_order_def dget_def dict_has_def)
  qed
  have rows: "list_all2 (\<lambda>line (name, srv). sl_name line = name \<and>
        flips name srv app (snd (monitor_shutdown fl envs now (Some (switch_order line)) app)) \<and>
        map (\<lambda>body. power_order (Some body) app) (power_orders line) = [Some (name, True), Some (name, False)])
      (md_servers d) (ra_servers app)"
    unfolding parts(2) list.rel_map by (rule list.rel_refl_strong) (use row in \<open>auto simp: case_prod_beta\<close>)
  have primary: "\<exists>body. primary_toggle_post ?els = Some body \<and> flips name srv app (snd (monitor_shutdown fl envs now (Some body) app))"
    if first: "ra_servers app = (name, srv) # rest" for name srv rest
  proof -
    have srv: "(name, srv) \<in> set (ra_servers app)" by (simp add: first)
    have "cb_shutdown_enabled (md_config d) = Some (shutdown_enabled_now srv)"
      by (simp add: parts(1) config_block_of_def Let_def primary_server_def first)
    then have "primary_toggle_post ?els = Some (PDict [(''enabled'', PBool (\<not> shutdown_enabled_now srv))])"
      using primary_toggle [OF page] by simp
    moreover have "flips name srv app (snd (monitor_shutdown fl envs now (Some (PDict [(''enabled'', PBool (\<not> shutdown_enabled_now srv))])) app))"
      by (rule switched_over [OF assms(7) named(1,2) [OF srv]]) (simp_all add: dget_def target_server_def first)
    ultimately show ?thesis by blast
  qed
  show ?thesis
    unfolding Let_def using page_posts(2,3) [OF page] rows primary by blast
qed



section \<open>Witnesses\<close>

lemma relay_world_truthful: "truthful relay_world"
  using relay_world_ok by (simp add: truthful_def relay_world_def upd_queue_def states_tick)

lemma demo_page:
  obtains app d where "demo_started = Some app" and "build_data (\<lambda>_ t. Inr t) (\<lambda>_. []) 0 70 (demo_turned app) = Inr d"
    and "(serving_step truthful backend_ops)\<^sup>*\<^sup>* app (demo_turned app)"
proof -
  obtain app d where app: "demo_started = Some app" "build_data (\<lambda>_ t. Inr t) (\<lambda>_. []) 0 70 (demo_turned app) = Inr d"
    using demo_monitored by (auto split: option.splits sum.splits)
  have "(serving_step truthful backend_ops)\<^sup>*\<^sup>* app (demo_turned app)"
    unfolding demo_turned_def using relay_world_truthful by (intro r_into_rtranclp serving_step.manager)
  then show ?thesis using that app by blast
qed

lemma plain_words: "plain ''1''" "plain ''noon''"
  by (simp_all add: plain_simps plain_char)

lemma monitor_page_shows_data_witness:
  "\<exists>app d. demo_started = Some app \<and> build_data (\<lambda>_ t. Inr t) (\<lambda>_. []) 0 70 (demo_turned app) = Inr d \<and>
     page_says (\<lambda>_. ''1'') (\<lambda>_. ''noon'') d (render_page (\<lambda>_. ''1'') (\<lambda>_. ''noon'') d)"
proof (rule demo_page)
  fix app d
  assume app: "demo_started = Some app" "build_data (\<lambda>_ t. Inr t) (\<lambda>_. []) 0 70 (demo_turned app) = Inr d"
    and run: "(serving_step truthful backend_ops)\<^sup>*\<^sup>* app (demo_turned app)"
  obtain app0 app1 r where up: "new_relay silent_bmc demo_store 0 demo_relay = Inr app0"
    "setup_app True app0 = (Inr (), app1)"
    "startup backend_ops [True] (\<lambda>_. relay_world) (\<lambda>_. still) 5 5 app1 = Some (r, app)"
    by (rule demo_started_parts [OF app(1)])
  show ?thesis
    using monitor_page_shows_data [OF demo_relay_valid up relay_world_truthful conjunct2 [OF conjunct2 [OF relay_world_ok]]
        run app(2) plain_words] app by blast
qed

text \<open>The same session on two endpoints: the button in the row of the second frees the spot at the first.\<close>

definition second_endpoint :: "noop_backend endpoint" where
  "second_endpoint = demo_endpoint\<lparr>ep_config := default_endpoint_config ''more'' ''gpu'' ''/v2''\<rparr>"

definition two_endpoints :: "noop_backend relay" where
  "two_endpoints = demo_app\<lparr>ra_endpoints := [(''chat'', demo_endpoint), (''more'', second_endpoint)]\<rparr>"

lemma second_row:
  obtains d row where "build_data (\<lambda>_ t. Inr t) (\<lambda>_. []) 0 70 two_endpoints = Inr d" and "(row, ''more'') \<in> set (md_sessions d)"
    and "r_spot row = ''held''" and "r_client row = ''claude''" and "r_session row = ''a''"
proof -
  obtain d where d: "build_data (\<lambda>_ t. Inr t) (\<lambda>_. []) 0 70 two_endpoints = Inr d"
    by (simp add: build_data_def two_endpoints_def demo_app_def recent_power_events_def open_store_def init_store_def empty_tables_def)
  let ?row = "snapshot_row_of ab_queue 70 1 0"
  have "snapshot_order ab_queue = 0 # tl (snapshot_order ab_queue)"
    by (simp add: snapshot_order_def first_pos_def ab_defs init_queue_def Let_def map_filter_def dict_setdefault_def dict_has_def
        push_new_def new_session_def new_entry_def)
  then have "?row \<in> set (snapshot ab_queue 70)" unfolding snapshot_def by (metis (no_types, lifting) enumerate_simps(2) image_eqI list.set_intros(1) list.set_map prod.case)
  then have "(?row, ''more'') \<in> set (md_sessions d)"
    unfolding build_data_parts(2) [OF d]
    by (simp add: session_rows_def two_endpoints_def second_endpoint_def demo_endpoint_def new_endpoint_def endpoint_name_def default_endpoint_config_def)
  then show ?thesis
    by (rule that [OF d]) (simp_all add: snapshot_row_of_def ab_defs init_queue_def new_session_def Let_def dict_has_def)
qed

lemma release_buttons_free_first_holder_witness:
  "\<exists>d row. build_data (\<lambda>_ t. Inr t) (\<lambda>_. []) 0 70 two_endpoints = Inr d \<and> (row, ''more'') \<in> set (md_sessions d) \<and> r_spot row = ''held'' \<and>
     monitor_release (\<lambda>_. []) 70 (Some (release_order (row, ''more''))) two_endpoints =
       (Done [(''released'', PBool True)],
        two_endpoints\<lparr>ra_endpoints := [(''chat'', freed 70 ''claude'' ''a'' demo_endpoint), (''more'', second_endpoint)]\<rparr>)"
proof (rule second_row)
  fix d row
  assume d: "build_data (\<lambda>_ t. Inr t) (\<lambda>_. []) 0 70 two_endpoints = Inr d" and row: "(row, ''more'') \<in> set (md_sessions d)"
    and held: "r_spot row = ''held''" "r_client row = ''claude''" "r_session row = ''a''"
  have "states_known ab_queue"
    by (simp add: states_known_def knows_states_def ab_defs init_queue_def new_session_def client_states_def)
  then have ok: "\<forall>(n, e) \<in> set (ra_endpoints two_endpoints). (\<exists>R W. q_inv R W (ep_queue e)) \<and> states_known (ep_queue e)"
    using ab_inv by (auto simp: two_endpoints_def second_endpoint_def demo_endpoint_def)
  obtain pre name e post where first: "ra_endpoints two_endpoints = pre @ (name, e) # post"
    "\<forall>(n, e) \<in> set pre. \<not> holds_spot ''claude'' ''a'' e"
    "monitor_release (\<lambda>_. []) 70 (Some (release_order (row, ''more''))) two_endpoints =
      (Done [(''released'', PBool True)], two_endpoints\<lparr>ra_endpoints := pre @ (name, freed 70 ''claude'' ''a'' e) # post\<rparr>)"
    using bspec [OF conjunct2 [OF release_buttons_free_first_holder [where fl = "\<lambda>_. []" and now = 70, OF ok d plain_words]] row] held by auto
  have "holds_spot ''claude'' ''a'' demo_endpoint" by (simp add: holds_spot_def demo_endpoint_def ab_queue_eq dict_has_def)
  then have "pre = []" "name = ''chat''" "e = demo_endpoint" "post = [(''more'', second_endpoint)]"
    using first(1,2) by (cases pre; auto simp: two_endpoints_def)+
  then show ?thesis using d row held first(3) by auto
qed

lemma server_buttons_act_on_their_server_witness:
  "\<exists>app d. demo_started = Some app \<and> build_data (\<lambda>_ t. Inr t) (\<lambda>_. []) 0 70 (demo_turned app) = Inr d \<and>
     toggle_posts (page_elements (render_page (\<lambda>_. ''1'') (\<lambda>_. ''noon'') d)) = map switch_order (md_servers d)"
proof (rule demo_page)
  fix app d
  assume app: "demo_started = Some app" "build_data (\<lambda>_ t. Inr t) (\<lambda>_. []) 0 70 (demo_turned app) = Inr d"
    and run: "(serving_step truthful backend_ops)\<^sup>*\<^sup>* app (demo_turned app)"
  obtain app0 app1 r where up: "new_relay silent_bmc demo_store 0 demo_relay = Inr app0"
    "setup_app True app0 = (Inr (), app1)"
    "startup backend_ops [True] (\<lambda>_. relay_world) (\<lambda>_. still) 5 5 app1 = Some (r, app)"
    by (rule demo_started_parts [OF app(1)])
  have "relay_inv words_queue demo_relay (demo_turned app)"
    by (rule serving_invariant(2) [OF spoken.serving_books_axioms fresh_queue_words demo_relay_valid up relay_world_truthful
          conjunct2 [OF conjunct2 [OF relay_world_ok]] run])
  then have inv: "assembled demo_relay (demo_turned app)" "\<forall>(n, e) \<in> set (ra_endpoints (demo_turned app)). states_known (ep_queue e)"
    by (auto simp: relay_inv_def words_queue_def)
  have "leaves_switch (still :: backend interference)" by (simp add: leaves_switch_def)
  from server_buttons_act_on_their_server [where fl = "\<lambda>_. []" and now = 70 and envs = "\<lambda>_. still",
      OF demo_relay_valid inv app(2) plain_words this]
  show ?thesis using app unfolding Let_def by blast
qed

end
