(* ===== verification/Spec2Isabelle.thy ===== *)
theory Spec2Isabelle
  imports Relay_Queue_Cap Relay_Schema Relay_History Relay_Wake Relay_Lifecycle Relay_Page_Props
begin

text \<open>
  A verification of the relay: an HTTP and WebSocket proxy in front of model servers that it powers
  on when requests arrive and off when they are idle. All paths below are under src/.

  \<^bold>\<open>The program and its parts.\<close> A request enters through a route of relay/main.py, which picks the
  endpoint with the longest matching path prefix. The endpoint (relay/endpoints.py) identifies
  the client session, puts the request into its queue (relay/queue.py), and holds it until the queue
  manager gives its session a spot; then a transport (relay/transport/http.py, relay/transport/ws.py)
  carries it to the model server. When the service does not answer its readiness probe the
  endpoint wakes its server (relay/servers.py), which powers the machine through a backend
  (relay/power) and, once it has been idle long enough or a schedule fires, powers it
  off again. What has to survive a restart is written to SQLite (relay/store.py, relay/db.py). The
  configuration is read and checked by relay/config.py into the dataclasses of relay/models.py;
  relay/clients.py knows the clients whose own status API tells whether a session is busy;
  relay/monitor.py reports all of it.

  \<^bold>\<open>Which theory models what.\<close>
  \<^item> \<open>Relay_Prelude\<close>: Python values, strings and dictionaries, clock, exceptions, handlers as state
    passing with an exception (\<open>hbind\<close>, \<open>hret\<close>, \<open>hmod\<close>), and the two contracts the proofs share: \<open>kept_relation\<close>
    (a relation between states that a composed handler keeps) and \<open>machine\<close> (a guarded step function with an
    invariant, its runs and its reachable states).
  \<^item> \<open>Relay_Models\<close>: the configuration records (models.py). \<open>Relay_Config\<close>: environment files, interpolation,
    field readers, section builders, \<open>load_config\<close> (config.py). Every raise is a constructor of \<open>config_error\<close>.
  \<^item> \<open>Relay_Clients\<close>: client providers, the status poller, the parent chain (clients.py).
  \<^item> \<open>Relay_Identify\<close>: \<open>resolve_session_id\<close>, \<open>resolve_session_id_ws\<close>, \<open>route\<close> (head of endpoints.py).
  \<^item> \<open>Relay_Transport\<close>: \<open>forward_request\<close> with its streaming generator, \<open>to_ws_url\<close>, the tunnel and its pumps.
  \<^item> \<open>Relay_Queue\<close>: \<open>EndpointQueue\<close> (queue.py). Sessions and entries are objects shared by reference: an explicit heap
    and an entry store, addressed by \<open>sref\<close> and \<open>eref\<close>. The unknown-traffic tracker is in \<open>Relay_Queue_Views\<close>.
  \<^item> \<open>Relay_Power\<close>: the Redfish backend over the BMC client with its retries, the no-op backend, the registry.
  \<^item> \<open>Relay_Store\<close>: the store as tables, request buffer, degraded mode and counters.
  \<^item> \<open>Relay_Schema\<close>: the mapped classes and the engine (db.py), the initial migration (migrations/versions), the rows the store writes.
  \<^item> \<open>Relay_Servers\<close>: \<open>ServerRuntime\<close>: power actions, ownership, cooldown, power sync, shutdown engine.
  \<^item> \<open>Relay_Endpoints\<close>: \<open>EndpointRuntime\<close>: readiness, queue manager, HTTP and WebSocket admission.
  \<^item> \<open>Relay_App\<close>: \<open>RelayApp\<close>, the health check, the POST actions of the monitor, the proxy routes, \<open>create_app\<close> and
    \<open>main\<close> (main.py). \<open>Relay_Monitor\<close>: the rows and totals of \<open>/monitor/data\<close> (monitor.py).
  \<^item> \<open>Relay_Page\<close>: the script of the monitor page (\<open>HTML_PAGE\<close>): escaping, the HTML of each table, what its buttons post;
    beside it a reader of that HTML, which is the specification it is held against.
  \<^item> \<open>Relay_Lifecycle\<close>: the lifespan, the start and stop of the background tasks, the closings, a flush caught in its middle.

  A definition has the name of the function or method it models where that name is free. A class is
  a record whose fields have a prefix (\<open>q_\<close> queue, \<open>s_\<close> session, \<open>e_\<close> entry, \<open>v_\<close> server, \<open>ep_\<close> endpoint,
  \<open>so_\<close> store, \<open>ra_\<close> application, \<open>pg_\<close> page); a method takes the record last and returns it.

  \<^bold>\<open>Concurrency.\<close> The program is one event loop: code runs alone between two awaits. A handler of a server takes
  the interference of each of its awaits (\<open>interference\<close>), a handler of an endpoint its \<open>surroundings\<close>: at
  the n-th await, what the rest of the program does, and what the outside (probe, client API, clock) answers.
  Theorems quantify over all surroundings, or over those that act on the queue as the program itself
  does (\<open>by_machine\<close>, \<open>courteous\<close>). The queue alone is a machine of events in any order
  (\<open>qsys_step\<close>), and the endpoint refines it.

  \<^bold>\<open>What the lemmas show.\<close>
  \<^item> \<open>Relay_Queue_Inv\<close>, \<open>Relay_Queue_Machine\<close>: the queue invariant \<open>q_inv\<close> (spots within capacity, counts equal to what
    the callers hold, nobody waits and runs at once), kept by every operation and event.
  \<^item> \<open>Relay_Queue_Policy\<close>, \<open>Relay_Queue_Cap\<close>: promotion is first-come-first-served and work conserving, spots are surrendered
    exactly when due, the per-session cap and when it does not bind.
  \<^item> \<open>Relay_Queue_Leak\<close>: the race between the identification of a session and the tick, and the spot it leaks for good.
  \<^item> \<open>Relay_Queue_Views\<close>: the end of a hold, the rows of the monitor, the accounting of unknown traffic.
  \<^item> \<open>Relay_Servers_Props\<close>: which power commands the engine may issue, races with traffic, memory and store agree.
  \<^item> \<open>Relay_Endpoints_Props\<close>, \<open>Relay_Ws_Props\<close>: the loops and the request handler refine the queue machine, a settled request
    gives back what it held, the manager leaves nobody waiting who may run, and where WebSockets differ.
  \<^item> \<open>Relay_Config_Props\<close>: precedence of the environment, interpolation, \<open>valid_config\<close> is exactly the range of the loader (the
    loader returns only valid configurations, and each is read back from its document).
  \<^item> \<open>Relay_App_Props\<close>: a valid configuration assembles, work keeps a server on, totals of the monitor, refused traffic, shutdown.
  \<^item> \<open>Relay_Schema\<close>: the migration creates what the classes declare and undoes it; every row of a reachable store fits its table.
  \<^item> \<open>Relay_Run\<close>: what steps of the application keep (\<open>queue_books\<close>), upkeep, and the application as a step relation over the queue's
    events (\<open>relay_step\<close>): the numbers of the monitor agree in every state it reaches from a valid configuration.
  \<^item> \<open>Relay_Requests\<close>: what the handlers of requests and WebSockets keep (\<open>endpoint_handlers\<close>), and the application with its handlers as
    steps (\<open>serving_step\<close>): configuration and capacity survive every race, also those that break the queue's books.
  \<^item> \<open>Relay_Wake\<close>: from a held request over the wake-up to READY and its promotion, by turns of the queue manager in surroundings that
    leave the wake-up alone (\<open>calm\<close>).
  \<^item> \<open>Relay_Page_Props\<close>: the states of sessions are four words on every run (\<open>states_known\<close>, by \<open>serving_books\<close>), so the page shows its
    data and nothing becomes markup; from a click through the page and the handler to the queue or the server it changes.
  \<^item> \<open>Relay_History\<close>: the tables of the history refine a plain record of what was committed and not yet forgotten.
  \<^item> \<open>Relay_Actions\<close>: the power switch of the monitor. \<open>Relay_Lifecycle\<close>: which tasks run, what a teardown leaves, what it can lose.

  \<^bold>\<open>Bounds and loops.\<close> Loops of the source that end are recursive functions with a measure (\<open>promote_loop\<close>: the waiting
  queue, \<open>prune_loop\<close>: the stale rows, \<open>sub_references\<close>: the text, \<open>existing_ancestor\<close>: the path) or recurse on the attempts of
  the source's own \<open>range\<close> (\<open>request_loop\<close>, \<open>share_walk\<close>), so no fuel is chosen. A loop that polls until something happens takes the list
  of its polls; a list that runs out means it is still waiting, which is a result of its own (\<open>StillHolding\<close>, None), and
  the theorems on termination say which polls end it. A background loop is modelled by its single pass. Times are rationals
  (float rounding is not modelled, but \<open>round(x, 1)\<close> is), integers unbounded as in Python, strings lists of Latin-1 characters.

  \<^bold>\<open>Parameters.\<close> Code outside the repository is an argument: the YAML and dotenv parsers, the file system and the cron library,
  JSON decoding, the text of a float, of a JavaScript number and of a local time, what a BMC, a target, a client API or the database answers. No theorem assumes more
  of them than it states; the interleavings and answers are arbitrary unless a hypothesis names them.

  \<^bold>\<open>Interfaces.\<close> What components rely on is stated once, as a locale, and interpreted on the model: \<open>machine\<close> (queue, store,
  server, entry-sparing queue), \<open>kept_relation\<close> with its extensions \<open>endpoint_tasks\<close>, \<open>endpoint_probes\<close>, \<open>endpoint_polls\<close>,
  \<open>endpoint_loops\<close> and \<open>endpoint_handlers\<close> (what a task of an endpoint keeps, given what its elementary updates keep), \<open>queue_books\<close> and
  its extension \<open>serving_books\<close> (what steps of the application keep of all queues), \<open>power_backend\<close> (a backend that answers).

  \<^bold>\<open>Not modelled.\<close> The frame, the style sheet and the timer of the monitor page and the browser's DOM beyond the attributes its handlers
  read, Alembic's runner (migrations/env.py) and SQLAlchemy (a transaction commits or fails as a parameter says), FastAPI, uvicorn and
  argparse, logging, keep-alive pings and close frames of the tunnel, the headers of a response, the cancellation of a handler other
  than the flusher in the middle of its work. They are calls into libraries or text without a decision of the program. Two
  things would need more than a definition: the books of the queue with the arrival of a request split at its await (they break
  there, see \<open>Relay_Queue_Leak\<close>; what still holds is in \<open>Relay_Requests\<close>), and fairness of the scheduler, which liveness
  beyond the given turns would rest on.
\<close>

end
